(* ===== verification/Kra_Prelude.thy ===== *)
theory Kra_Prelude
  imports Main "HOL-Library.Sublist" "HOL-Library.Char_ord" "HOL-Library.List_Lexorder"
    "HOL-Library.Multiset"
begin

text \<open>
  Shared vocabulary of the development: the collections the component proofs draw on, the result
  type of fallible Go functions, Go's \<open>slices.SortFunc\<close> on a key, and the list and map lemmas more
  than one component uses.
\<close>

named_theorems go_defs "definitions of the modelled Go helpers, unfolded by simp"
named_theorems go_inv "preservation lemmas of the component invariants"

subsection \<open>Fallible results\<close>

text \<open>
  A Go function with results \<open>(T, error)\<close> returns \<open>'e + 'a\<close>: \<open>Inl e\<close> when its error is not nil,
  \<open>Inr v\<close> otherwise. \<open>bindR\<close> is the \<open>if err != nil { return ..., err }\<close> idiom.
\<close>

definition bindR :: "'e + 'a \<Rightarrow> ('a \<Rightarrow> 'e + 'b) \<Rightarrow> 'e + 'b" where
  "bindR r f = (case r of Inl e \<Rightarrow> Inl e | Inr v \<Rightarrow> f v)"

lemma bindR_simps [simp]: "bindR (Inl e) f = Inl e" "bindR (Inr v) f = f v"
  by (simp_all add: bindR_def)

lemma bindR_Inr_iff: "bindR r f = Inr w \<longleftrightarrow> (\<exists>v. r = Inr v \<and> f v = Inr w)"
  by (cases r) auto

lemma bindR_Inl_iff: "bindR r f = Inl e \<longleftrightarrow> r = Inl e \<or> (\<exists>v. r = Inr v \<and> f v = Inl e)"
  by (cases r) auto

definition isOK :: "'e + 'a \<Rightarrow> bool" where
  "isOK r = (case r of Inl _ \<Rightarrow> False | Inr _ \<Rightarrow> True)"

lemma isOK_simps [simp]: "\<not> isOK (Inl e)" "isOK (Inr v)"
  by (simp_all add: isOK_def)

lemma isOK_iff: "isOK r \<longleftrightarrow> (\<exists>v. r = Inr v)"
  by (cases r) auto

text \<open>A \<open>for\<close> loop over a slice whose body may return an error.\<close>

fun foldE :: "('x \<Rightarrow> 's \<Rightarrow> 'e + 's) \<Rightarrow> 'x list \<Rightarrow> 's \<Rightarrow> 'e + 's" where
  "foldE f [] s = Inr s"
| "foldE f (x # xs) s = bindR (f x s) (foldE f xs)"

lemma foldE_append: "foldE f (xs @ ys) s = bindR (foldE f xs s) (foldE f ys)"
  by (induction xs arbitrary: s) (auto simp: bindR_def split: sum.splits)

lemma foldE_induct:
  assumes "foldE f xs s = Inr t" and "P s"
    and "\<And>x a b. x \<in> set xs \<Longrightarrow> f x a = Inr b \<Longrightarrow> P a \<Longrightarrow> P b"
  shows "P t"
  using assms by (induction xs arbitrary: s) (auto simp: bindR_Inr_iff)

subsection \<open>First match in a list\<close>

fun find_index :: "('a \<Rightarrow> bool) \<Rightarrow> 'a list \<Rightarrow> nat option" where
  "find_index P [] = None"
| "find_index P (x # xs) = (if P x then Some 0 else map_option Suc (find_index P xs))"

lemma find_index_None: "find_index P xs = None \<longleftrightarrow> (\<forall>x\<in>set xs. \<not> P x)"
  by (induction xs) auto

lemma find_index_Some:
  "find_index P xs = Some i \<longleftrightarrow> i < length xs \<and> P (xs ! i) \<and> (\<forall>j<i. \<not> P (xs ! j))"
proof (induction xs arbitrary: i)
  case Nil
  then show ?case by simp
next
  case (Cons x xs)
  then show ?case
    by (cases i) (auto simp: All_less_Suc2)
qed

lemma find_index_SomeD:
  assumes "find_index P xs = Some i"
  shows "i < length xs" and "P (xs ! i)"
  using assms by (simp_all add: find_index_Some)

subsection \<open>Sorting on a key\<close>

text \<open>
  \<open>slices.SortFunc(xs, cmp)\<close> with \<open>cmp\<close> comparing a key returns a permutation of \<open>xs\<close> whose keys
  are sorted; where keys are equal the order is unspecified. \<open>sort_key\<close> is one such permutation and,
  for distinct keys, the only one (\<open>sort_key_unique\<close>).
\<close>

lemma distinct_map_mset: "mset xs = mset ys \<Longrightarrow> distinct (map f xs) = distinct (map f ys)"
  by (metis distinct_count_atmost_1 mset_map set_mset_mset)

lemma sort_key_unique:
  assumes "mset ys = mset xs" and "sorted (map f ys)" and "distinct (map f xs)"
  shows "ys = sort_key f xs"
proof (rule map_sorted_distinct_set_unique [of f])
  show "inj_on f (set ys \<union> set (sort_key f xs))"
    using assms(1,3) by (metis distinct_map set_sort set_mset_mset sup.idem)
  show "sorted (map f ys)" by (rule assms(2))
  show "sorted (map f (sort_key f xs))" by simp
  show "distinct (map f ys)" using assms(1,3) distinct_map_mset by blast
  show "distinct (map f (sort_key f xs))" using assms(3) distinct_map_mset by (metis mset_sort)
  show "set ys = set (sort_key f xs)" using assms(1) by (metis set_sort set_mset_mset)
qed

lemma sort_key_id_if_sorted: "sorted (map f xs) \<Longrightarrow> sort_key f xs = xs"
  by (induction xs) (auto simp: insort_is_Cons)

end
