(* ===== verification/Go_Strings.thy ===== *)
theory Go_Strings
  imports Kra_Prelude
begin

text \<open>
  The part of Go's \<open>strings\<close> and \<open>strconv\<close> packages the program calls. A Go string is a sequence of
  bytes, here a \<open>string\<close> (a list of 8-bit \<open>char\<close>s). White space is Unicode's: \<open>space_runes\<close> lists the
  UTF-8 encodings of the runes \<open>unicode.IsSpace\<close> accepts. No encoding is a prefix of another and none
  starts with a continuation byte, so matching encodings byte by byte finds the same runes as decoding.
\<close>

subsection \<open>White space\<close>

definition space_runes :: "string list" where
  "space_runes =
    [[CHR 0x09], [CHR 0x0A], [CHR 0x0B], [CHR 0x0C], [CHR 0x0D], [CHR '' ''],
     [CHR 0xC2, CHR 0x85], [CHR 0xC2, CHR 0xA0], [CHR 0xE1, CHR 0x9A, CHR 0x80],
     [CHR 0xE2, CHR 0x80, CHR 0x80], [CHR 0xE2, CHR 0x80, CHR 0x81], [CHR 0xE2, CHR 0x80, CHR 0x82],
     [CHR 0xE2, CHR 0x80, CHR 0x83], [CHR 0xE2, CHR 0x80, CHR 0x84], [CHR 0xE2, CHR 0x80, CHR 0x85],
     [CHR 0xE2, CHR 0x80, CHR 0x86], [CHR 0xE2, CHR 0x80, CHR 0x87], [CHR 0xE2, CHR 0x80, CHR 0x88],
     [CHR 0xE2, CHR 0x80, CHR 0x89], [CHR 0xE2, CHR 0x80, CHR 0x8A], [CHR 0xE2, CHR 0x80, CHR 0xA8],
     [CHR 0xE2, CHR 0x80, CHR 0xA9], [CHR 0xE2, CHR 0x80, CHR 0xAF], [CHR 0xE2, CHR 0x81, CHR 0x9F],
     [CHR 0xE3, CHR 0x80, CHR 0x80]]"

text \<open>The first of \<open>seqs\<close> that \<open>s\<close> starts with.\<close>

definition leading :: "'a list list \<Rightarrow> 'a list \<Rightarrow> 'a list option" where
  "leading seqs s = find (\<lambda>p. p \<noteq> [] \<and> prefix p s) seqs"

lemma leading_Some: "leading seqs s = Some p \<Longrightarrow> p \<in> set seqs \<and> p \<noteq> [] \<and> prefix p s"
  unfolding leading_def by (metis (mono_tags, lifting) find_Some_iff nth_mem)

lemma leading_None: "leading seqs s = None \<longleftrightarrow> (\<forall>p\<in>set seqs. p \<noteq> [] \<longrightarrow> \<not> prefix p s)"
  by (auto simp: leading_def find_None_iff)

function strip :: "'a list list \<Rightarrow> 'a list \<Rightarrow> 'a list" where
  "strip seqs s = (case leading seqs s of None \<Rightarrow> s | Some p \<Rightarrow> strip seqs (drop (length p) s))"
  by pat_completeness auto
termination
proof (relation "measure (\<lambda>(seqs, s). length s)")
  fix seqs :: "'a list list" and s p
  assume "leading seqs s = Some p"
  then have "p \<noteq> []" and "prefix p s" by (auto dest: leading_Some)
  then show "((seqs, drop (length p) s), seqs, s) \<in> measure (\<lambda>(seqs, s). length s)"
    by (cases p; cases s) auto
qed simp

declare strip.simps [simp del]

lemma leading_strip: "leading seqs (strip seqs s) = None"
proof (induction seqs s rule: strip.induct)
  case (1 seqs s)
  then show ?case by (cases "leading seqs s") (simp_all add: strip.simps [of seqs s])
qed

lemma strip_id: "leading seqs s = None \<Longrightarrow> strip seqs s = s"
  by (simp add: strip.simps)

lemma strip_suffix: "suffix (strip seqs s) s"
proof (induction seqs s rule: strip.induct)
  case (1 seqs s)
  show ?case
  proof (cases "leading seqs s")
    case None
    then show ?thesis by (simp add: strip_id)
  next
    case (Some p)
    with 1 have "suffix (strip seqs (drop (length p) s)) (drop (length p) s)" by simp
    then have "suffix (strip seqs (drop (length p) s)) s"
      using suffix_drop suffix_order.order_trans by blast
    with Some show ?thesis by (simp add: strip.simps [of seqs s])
  qed
qed

lemma strip_strip [simp]: "strip seqs (strip seqs s) = strip seqs s"
  by (simp add: strip_id leading_strip)

lemma leading_prefix: "leading seqs s = None \<Longrightarrow> prefix t s \<Longrightarrow> leading seqs t = None"
  by (auto simp: leading_None)

subsection \<open>strings.TrimSpace and the other trims\<close>

definition trimLeftSpace :: "string \<Rightarrow> string" where
  "trimLeftSpace s = strip space_runes s"

definition trimRightSpace :: "string \<Rightarrow> string" where
  "trimRightSpace s = rev (strip (map rev space_runes) (rev s))"

definition TrimSpace :: "string \<Rightarrow> string" where
  "TrimSpace s = trimRightSpace (trimLeftSpace s)"

lemma trimRightSpace_prefix: "prefix (trimRightSpace s) s"
  unfolding trimRightSpace_def using strip_suffix [of "map rev space_runes" "rev s"]
  by (simp add: suffix_to_prefix)

lemma trimRightSpace_idem [simp]: "trimRightSpace (trimRightSpace s) = trimRightSpace s"
  by (simp add: trimRightSpace_def)

lemma trimLeft_TrimSpace: "trimLeftSpace (TrimSpace s) = TrimSpace s"
proof -
  have "leading space_runes (trimLeftSpace s) = None"
    by (simp add: trimLeftSpace_def leading_strip)
  then have "leading space_runes (TrimSpace s) = None"
    unfolding TrimSpace_def using trimRightSpace_prefix by (rule leading_prefix)
  then show ?thesis by (simp add: trimLeftSpace_def strip_id)
qed

lemma TrimSpace_idem [simp]: "TrimSpace (TrimSpace s) = TrimSpace s"
proof -
  have "TrimSpace (TrimSpace s) = trimRightSpace (TrimSpace s)"
    using trimLeft_TrimSpace by (simp add: TrimSpace_def)
  then show ?thesis by (simp add: TrimSpace_def)
qed

lemma TrimSpace_Nil [simp]: "TrimSpace [] = []"
  by code_simp

text \<open>\<open>strings.Trim(s, "c")\<close> for a one-byte cut set, and \<open>strings.TrimRight(s, "c")\<close>.\<close>

definition trimRightByte :: "char \<Rightarrow> string \<Rightarrow> string" where
  "trimRightByte c s = rev (dropWhile (\<lambda>x. x = c) (rev s))"

definition trimByte :: "char \<Rightarrow> string \<Rightarrow> string" where
  "trimByte c s = trimRightByte c (dropWhile (\<lambda>x. x = c) s)"

definition TrimPrefix :: "string \<Rightarrow> string \<Rightarrow> string" where
  "TrimPrefix s p = (if prefix p s then drop (length p) s else s)"

definition TrimSuffix :: "string \<Rightarrow> string \<Rightarrow> string" where
  "TrimSuffix s p = (if suffix p s then take (length s - length p) s else s)"

lemma TrimPrefix_append [simp]: "TrimPrefix (p @ s) p = s"
  by (simp add: TrimPrefix_def)

lemma TrimSuffix_append [simp]: "TrimSuffix (s @ p) p = s"
  by (simp add: TrimSuffix_def suffix_def)

subsection \<open>Splitting and joining\<close>

text \<open>\<open>strings.Split\<close> with a one-byte separator: never empty, and \<open>strings.Join\<close> undoes it.\<close>

fun split_on :: "char \<Rightarrow> string \<Rightarrow> string list" where
  "split_on c [] = [[]]"
| "split_on c (x # xs) =
     (if x = c then [] # split_on c xs
      else (case split_on c xs of [] \<Rightarrow> [[x]] | y # ys \<Rightarrow> (x # y) # ys))"

fun join :: "string \<Rightarrow> string list \<Rightarrow> string" where
  "join sep [] = []"
| "join sep [x] = x"
| "join sep (x # y # ys) = x @ sep @ join sep (y # ys)"

lemma split_on_ne [simp]: "split_on c s \<noteq> []"
  by (induction s) (auto split: list.splits)

lemma split_on_no_sep: "p \<in> set (split_on c s) \<Longrightarrow> c \<notin> set p"
  by (induction s arbitrary: p) (auto split: list.splits if_splits)

lemma split_on_free [simp]: "c \<notin> set s \<Longrightarrow> split_on c s = [s]"
  by (induction s) auto

lemma split_on_append:
  "c \<notin> set s \<Longrightarrow> split_on c (s @ c # t) = s # split_on c t"
  by (induction s) auto

lemma join_Cons: "join sep (x # xs) = (if xs = [] then x else x @ sep @ join sep xs)"
  by (cases xs) auto

lemma join_split: "join [c] (split_on c s) = s"
proof (induction s)
  case Nil
  then show ?case by simp
next
  case (Cons x s)
  then show ?case by (cases "split_on c s") (auto simp: join_Cons)
qed

lemma split_join:
  assumes "xs \<noteq> []" and "\<forall>x\<in>set xs. c \<notin> set x"
  shows "split_on c (join [c] xs) = xs"
  using assms
proof (induction xs)
  case Nil
  then show ?case by simp
next
  case (Cons x xs)
  then show ?case by (cases "xs = []") (auto simp: join_Cons split_on_append)
qed

lemma set_join: "set (join sep xs) \<subseteq> set sep \<union> (\<Union>x\<in>set xs. set x)"
  by (induction sep xs rule: join.induct) auto

lemma join_append:
  "xs \<noteq> [] \<Longrightarrow> ys \<noteq> [] \<Longrightarrow> join sep (xs @ ys) = join sep xs @ sep @ join sep ys"
  by (induction xs) (auto simp: join_Cons)

text \<open>\<open>strings.SplitN(s, "c", 2)\<close>: at most two parts.\<close>

definition splitN2 :: "char \<Rightarrow> string \<Rightarrow> string list" where
  "splitN2 c s = (if c \<in> set s then [takeWhile (\<lambda>x. x \<noteq> c) s, tl (dropWhile (\<lambda>x. x \<noteq> c) s)] else [s])"

text \<open>\<open>strings.Fields\<close>: the maximal runs of non-space runes; \<open>acc\<close> is the current run, reversed.\<close>

definition flush :: "string \<Rightarrow> string list \<Rightarrow> string list" where
  "flush acc rest = (if acc = [] then rest else rev acc # rest)"

function fields_aux :: "string \<Rightarrow> string \<Rightarrow> string list" where
  "fields_aux acc s =
     (case leading space_runes s of
        Some p \<Rightarrow> flush acc (fields_aux [] (drop (length p) s))
      | None \<Rightarrow> (case s of [] \<Rightarrow> flush acc [] | x # xs \<Rightarrow> fields_aux (x # acc) xs))"
  by pat_completeness auto
termination
proof (relation "measure (\<lambda>(acc, s). length s)")
  fix acc s p
  assume "leading space_runes s = Some p"
  then have "p \<noteq> []" and "prefix p s" by (auto dest: leading_Some)
  then show "(([], drop (length p) s), acc, s) \<in> measure (\<lambda>(acc, s). length s)"
    by (cases p; cases s) auto
qed auto

declare fields_aux.simps [simp del]

definition Fields :: "string \<Rightarrow> string list" where
  "Fields s = fields_aux [] s"

lemma fields_aux_nonempty: "f \<in> set (fields_aux acc s) \<Longrightarrow> f \<noteq> []"
proof (induction acc s rule: fields_aux.induct)
  case (1 acc s)
  show ?case
    using "1.prems" "1.IH"
    by (subst (asm) fields_aux.simps) (auto simp: flush_def split: option.splits list.splits if_splits)
qed

lemma Fields_nonempty: "f \<in> set (Fields s) \<Longrightarrow> f \<noteq> []"
  by (auto simp: Fields_def dest: fields_aux_nonempty)

subsection \<open>Searching\<close>

text \<open>\<open>strings.Index\<close> of a one-byte string (\<open>None\<close> for -1).\<close>

definition indexByte :: "char \<Rightarrow> string \<Rightarrow> nat option" where
  "indexByte c s = find_index (\<lambda>x. x = c) s"

definition Contains :: "string \<Rightarrow> string \<Rightarrow> bool" where
  "Contains s sub = sublist sub s"

subsection \<open>Case mapping\<close>

text \<open>
  \<open>strings.ToUpper\<close> and \<open>strings.ToLower\<close> on ASCII letters. Other bytes are kept, so the two agree
  with Go on every ASCII string.
\<close>

definition upperByte :: "char \<Rightarrow> char" where
  "upperByte c = (if CHR ''a'' \<le> c \<and> c \<le> CHR ''z'' then char_of (of_char c - 32 :: nat) else c)"

definition lowerByte :: "char \<Rightarrow> char" where
  "lowerByte c = (if CHR ''A'' \<le> c \<and> c \<le> CHR ''Z'' then char_of (of_char c + 32 :: nat) else c)"

definition ToUpper :: "string \<Rightarrow> string" where
  "ToUpper s = map upperByte s"

definition ToLower :: "string \<Rightarrow> string" where
  "ToLower s = map lowerByte s"

subsection \<open>strconv.Atoi\<close>

definition is_digit :: "char \<Rightarrow> bool" where
  "is_digit c \<longleftrightarrow> 48 \<le> (of_char c :: nat) \<and> (of_char c :: nat) \<le> 57"

definition digit_val :: "char \<Rightarrow> nat" where
  "digit_val c = of_char c - 48"

definition digits_val :: "string \<Rightarrow> nat" where
  "digits_val s = foldl (\<lambda>n c. 10 * n + digit_val c) 0 s"

abbreviation int64_min :: int where "int64_min \<equiv> - (2 ^ 63)"
abbreviation int64_max :: int where "int64_max \<equiv> 2 ^ 63 - 1"

definition in_int64 :: "int \<Rightarrow> bool" where
  "in_int64 n \<longleftrightarrow> int64_min \<le> n \<and> n \<le> int64_max"

text \<open>\<open>None\<close> is a syntax or range error: \<open>int\<close> has 64 bits on the supported platforms.\<close>

definition Atoi :: "string \<Rightarrow> int option" where
  "Atoi s =
     (let (neg, ds) = (case s of [] \<Rightarrow> (False, [])
                       | c # cs \<Rightarrow> if c = CHR ''-'' then (True, cs)
                                   else if c = CHR ''+'' then (False, cs) else (False, s));
          n = (if neg then - int (digits_val ds) else int (digits_val ds))
      in if ds \<noteq> [] \<and> list_all is_digit ds \<and> in_int64 n then Some n else None)"

text \<open>\<open>strconv.Itoa\<close> and \<open>%d\<close>.\<close>

fun nat_digits :: "nat \<Rightarrow> string" where
  "nat_digits n = (if n < 10 then [char_of (n + 48)] else nat_digits (n div 10) @ [char_of (n mod 10 + 48)])"

declare nat_digits.simps [simp del]

definition Itoa :: "int \<Rightarrow> string" where
  "Itoa n = (if n < 0 then CHR ''-'' # nat_digits (nat (- n)) else nat_digits (nat n))"

lemma digit_char [simp]:
  assumes "d < 10"
  shows "digit_val (char_of (d + 48)) = d" and "is_digit (char_of (d + 48))"
  using assms by (simp_all add: digit_val_def is_digit_def)

lemma nat_digits_ne [simp]: "nat_digits n \<noteq> []"
  by (subst nat_digits.simps) simp

lemma digits_val_snoc: "digits_val (s @ [c]) = 10 * digits_val s + digit_val c"
  by (simp add: digits_val_def)

lemma nat_digits_digits: "c \<in> set (nat_digits n) \<Longrightarrow> is_digit c"
proof (induction n rule: nat_digits.induct)
  case (1 n)
  then show ?case
    by (cases "n < 10") (auto simp: nat_digits.simps [of n])
qed

lemma digits_val_nat_digits [simp]: "digits_val (nat_digits n) = n"
proof (induction n rule: nat_digits.induct)
  case (1 n)
  show ?case
  proof (cases "n < 10")
    case True
    then show ?thesis by (simp add: nat_digits.simps [of n] digits_val_def)
  next
    case False
    with 1 show ?thesis by (simp add: nat_digits.simps [of n] digits_val_snoc)
  qed
qed

lemma is_digit_signs: "is_digit c \<Longrightarrow> c \<noteq> CHR ''-'' \<and> c \<noteq> CHR ''+''"
  by (auto simp: is_digit_def)

lemma hd_nat_digits: "is_digit (hd (nat_digits n))"
  by (rule nat_digits_digits [of _ n]) simp

text \<open>\<open>strconv.Atoi\<close> reads back what \<open>strconv.Itoa\<close> writes.\<close>

lemma Atoi_Itoa: "in_int64 n \<Longrightarrow> Atoi (Itoa n) = Some n"
proof (cases "n < 0")
  case True
  assume "in_int64 n"
  with True show ?thesis
    by (auto simp: Atoi_def Itoa_def Let_def list_all_iff dest: nat_digits_digits)
next
  case False
  assume n: "in_int64 n"
  obtain c cs where c: "nat_digits (nat n) = c # cs" by (cases "nat_digits (nat n)") auto
  then have "is_digit c" using hd_nat_digits [of "nat n"] by simp
  then have "c \<noteq> CHR ''-''" and "c \<noteq> CHR ''+''" using is_digit_signs by blast+
  then have "Atoi (nat_digits (nat n)) =
      (if list_all is_digit (nat_digits (nat n)) \<and> in_int64 (int (digits_val (nat_digits (nat n))))
       then Some (int (digits_val (nat_digits (nat n)))) else None)"
    unfolding c by (simp add: Atoi_def Let_def)
  moreover have "list_all is_digit (nat_digits (nat n))"
    by (auto simp: list_all_iff dest: nat_digits_digits)
  ultimately show ?thesis using False n by (simp add: Itoa_def)
qed

end
