(* ===== verification/Go_Json.thy ===== *)
theory Go_Json
  imports Go_Strings
begin

text \<open>
  The part of \<open>encoding/json\<close> the program's state files go through: \<open>MarshalIndent(v, "", "  ")\<close>
  (with its HTML escaping and its replacement of invalid UTF-8) and the syntax and string decoding of
  \<open>Unmarshal\<close>. Fields are matched as \<open>Unmarshal\<close> does, case-insensitively. Two things are left out:
  the decoder's nesting limit of 10000 and the merging of a slice decoded twice under a repeated key.

  The parser recurses with fuel; \<open>parse_fuel_enough\<close> shows that one more than the input's length
  gives the same result as any larger amount, and \<open>parse_print\<close> is the round trip.
\<close>

subsection \<open>UTF-8\<close>

abbreviation byte :: "char \<Rightarrow> nat" where "byte c \<equiv> of_char c"

definition cont :: "char \<Rightarrow> bool" where
  "cont c \<longleftrightarrow> 0x80 \<le> byte c \<and> byte c \<le> 0xBF"

text \<open>The length of the well-formed rune a string starts with, 0 if there is none (\<open>utf8.DecodeRune\<close>).\<close>

definition ok2 :: "char \<Rightarrow> char \<Rightarrow> bool" where
  "ok2 a b \<longleftrightarrow> 0xC2 \<le> byte a \<and> byte a \<le> 0xDF \<and> cont b"

definition ok3 :: "char \<Rightarrow> char \<Rightarrow> char \<Rightarrow> bool" where
  "ok3 a b c \<longleftrightarrow> 0xE0 \<le> byte a \<and> byte a \<le> 0xEF \<and> cont b \<and> cont c
     \<and> (byte a = 0xE0 \<longrightarrow> 0xA0 \<le> byte b) \<and> (byte a = 0xED \<longrightarrow> byte b \<le> 0x9F)"

definition ok4 :: "char \<Rightarrow> char \<Rightarrow> char \<Rightarrow> char \<Rightarrow> bool" where
  "ok4 a b c d \<longleftrightarrow> 0xF0 \<le> byte a \<and> byte a \<le> 0xF4 \<and> cont b \<and> cont c \<and> cont d
     \<and> (byte a = 0xF0 \<longrightarrow> 0x90 \<le> byte b) \<and> (byte a = 0xF4 \<longrightarrow> byte b \<le> 0x8F)"

fun rune_len :: "string \<Rightarrow> nat" where
  "rune_len [] = 0"
| "rune_len (a # s) =
     (if byte a < 0x80 then 1
      else case s of
        [] \<Rightarrow> 0
      | b # t \<Rightarrow> if ok2 a b then 2
                 else case t of
                   [] \<Rightarrow> 0
                 | c # u \<Rightarrow> if ok3 a b c then 3
                            else case u of [] \<Rightarrow> 0 | d # _ \<Rightarrow> if ok4 a b c d then 4 else 0)"

lemma rune_len_le: "rune_len s \<le> length s"
  by (cases s) (auto split: list.splits)

lemma rune_len_take: "0 < rune_len s \<Longrightarrow> rune_len (take (rune_len s) s @ t) = rune_len s"
  by (cases s) (auto simp: ok2_def ok3_def ok4_def split: list.splits)

lemma rune_len_ascii: "byte c < 0x80 \<Longrightarrow> rune_len (c # s) = 1"
  by simp

declare rune_len.simps [simp del]

function valid_utf8 :: "string \<Rightarrow> bool" where
  "valid_utf8 s =
     (if s = [] then True else if rune_len s = 0 then False else valid_utf8 (drop (rune_len s) s))"
  by pat_completeness auto
termination by (relation "measure length") auto

declare valid_utf8.simps [simp del]

text \<open>\<open>utf8.AppendRune\<close>: surrogates and values above 0x10FFFF become U+FFFD.\<close>

definition rune_error :: string where
  "rune_error = [CHR 0xEF, CHR 0xBF, CHR 0xBD]"

definition encode_rune :: "nat \<Rightarrow> string" where
  "encode_rune r =
     (if r < 0x80 then [char_of r]
      else if r < 0x800 then [char_of (0xC0 + r div 64), char_of (0x80 + r mod 64)]
      else if (0xD800 \<le> r \<and> r \<le> 0xDFFF) \<or> 0x10FFFF < r then rune_error
      else if r < 0x10000 then
        [char_of (0xE0 + r div 4096), char_of (0x80 + r div 64 mod 64), char_of (0x80 + r mod 64)]
      else [char_of (0xF0 + r div 262144), char_of (0x80 + r div 4096 mod 64),
            char_of (0x80 + r div 64 mod 64), char_of (0x80 + r mod 64)])"

subsection \<open>String literals\<close>

definition hex_digit :: "nat \<Rightarrow> char" where
  "hex_digit n = (if n < 10 then char_of (n + 48) else char_of (n + 87))"

definition hex_val :: "char \<Rightarrow> nat option" where
  "hex_val c =
     (if 48 \<le> byte c \<and> byte c \<le> 57 then Some (byte c - 48)
      else if 97 \<le> byte c \<and> byte c \<le> 102 then Some (byte c - 87)
      else if 65 \<le> byte c \<and> byte c \<le> 70 then Some (byte c - 55) else None)"

definition u00 :: "nat \<Rightarrow> string" where
  "u00 n = [CHR 0x5C, CHR ''u'', CHR ''0'', CHR ''0'', hex_digit (n div 16), hex_digit (n mod 16)]"

text \<open>One ASCII byte, with \<open>htmlSafeSet\<close>: control bytes, quotes, backslash and \<open><>&\<close> are escaped.\<close>

definition escape_byte :: "char \<Rightarrow> string" where
  "escape_byte c =
     (if c = CHR 0x22 \<or> c = CHR 0x5C then [CHR 0x5C, c]
      else if c = CHR 0x08 then [CHR 0x5C, CHR ''b'']
      else if c = CHR 0x0C then [CHR 0x5C, CHR ''f'']
      else if c = CHR 0x0A then [CHR 0x5C, CHR ''n'']
      else if c = CHR 0x0D then [CHR 0x5C, CHR ''r'']
      else if c = CHR 0x09 then [CHR 0x5C, CHR ''t'']
      else if byte c < 0x20 \<or> c = CHR ''<'' \<or> c = CHR ''>'' \<or> c = CHR ''&'' then u00 (byte c)
      else [c])"

function escape_str :: "string \<Rightarrow> string" where
  "escape_str s =
     (case s of
        [] \<Rightarrow> []
      | c # r \<Rightarrow>
          if byte c < 0x80 then escape_byte c @ escape_str r
          else if rune_len s = 0 then [CHR 0x5C] @ ''ufffd'' @ escape_str r
          else if take (rune_len s) s = [CHR 0xE2, CHR 0x80, CHR 0xA8] then
            [CHR 0x5C] @ ''u2028'' @ escape_str (drop (rune_len s) s)
          else if take (rune_len s) s = [CHR 0xE2, CHR 0x80, CHR 0xA9] then
            [CHR 0x5C] @ ''u2029'' @ escape_str (drop (rune_len s) s)
          else take (rune_len s) s @ escape_str (drop (rune_len s) s))"
  by pat_completeness auto
termination by (relation "measure length") auto

declare escape_str.simps [simp del]

definition quote :: "string \<Rightarrow> string" where
  "quote s = [CHR 0x22] @ escape_str s @ [CHR 0x22]"

text \<open>Four hexadecimal digits after a backslash and \<open>u\<close>.\<close>

fun hex4 :: "string \<Rightarrow> (nat \<times> string) option" where
  "hex4 (a # b # c # d # r) =
     (case (hex_val a, hex_val b, hex_val c, hex_val d) of
        (Some w, Some x, Some y, Some z) \<Rightarrow> Some (4096 * w + 256 * x + 16 * y + z, r)
      | _ \<Rightarrow> None)"
| "hex4 _ = None"

lemma hex4_length: "hex4 s = Some (n, r) \<Longrightarrow> length r < length s"
  by (induction s rule: hex4.induct) (auto split: option.splits)

text \<open>A surrogate pair is one rune; a lone surrogate is U+FFFD and consumes one escape only.\<close>

definition unicode_escape :: "string \<Rightarrow> (string \<times> string) option" where
  "unicode_escape s =
     (case hex4 s of
        None \<Rightarrow> None
      | Some (n, r) \<Rightarrow>
          if 0xD800 \<le> n \<and> n \<le> 0xDBFF then
            (case r of
               x # y # r' \<Rightarrow>
                 (if x = CHR 0x5C \<and> y = CHR ''u'' then
                    (case hex4 r' of
                       Some (m, r'') \<Rightarrow>
                         if 0xDC00 \<le> m \<and> m \<le> 0xDFFF
                         then Some (encode_rune (0x10000 + (n - 0xD800) * 0x400 + (m - 0xDC00)), r'')
                         else Some (rune_error, r)
                     | None \<Rightarrow> Some (rune_error, r))
                  else Some (rune_error, r))
             | _ \<Rightarrow> Some (rune_error, r))
          else Some (encode_rune n, r))"

lemma unicode_escape_length: "unicode_escape s = Some (b, r) \<Longrightarrow> length r < length s"
  by (auto simp: unicode_escape_def split: option.splits if_splits list.splits dest!: hex4_length)

definition simple_escape :: "char \<Rightarrow> char option" where
  "simple_escape c =
     (if c = CHR 0x22 \<or> c = CHR 0x5C \<or> c = CHR ''/'' then Some c
      else if c = CHR ''b'' then Some (CHR 0x08) else if c = CHR ''f'' then Some (CHR 0x0C)
      else if c = CHR ''n'' then Some (CHR 0x0A) else if c = CHR ''r'' then Some (CHR 0x0D)
      else if c = CHR ''t'' then Some (CHR 0x09) else None)"

text \<open>The rest of a string literal, after its opening quote.\<close>

function parse_str :: "string \<Rightarrow> (string \<times> string) option" where
  "parse_str s =
     (case s of
        [] \<Rightarrow> None
      | c # r \<Rightarrow>
          if c = CHR 0x22 then Some ([], r)
          else if c = CHR 0x5C then
            (case r of
               [] \<Rightarrow> None
             | e # r' \<Rightarrow>
                 if e = CHR ''u'' then
                   (case unicode_escape r' of
                      None \<Rightarrow> None
                    | Some (b, r'') \<Rightarrow> map_option (apfst (append b)) (parse_str r''))
                 else (case simple_escape e of
                         None \<Rightarrow> None
                       | Some b \<Rightarrow> map_option (apfst (Cons b)) (parse_str r')))
          else if byte c < 0x20 then None
          else if byte c < 0x80 then map_option (apfst (Cons c)) (parse_str r)
          else if rune_len s = 0 then map_option (apfst (append rune_error)) (parse_str r)
          else map_option (apfst (append (take (rune_len s) s))) (parse_str (drop (rune_len s) s)))"
  by pat_completeness auto
termination
  by (relation "measure length") (auto dest: unicode_escape_length)

declare parse_str.simps [simp del]

text \<open>What \<open>quote\<close> writes is read back, for every well-formed UTF-8 string.\<close>

lemma hex_val_digit: "n < 16 \<Longrightarrow> hex_val (hex_digit n) = Some n"
  by (simp add: hex_val_def hex_digit_def)

lemma unicode_escape_u00:
  assumes "n < 0x80"
  shows "unicode_escape (CHR ''0'' # CHR ''0'' # hex_digit (n div 16) # hex_digit (n mod 16) # u)
       = Some ([char_of n], u)"
proof -
  have z: "hex_val (CHR ''0'') = Some 0" by (simp add: hex_val_def)
  have "16 * (n div 16) + n mod 16 = n" by presburger
  with assms show ?thesis
    by (simp add: unicode_escape_def hex_val_digit z encode_rune_def)
qed

lemma parse_str_simps:
  shows "parse_str (CHR 0x22 # r) = Some ([], r)"
    and "parse_str (CHR 0x5C # CHR ''u'' # r) =
      (case unicode_escape r of None \<Rightarrow> None | Some (b, r') \<Rightarrow> map_option (apfst (append b)) (parse_str r'))"
  by (subst parse_str.simps, simp)+

lemma parse_str_simple:
  "e \<noteq> CHR ''u'' \<Longrightarrow> simple_escape e = Some b \<Longrightarrow>
     parse_str (CHR 0x5C # e # r) = map_option (apfst (Cons b)) (parse_str r)"
  by (subst parse_str.simps) simp

lemma parse_str_ascii:
  "c \<noteq> CHR 0x22 \<Longrightarrow> c \<noteq> CHR 0x5C \<Longrightarrow> \<not> byte c < 0x20 \<Longrightarrow> byte c < 0x80 \<Longrightarrow>
     parse_str (c # r) = map_option (apfst (Cons c)) (parse_str r)"
  by (subst parse_str.simps) simp

definition short_escapes :: "(char \<times> char) list" where
  "short_escapes = [(CHR 0x22, CHR 0x22), (CHR 0x5C, CHR 0x5C), (CHR 0x08, CHR ''b''),
     (CHR 0x0C, CHR ''f''), (CHR 0x0A, CHR ''n''), (CHR 0x0D, CHR ''r''), (CHR 0x09, CHR ''t'')]"

lemma short_escapes_all:
  "list_all (\<lambda>(c, e). escape_byte c = [CHR 0x5C, e] \<and> e \<noteq> CHR ''u'' \<and> simple_escape e = Some c) short_escapes"
  by (simp add: short_escapes_def escape_byte_def simple_escape_def)

lemma short_escape:
  "(c, e) \<in> set short_escapes \<Longrightarrow>
     escape_byte c = [CHR 0x5C, e] \<and> e \<noteq> CHR ''u'' \<and> simple_escape e = Some c"
  using short_escapes_all by (auto simp: list_all_iff)

lemma escape_byte_cases:
  assumes "byte c < 0x80"
  obtains e where "(c, e) \<in> set short_escapes"
  | "escape_byte c = u00 (byte c)"
  | "escape_byte c = [c]" "c \<noteq> CHR 0x22" "c \<noteq> CHR 0x5C" "\<not> byte c < 0x20"
proof (cases "c \<in> fst ` set short_escapes")
  case True
  then show ?thesis using that(1) by auto
next
  case False
  then have "c \<noteq> CHR 0x22" "c \<noteq> CHR 0x5C" "c \<noteq> CHR 0x08" "c \<noteq> CHR 0x0C" "c \<noteq> CHR 0x0A"
    "c \<noteq> CHR 0x0D" "c \<noteq> CHR 0x09" by (simp_all add: short_escapes_def)
  then show ?thesis
    using that(2,3)
    by (cases "byte c < 0x20 \<or> c = CHR ''<'' \<or> c = CHR ''>'' \<or> c = CHR ''&''")
      (simp_all add: escape_byte_def)
qed

lemma parse_escape_byte:
  assumes "byte c < 0x80"
  shows "parse_str (escape_byte c @ u) = map_option (apfst (Cons c)) (parse_str u)"
  using assms
proof (cases rule: escape_byte_cases)
  case (1 e)
  from short_escape [OF 1] show ?thesis by (simp add: parse_str_simple)
next
  case 2
  then show ?thesis using assms
    by (simp add: u00_def parse_str_simps unicode_escape_u00 apfst_def map_prod_def)
next
  case 3
  then show ?thesis using assms by (simp add: parse_str_ascii)
qed

lemma encode_seps:
  "encode_rune 8232 = [CHR 0xE2, CHR 0x80, CHR 0xA8]" "encode_rune 8233 = [CHR 0xE2, CHR 0x80, CHR 0xA9]"
  by (simp_all add: encode_rune_def char_of_eq_iff)

lemma parse_sep:
  shows "parse_str ([CHR 0x5C] @ ''u2028'' @ u)
       = map_option (apfst (append [CHR 0xE2, CHR 0x80, CHR 0xA8])) (parse_str u)"
    and "parse_str ([CHR 0x5C] @ ''u2029'' @ u)
       = map_option (apfst (append [CHR 0xE2, CHR 0x80, CHR 0xA9])) (parse_str u)"
  by (simp_all add: parse_str_simps unicode_escape_def hex_val_def encode_seps)

lemma parse_rune:
  assumes "s = c # r" and "\<not> byte c < 0x80" and "0 < rune_len s"
  shows "parse_str (take (rune_len s) s @ u)
       = map_option (apfst (append (take (rune_len s) s))) (parse_str u)"
proof -
  let ?n = "rune_len s"
  have l: "rune_len (take ?n s @ u) = ?n" using assms(3) by (rule rune_len_take)
  have d: "drop ?n (take ?n s @ u) = u" and t: "take ?n (take ?n s @ u) = take ?n s"
    using rune_len_le [of s] by simp_all
  obtain r' where r': "take ?n s @ u = c # r'"
    using assms(1,3) by (cases ?n) auto
  have "c \<noteq> CHR 0x22" "c \<noteq> CHR 0x5C" "\<not> byte c < 0x20" using assms(2) by auto
  moreover have "rune_len (c # r') \<noteq> 0" using l assms(3) by (simp add: r')
  ultimately have "parse_str (c # r') = map_option (apfst (append (take (rune_len (c # r')) (c # r'))))
      (parse_str (drop (rune_len (c # r')) (c # r')))"
    using assms(2) by (simp add: parse_str.simps [of "c # r'"])
  then show ?thesis by (simp only: r' [symmetric] l d t)
qed

lemma parse_escape: "valid_utf8 s \<Longrightarrow> parse_str (escape_str s @ CHR 0x22 # u) = Some (s, u)"
proof (induction s rule: valid_utf8.induct)
  case (1 s)
  show ?case
  proof (cases s)
    case Nil
    then show ?thesis by (simp add: escape_str.simps parse_str_simps)
  next
    case (Cons c r)
    with "1.prems" have n: "0 < rune_len s" and v: "valid_utf8 (drop (rune_len s) s)"
      by (auto simp: valid_utf8.simps [of "c # r"] split: if_splits)
    with 1 Cons have IH: "parse_str (escape_str (drop (rune_len s) s) @ CHR 0x22 # u)
        = Some (drop (rune_len s) s, u)" by simp
    show ?thesis
    proof (cases "byte c < 0x80")
      case True
      with Cons have "rune_len s = 1" by (simp add: rune_len_ascii)
      with IH Cons True show ?thesis
        by (simp add: escape_str.simps [of "c # r"] parse_escape_byte)
    next
      case False
      have td: "CHR 0xE2 # CHR 0x80 # x # drop (rune_len s) s = s"
        if "take (rune_len s) s = [CHR 0xE2, CHR 0x80, x]" for x
        using that append_take_drop_id [of "rune_len s" s] by simp
      have "escape_str s =
          (if take (rune_len s) s = [CHR 0xE2, CHR 0x80, CHR 0xA8]
           then [CHR 0x5C] @ ''u2028'' @ escape_str (drop (rune_len s) s)
           else if take (rune_len s) s = [CHR 0xE2, CHR 0x80, CHR 0xA9]
           then [CHR 0x5C] @ ''u2029'' @ escape_str (drop (rune_len s) s)
           else take (rune_len s) s @ escape_str (drop (rune_len s) s))"
        using Cons False n by (subst escape_str.simps) simp
      then show ?thesis
        using IH parse_sep parse_rune [OF Cons False n] td by simp
    qed
  qed
qed

subsection \<open>Values\<close>

text \<open>\<open>JFrac\<close> is a number literal with a fraction or an exponent; no field of the program accepts one.\<close>

datatype json = JNull | JBool bool | JNum int | JFrac string | JStr string
  | JArr "json list" | JObj "(string \<times> json) list"

definition nl :: "nat \<Rightarrow> string" where
  "nl n = CHR 0x0A # replicate (2 * n) (CHR '' '')"

text \<open>\<open>print_json n v\<close> is \<open>v\<close> as \<open>MarshalIndent(v, "", "  ")\<close> writes it at nesting depth \<open>n\<close>.\<close>

fun print_json :: "nat \<Rightarrow> json \<Rightarrow> string"
  and print_elems :: "nat \<Rightarrow> json list \<Rightarrow> string"
  and print_members :: "nat \<Rightarrow> (string \<times> json) list \<Rightarrow> string" where
  "print_json n JNull = ''null''"
| "print_json n (JBool b) = (if b then ''true'' else ''false'')"
| "print_json n (JNum i) = Itoa i"
| "print_json n (JFrac l) = l"
| "print_json n (JStr s) = quote s"
| "print_json n (JArr xs) = (if xs = [] then ''[]'' else ''['' @ print_elems n xs)"
| "print_json n (JObj ms) = (if ms = [] then ''{}'' else ''{'' @ print_members n ms)"
| "print_elems n [] = []"
| "print_elems n (x # xs) =
     nl (Suc n) @ print_json (Suc n) x @ (if xs = [] then nl n @ '']'' else '','' @ print_elems n xs)"
| "print_members n [] = []"
| "print_members n ((k, x) # ms) =
     nl (Suc n) @ quote k @ '': '' @ print_json (Suc n) x @
     (if ms = [] then nl n @ ''}'' else '','' @ print_members n ms)"

definition is_ws :: "char \<Rightarrow> bool" where
  "is_ws c \<longleftrightarrow> c = CHR '' '' \<or> c = CHR 0x09 \<or> c = CHR 0x0A \<or> c = CHR 0x0D"

definition skip_ws :: "string \<Rightarrow> string" where
  "skip_ws s = dropWhile is_ws s"

text \<open>A number literal: the integer part has no leading zero.\<close>

definition exponent :: "string \<Rightarrow> string option" where
  "exponent s =
     (case s of
        c # r \<Rightarrow>
          if c = CHR ''e'' \<or> c = CHR ''E'' then
            (let r' = (case r of [] \<Rightarrow> [] | x # xs \<Rightarrow> if x = CHR ''+'' \<or> x = CHR ''-'' then xs else r)
             in if takeWhile is_digit r' = [] then None else Some (dropWhile is_digit r'))
          else Some s
      | [] \<Rightarrow> Some [])"

definition fraction :: "string \<Rightarrow> string option" where
  "fraction s =
     (case s of
        c # r \<Rightarrow>
          if c = CHR ''.'' then
            (if takeWhile is_digit r = [] then None else Some (dropWhile is_digit r))
          else Some s
      | [] \<Rightarrow> Some [])"

definition parse_num :: "string \<Rightarrow> (json \<times> string) option" where
  "parse_num s =
     (let neg = (case s of [] \<Rightarrow> False | c # _ \<Rightarrow> c = CHR ''-'');
          t = (if neg then tl s else s);
          ds = takeWhile is_digit t; r = dropWhile is_digit t
      in if ds = [] \<or> (hd ds = CHR ''0'' \<and> length ds > 1) then None
         else case Option.bind (fraction r) exponent of
           None \<Rightarrow> None
         | Some r' \<Rightarrow>
             if r' = r then Some (JNum (if neg then - int (digits_val ds) else int (digits_val ds)), r)
             else Some (JFrac (take (length s - length r') s), r'))"

definition literal :: "string \<Rightarrow> json \<Rightarrow> string \<Rightarrow> (json \<times> string) option" where
  "literal l v s = (if prefix l s then Some (v, drop (length l) s) else None)"

text \<open>An object key and the colon after it.\<close>

definition member_key :: "string \<Rightarrow> (string \<times> string) option" where
  "member_key s =
     (case skip_ws s of
        [] \<Rightarrow> None
      | q # r0 \<Rightarrow>
          if q \<noteq> CHR 0x22 then None
          else (case parse_str r0 of
            None \<Rightarrow> None
          | Some (k, r1) \<Rightarrow>
              (case skip_ws r1 of
                 [] \<Rightarrow> None
               | col # r2 \<Rightarrow> if col \<noteq> CHR '':'' then None else Some (k, r2))))"

fun parse_value :: "nat \<Rightarrow> string \<Rightarrow> (json \<times> string) option"
  and parse_elems :: "nat \<Rightarrow> string \<Rightarrow> (json list \<times> string) option"
  and parse_members :: "nat \<Rightarrow> string \<Rightarrow> ((string \<times> json) list \<times> string) option" where
  "parse_value 0 s = None"
| "parse_value (Suc f) s =
     (case skip_ws s of
        [] \<Rightarrow> None
      | c # r \<Rightarrow>
          if c = CHR 0x22 then map_option (apfst JStr) (parse_str r)
          else if c = CHR ''['' then
            (case skip_ws r of
               [] \<Rightarrow> None
             | x # xs \<Rightarrow> if x = CHR '']'' then Some (JArr [], xs)
                          else map_option (apfst JArr) (parse_elems f r))
          else if c = CHR ''{'' then
            (case skip_ws r of
               [] \<Rightarrow> None
             | x # xs \<Rightarrow> if x = CHR ''}'' then Some (JObj [], xs)
                          else map_option (apfst JObj) (parse_members f r))
          else if c = CHR ''n'' then literal ''null'' JNull (c # r)
          else if c = CHR ''t'' then literal ''true'' (JBool True) (c # r)
          else if c = CHR ''f'' then literal ''false'' (JBool False) (c # r)
          else parse_num (c # r))"
| "parse_elems 0 s = None"
| "parse_elems (Suc f) s =
     (case parse_value f s of
        None \<Rightarrow> None
      | Some (v, r) \<Rightarrow>
          (case skip_ws r of
             [] \<Rightarrow> None
           | c # r' \<Rightarrow> if c = CHR '','' then map_option (apfst (Cons v)) (parse_elems f r')
                        else if c = CHR '']'' then Some ([v], r') else None))"
| "parse_members 0 s = None"
| "parse_members (Suc f) s =
     (case member_key s of
        None \<Rightarrow> None
      | Some (k, r2) \<Rightarrow>
          (case parse_value f r2 of
             None \<Rightarrow> None
           | Some (v, r3) \<Rightarrow>
               (case skip_ws r3 of
                  [] \<Rightarrow> None
                | c # r4 \<Rightarrow> if c = CHR '','' then map_option (apfst (Cons (k, v))) (parse_members f r4)
                             else if c = CHR ''}'' then Some ([(k, v)], r4) else None)))"

text \<open>A whole document: one value, then white space only.\<close>

definition parse_json :: "string \<Rightarrow> json option" where
  "parse_json s =
     (case parse_value (Suc (2 * length s)) s of
        Some (v, r) \<Rightarrow> if skip_ws r = [] then Some v else None
      | None \<Rightarrow> None)"

subsection \<open>Round trip\<close>

fun wf_json :: "json \<Rightarrow> bool" and wf_members :: "(string \<times> json) list \<Rightarrow> bool" where
  "wf_json (JFrac l) = False"
| "wf_json (JStr s) = valid_utf8 s"
| "wf_json (JArr []) = True"
| "wf_json (JArr (x # xs)) = (wf_json x \<and> wf_json (JArr xs))"
| "wf_json (JObj ms) = wf_members ms"
| "wf_json JNull = True"
| "wf_json (JBool b) = True"
| "wf_json (JNum i) = True"
| "wf_members [] = True"
| "wf_members ((k, x) # ms) = (valid_utf8 k \<and> wf_json x \<and> wf_members ms)"

text \<open>The fuel a value needs, and that its text is at least that long.\<close>

fun need :: "json \<Rightarrow> nat" and needs :: "json list \<Rightarrow> nat" and needm :: "(string \<times> json) list \<Rightarrow> nat" where
  "need (JArr xs) = Suc (needs xs)"
| "need (JObj ms) = Suc (needm ms)"
| "need v = 1"
| "needs [] = 0"
| "needs (x # xs) = Suc (need x + needs xs)"
| "needm [] = 0"
| "needm ((k, x) # ms) = Suc (need x + needm ms)"

lemma Itoa_ne [simp]: "Itoa i \<noteq> []"
  by (simp add: Itoa_def)

lemma need_le_length:
  "wf_json v \<Longrightarrow> need v \<le> length (print_json n v)"
  "wf_json (JArr xs) \<Longrightarrow> needs xs \<le> length (print_elems n xs)"
  "wf_members ms \<Longrightarrow> needm ms \<le> length (print_members n ms)"
proof (induction n v and n xs and n ms rule: print_json_print_elems_print_members.induct)
  case (3 n i)
  then show ?case by (cases "Itoa i") (auto simp: Suc_le_eq)
qed (auto simp: nl_def quote_def)

definition stops :: "string \<Rightarrow> bool" where
  "stops t = (case t of [] \<Rightarrow> True
              | c # _ \<Rightarrow> \<not> is_digit c \<and> c \<noteq> CHR ''.'' \<and> c \<noteq> CHR ''e'' \<and> c \<noteq> CHR ''E'')"

lemma stops_punct: "stops [] " "stops (CHR '','' # t)" "stops (nl n @ t)" "stops (CHR 0x0A # t)"
  by (simp_all add: stops_def nl_def is_digit_def)

lemma skip_ws_nl [simp]: "skip_ws (nl n @ s) = skip_ws s"
proof -
  have "dropWhile is_ws (replicate m (CHR '' '') @ s) = dropWhile is_ws s" for m
    by (induction m) (simp_all add: is_ws_def)
  then show ?thesis by (simp add: skip_ws_def nl_def is_ws_def)
qed

lemma skip_ws_Cons: "skip_ws (c # s) = (if is_ws c then skip_ws s else c # s)"
  by (simp add: skip_ws_def)

lemma parse_value_skip: "skip_ws s = skip_ws t \<Longrightarrow> parse_value f s = parse_value f t"
  by (cases f) (simp_all del: skip_ws_nl)

text \<open>Numbers.\<close>

lemma nat_digits_no_zero: "0 < n \<Longrightarrow> hd (nat_digits n) \<noteq> CHR ''0''"
proof (induction n rule: nat_digits.induct)
  case (1 n)
  show ?case
  proof (cases "n < 10")
    case True
    have "char_of (n + 48) \<noteq> CHR ''0''"
    proof
      assume "char_of (n + 48) = CHR ''0''"
      then have "byte (char_of (n + 48)) = byte (CHR ''0'')" by (rule arg_cong)
      with True 1 show False by simp
    qed
    with True show ?thesis by (simp add: nat_digits.simps [of n])
  next
    case False
    with 1 have "hd (nat_digits (n div 10)) \<noteq> CHR ''0''" by simp
    with False show ?thesis by (simp add: nat_digits.simps [of n])
  qed
qed

lemma nat_digits_zero: "hd (nat_digits n) = CHR ''0'' \<Longrightarrow> length (nat_digits n) = 1"
proof -
  assume "hd (nat_digits n) = CHR ''0''"
  then have "n = 0" using nat_digits_no_zero by blast
  then show ?thesis by (simp add: nat_digits.simps)
qed

lemma digits_span:
  assumes "stops t"
  shows "takeWhile is_digit (nat_digits n @ t) = nat_digits n"
    and "dropWhile is_digit (nat_digits n @ t) = t"
  using assms
  by (auto simp: takeWhile_append dropWhile_append stops_def dest: nat_digits_digits split: list.splits)

lemma stops_exact: "stops t \<Longrightarrow> Option.bind (fraction t) exponent = Some t"
  by (auto simp: stops_def fraction_def exponent_def split: list.splits)

lemma parse_num_Itoa: "stops t \<Longrightarrow> parse_num (Itoa i @ t) = Some (JNum i, t)"
proof (cases "i < 0")
  case True
  assume t: "stops t"
  with True show ?thesis
    using nat_digits_zero [of "nat (- i)"]
    by (auto simp: parse_num_def Itoa_def Let_def digits_span stops_exact)
next
  case False
  assume t: "stops t"
  obtain c cs where c: "nat_digits (nat i) = c # cs" by (cases "nat_digits (nat i)") auto
  then have "c \<noteq> CHR ''-''" using hd_nat_digits [of "nat i"] is_digit_signs [of c] by simp
  then have "(case Itoa i @ t of [] \<Rightarrow> False | c # _ \<Rightarrow> c = CHR ''-'') = False"
    using False c by (simp add: Itoa_def)
  with t False show ?thesis
    using nat_digits_zero [of "nat i"]
    by (auto simp: parse_num_def Itoa_def Let_def digits_span stops_exact)
qed

definition starts_num :: "char \<Rightarrow> bool" where
  "starts_num c \<longleftrightarrow> is_digit c \<or> c = CHR ''-''"

lemma Itoa_hd: "\<exists>c r. Itoa i = c # r \<and> starts_num c"
proof (cases "i < 0")
  case False
  obtain c cs where "nat_digits (nat i) = c # cs" by (cases "nat_digits (nat i)") auto
  with False show ?thesis using hd_nat_digits [of "nat i"] by (auto simp: Itoa_def starts_num_def)
qed (simp add: Itoa_def starts_num_def)

lemma starts_num_not:
  "starts_num c \<Longrightarrow> \<not> is_ws c \<and> c \<notin> set [CHR 0x22, CHR ''['', CHR ''{'', CHR ''n'', CHR ''t'', CHR ''f'', CHR '']'', CHR ''}'']"
  by (auto simp: starts_num_def is_digit_def is_ws_def)

lemma parse_value_num: "stops t \<Longrightarrow> parse_value (Suc f) (Itoa i @ t) = Some (JNum i, t)"
proof -
  assume t: "stops t"
  obtain c r where c: "Itoa i = c # r" "starts_num c" using Itoa_hd by blast
  with starts_num_not [OF c(2)] parse_num_Itoa [OF t, of i] show ?thesis
    by (simp add: skip_ws_Cons)
qed

lemma print_json_hd:
  assumes "wf_json v"
  shows "\<exists>c r. print_json n v = c # r \<and> \<not> is_ws c \<and> c \<noteq> CHR '']'' \<and> c \<noteq> CHR ''}''"
proof (cases v)
  case (JNum i)
  then show ?thesis using Itoa_hd [of i] starts_num_not by fastforce
qed (use assms in \<open>auto simp: quote_def is_ws_def\<close>)

lemma skip_ws_print: "wf_json v \<Longrightarrow> skip_ws (print_json n v @ t) = print_json n v @ t"
  using print_json_hd [of v n] by (auto simp: skip_ws_Cons)

lemma parse_value_quote:
  "valid_utf8 s \<Longrightarrow> parse_value (Suc f) (quote s @ t) = Some (JStr s, t)"
  by (simp add: quote_def skip_ws_Cons is_ws_def parse_escape)

lemma parse_value_arr:
  assumes "parse_elems f s = Some (xs, t)" and "skip_ws s = c # r" and "c \<noteq> CHR '']''"
  shows "parse_value (Suc f) (CHR ''['' # s) = Some (JArr xs, t)"
  using assms by (simp add: skip_ws_Cons is_ws_def)

lemma parse_value_obj:
  assumes "parse_members f s = Some (ms, t)" and "skip_ws s = c # r" and "c \<noteq> CHR ''}''"
  shows "parse_value (Suc f) (CHR ''{'' # s) = Some (JObj ms, t)"
  using assms by (simp add: skip_ws_Cons is_ws_def)

lemma parse_elems_Cons:
  assumes "\<And>r. stops r \<Longrightarrow> parse_value f (print_json (Suc n) x @ r) = Some (x, r)"
    and "xs \<noteq> [] \<Longrightarrow> parse_elems f (print_elems n xs @ t) = Some (xs, t)"
  shows "parse_elems (Suc f) (print_elems n (x # xs) @ t) = Some (x # xs, t)"
proof -
  let ?r = "(if xs = [] then nl n @ '']'' else '','' @ print_elems n xs) @ t"
  have "parse_value f (nl (Suc n) @ print_json (Suc n) x @ ?r) = parse_value f (print_json (Suc n) x @ ?r)"
    by (rule parse_value_skip) simp
  also have "\<dots> = Some (x, ?r)" by (rule assms(1)) (auto simp: stops_punct)
  finally show ?thesis
    using assms(2) by (cases "xs = []") (simp_all add: skip_ws_Cons is_ws_def)
qed

lemma parse_members_Cons:
  assumes "\<And>r. stops r \<Longrightarrow> parse_value f (print_json (Suc n) x @ r) = Some (x, r)"
    and "ms \<noteq> [] \<Longrightarrow> parse_members f (print_members n ms @ t) = Some (ms, t)" and "valid_utf8 k"
  shows "parse_members (Suc f) (print_members n ((k, x) # ms) @ t) = Some ((k, x) # ms, t)"
proof -
  let ?r = "(if ms = [] then nl n @ ''}'' else '','' @ print_members n ms) @ t"
  have "parse_value f (CHR '' '' # print_json (Suc n) x @ ?r) = parse_value f (print_json (Suc n) x @ ?r)"
    by (rule parse_value_skip) (simp add: skip_ws_Cons is_ws_def)
  also have "\<dots> = Some (x, ?r)" by (rule assms(1)) (auto simp: stops_punct)
  finally show ?thesis
    using assms(2,3)
    by (cases "ms = []") (simp_all add: member_key_def quote_def parse_escape skip_ws_Cons is_ws_def)
qed

lemma skip_ws_print_elems:
  "wf_json x \<Longrightarrow> \<exists>c r. skip_ws (print_elems n (x # xs) @ t) = c # r \<and> c \<noteq> CHR '']''"
  using print_json_hd [of x "Suc n"] by (auto simp: skip_ws_Cons)

lemma skip_ws_print_members:
  "\<exists>r. skip_ws (print_members n ((k, x) # ms) @ t) = CHR 0x22 # r"
  by (simp add: quote_def skip_ws_Cons is_ws_def)

lemma parse_print_arr:
  assumes "wf_json (JArr xs)" and "xs \<noteq> [] \<Longrightarrow> parse_elems f (print_elems n xs @ t) = Some (xs, t)"
  shows "parse_value (Suc f) (print_json n (JArr xs) @ t) = Some (JArr xs, t)"
proof (cases xs)
  case Nil
  then show ?thesis by (simp add: skip_ws_Cons is_ws_def)
next
  case (Cons x ys)
  with assms(1) obtain c r where "skip_ws (print_elems n xs @ t) = c # r" "c \<noteq> CHR '']''"
    using skip_ws_print_elems by fastforce
  from parse_value_arr [OF assms(2) this] Cons show ?thesis by simp
qed

lemma parse_print_obj:
  assumes "ms \<noteq> [] \<Longrightarrow> parse_members f (print_members n ms @ t) = Some (ms, t)"
  shows "parse_value (Suc f) (print_json n (JObj ms) @ t) = Some (JObj ms, t)"
proof (cases ms)
  case Nil
  then show ?thesis by (simp add: skip_ws_Cons is_ws_def)
next
  case (Cons m ys)
  then obtain r where "skip_ws (print_members n ms @ t) = CHR 0x22 # r"
    using skip_ws_print_members by (metis surj_pair)
  from parse_value_obj [OF assms this] Cons show ?thesis by simp
qed

lemma parse_print:
  "wf_json v \<Longrightarrow> need v \<le> f \<Longrightarrow> stops t \<Longrightarrow> parse_value f (print_json n v @ t) = Some (v, t)"
  "wf_json (JArr xs) \<Longrightarrow> xs \<noteq> [] \<Longrightarrow> needs xs \<le> f \<Longrightarrow>
     parse_elems f (print_elems n xs @ t) = Some (xs, t)"
  "wf_members ms \<Longrightarrow> ms \<noteq> [] \<Longrightarrow> needm ms \<le> f \<Longrightarrow>
     parse_members f (print_members n ms @ t) = Some (ms, t)"
proof (induction n v and n xs and n ms arbitrary: f t and f t and f t
    rule: print_json_print_elems_print_members.induct)
  case (1 n)
  then show ?case by (cases f) (simp_all add: skip_ws_Cons is_ws_def literal_def)
next
  case (2 n b)
  then show ?case by (cases f; cases b) (simp_all add: skip_ws_Cons is_ws_def literal_def)
next
  case (3 n i)
  then show ?case by (cases f) (simp_all add: parse_value_num del: parse_value.simps)
next
  case (5 n s)
  then show ?case by (cases f) (simp_all add: parse_value_quote del: parse_value.simps)
next
  case (6 n xs)
  then obtain f' where "f = Suc f'" "needs xs \<le> f'" by (cases f) auto
  with 6 show ?case using parse_print_arr by blast
next
  case (7 n ms)
  then obtain f' where "f = Suc f'" "needm ms \<le> f'" by (cases f) auto
  with 7 show ?case using parse_print_obj by fastforce
next
  case (9 n x xs)
  then obtain f' where f: "f = Suc f'" "need x \<le> f'" "needs xs \<le> f'" by (cases f) auto
  have "parse_value f' (print_json (Suc n) x @ r) = Some (x, r)" if "stops r" for r
    using 9 f that by simp
  moreover have "parse_elems f' (print_elems n xs @ t) = Some (xs, t)" if "xs \<noteq> []"
    using 9 f that by simp
  ultimately show ?case unfolding f(1) by (rule parse_elems_Cons)
next
  case (11 n k x ms)
  then obtain f' where f: "f = Suc f'" "need x \<le> f'" "needm ms \<le> f'" by (cases f) auto
  have "parse_value f' (print_json (Suc n) x @ r) = Some (x, r)" if "stops r" for r
    using 11 f that by simp
  moreover have "parse_members f' (print_members n ms @ t) = Some (ms, t)" if "ms \<noteq> []"
    using 11 f that by simp
  ultimately show ?case unfolding f(1) using "11.prems" by (intro parse_members_Cons) auto
qed simp_all

text \<open>A printed document, with the newline the program appends, parses to its value.\<close>

lemma parse_print_json: "wf_json v \<Longrightarrow> parse_json (print_json 0 v @ [CHR 0x0A]) = Some v"
proof -
  assume v: "wf_json v"
  have "need v \<le> Suc (2 * length (print_json 0 v @ [CHR 0x0A]))"
    using need_le_length(1) [OF v, of 0] by simp
  from parse_print(1) [OF v this, of "[CHR 0x0A]" 0] show ?thesis
    by (simp add: parse_json_def stops_punct skip_ws_def is_ws_def)
qed

subsection \<open>Fuel\<close>

lemma parse_str_length: "parse_str s = Some (v, r) \<Longrightarrow> length r < length s"
proof (induction s arbitrary: v rule: parse_str.induct)
  case (1 s)
  show ?case
    using "1.prems" "1.IH"
    by (subst (asm) parse_str.simps)
      (fastforce split: list.splits if_splits option.splits dest: unicode_escape_length)
qed

lemma skip_ws_length: "length (skip_ws s) \<le> length s"
  by (simp add: skip_ws_def length_dropWhile_le)

lemma skip_ws_ConsD: "skip_ws s = c # r \<Longrightarrow> length r < length s"
  using skip_ws_length [of s] by simp

lemma fraction_length: "fraction s = Some r \<Longrightarrow> length r \<le> length s"
  by (auto simp: fraction_def split: list.splits if_splits)
    (meson le_SucI length_dropWhile_le)

lemma exponent_length: "exponent s = Some r \<Longrightarrow> length r \<le> length s"
proof -
  assume "exponent s = Some r"
  moreover have "length (dropWhile is_digit t) \<le> length t" for t by (rule length_dropWhile_le)
  ultimately show ?thesis
    by (auto simp: exponent_def Let_def split: list.splits if_splits) (meson le_SucI)+
qed

lemma parse_num_length: "parse_num s = Some (v, r) \<Longrightarrow> length r < length s"
proof -
  assume p: "parse_num s = Some (v, r)"
  define t where "t = (if (case s of [] \<Rightarrow> False | c # _ \<Rightarrow> c = CHR ''-'') then tl s else s)"
  have ts: "length t \<le> length s" by (simp add: t_def)
  have d: "takeWhile is_digit t \<noteq> []"
    and r: "\<exists>r1. fraction (dropWhile is_digit t) = Some r1 \<and> exponent r1 = Some r"
    using p by (auto simp: parse_num_def t_def [symmetric] Let_def split: if_splits option.splits bind_splits)
  have "length (takeWhile is_digit t) + length (dropWhile is_digit t) = length t"
    by (metis length_append takeWhile_dropWhile_id)
  with d have "length (dropWhile is_digit t) < length t"
    by (cases "takeWhile is_digit t") auto
  with r ts show ?thesis by (auto dest!: fraction_length exponent_length)
qed

lemma literal_length: "literal l v s = Some (w, r) \<Longrightarrow> l \<noteq> [] \<Longrightarrow> length r < length s"
  by (auto simp: literal_def prefix_def split: if_splits)

lemma member_key_length: "member_key s = Some (k, r) \<Longrightarrow> length r < length s"
  by (auto simp: member_key_def split: list.splits if_splits option.splits
      dest!: skip_ws_ConsD parse_str_length)

lemmas parse_lengths = parse_str_length parse_num_length literal_length skip_ws_ConsD

lemma parse_length:
  "parse_value f s = Some (v, r) \<Longrightarrow> length r < length s"
  "parse_elems f s = Some (vs, r) \<Longrightarrow> length r < length s"
  "parse_members f s = Some (ms, r) \<Longrightarrow> length r < length s"
proof (induction f s and f s and f s arbitrary: v r and vs r and ms r
    rule: parse_value_parse_elems_parse_members.induct)
  case (2 f s)
  show ?case
  proof (cases "skip_ws s")
    case Nil
    with "2.prems" show ?thesis by simp
  next
    case (Cons c t)
    from skip_ws_ConsD [OF this] have l: "length t < length s" .
    show ?thesis
      using "2.prems" "2.IH" Cons l
      by (auto split: if_splits list.splits option.splits dest!: parse_lengths)
        (metis order.strict_trans)+
  qed
next
  case (4 f s)
  then show ?case
    by (auto split: option.splits list.splits if_splits dest!: skip_ws_ConsD) (fastforce dest: order.strict_trans)+
next
  case (6 f s)
  then show ?case
    by (auto split: option.splits list.splits if_splits dest!: member_key_length skip_ws_ConsD)
      (fastforce dest: order.strict_trans)+
qed simp_all

text \<open>Fuel above twice the input's length changes nothing: the parser never stops for lack of it.\<close>

lemma parse_value_fuel_step:
  assumes "\<And>r. length r < length s \<Longrightarrow> parse_elems f r = parse_elems g r"
    and "\<And>r. length r < length s \<Longrightarrow> parse_members f r = parse_members g r"
  shows "parse_value (Suc f) s = parse_value (Suc g) s"
proof (cases "skip_ws s")
  case (Cons c t)
  from skip_ws_ConsD [OF this] assms have "parse_elems f t = parse_elems g t" "parse_members f t = parse_members g t"
    by auto
  with Cons show ?thesis by (simp cong: list.case_cong if_cong)
qed simp

text \<open>The list loops, given what their recursive calls do.\<close>

lemma parse_elems_fuel_step:
  assumes "parse_value f s = parse_value g s"
    and "\<And>r. length r < length s \<Longrightarrow> parse_elems f r = parse_elems g r"
  shows "parse_elems (Suc f) s = parse_elems (Suc g) s"
proof (cases "parse_value g s")
  case (Some p)
  then obtain x r where p: "parse_value g s = Some (x, r)" by (cases p) auto
  then have "length r < length s" by (rule parse_length(1))
  then have "parse_elems f r' = parse_elems g r'" if "skip_ws r = c # r'" for c r'
    using assms(2) skip_ws_ConsD [OF that] by simp
  with p assms(1) show ?thesis by (auto split: list.splits)
qed (simp add: assms(1))

lemma parse_members_fuel_step:
  assumes "\<And>r. length r < length s \<Longrightarrow> parse_value f r = parse_value g r"
    and "\<And>r. length r < length s \<Longrightarrow> parse_members f r = parse_members g r"
  shows "parse_members (Suc f) s = parse_members (Suc g) s"
proof (cases "member_key s")
  case (Some kr)
  then obtain k t where k: "member_key s = Some (k, t)" by (cases kr) auto
  then have t: "length t < length s" by (rule member_key_length)
  show ?thesis
  proof (cases "parse_value g t")
    case (Some p)
    then obtain x r where p: "parse_value g t = Some (x, r)" by (cases p) auto
    then have "length r < length t" by (rule parse_length(1))
    then have "parse_members f r' = parse_members g r'" if "skip_ws r = c # r'" for c r'
      using assms(2) t skip_ws_ConsD [OF that] by simp
    with p k assms(1) [OF t] show ?thesis by (auto split: list.splits)
  qed (simp add: assms(1) [OF t] k)
qed simp

lemma parse_fuel:
  "2 * length s < f \<Longrightarrow> f \<le> g \<Longrightarrow> parse_value f s = parse_value g s"
  "2 * length s + 1 < f \<Longrightarrow> f \<le> g \<Longrightarrow> parse_elems f s = parse_elems g s"
  "2 * length s + 1 < f \<Longrightarrow> f \<le> g \<Longrightarrow> parse_members f s = parse_members g s"
proof (induction f arbitrary: s g)
  case (Suc f)
  {
    case 1
    then obtain g' where g: "g = Suc g'" "f \<le> g'" by (cases g) auto
    show ?case unfolding g(1)
      by (rule parse_value_fuel_step) (use Suc(2,3) [of _ g'] 1 g in auto)
  next
    case 2
    then obtain g' where g: "g = Suc g'" "f \<le> g'" by (cases g) auto
    show ?case unfolding g(1)
      by (rule parse_elems_fuel_step) (use Suc(1,2) [of _ g'] 2 g in auto)
  next
    case 3
    then obtain g' where g: "g = Suc g'" "f \<le> g'" by (cases g) auto
    show ?case unfolding g(1)
      by (rule parse_members_fuel_step) (use Suc(1,3) [of _ g'] 3 g in auto)
  }
qed simp_all

lemma parse_fuel_enough: "2 * length s < f \<Longrightarrow> parse_value f s = parse_value (Suc (2 * length s)) s"
  using parse_fuel(1) [of s "Suc (2 * length s)" f] by simp

subsection \<open>Decoding into structs\<close>

text \<open>
  Keys match field names up to Unicode case folding; the only non-ASCII runes that fold to an ASCII
  letter are U+212A (to K) and U+017F (to S).
\<close>

fun fold_name :: "string \<Rightarrow> string" where
  "fold_name (a # b # c # s) =
     (if a = CHR 0xE2 \<and> b = CHR 0x84 \<and> c = CHR 0xAA then CHR ''K'' # fold_name s
      else if a = CHR 0xC5 \<and> b = CHR 0xBF then CHR ''S'' # fold_name (c # s)
      else upperByte a # fold_name (b # c # s))"
| "fold_name [a, b] = (if a = CHR 0xC5 \<and> b = CHR 0xBF then ''S'' else [upperByte a, upperByte b])"
| "fold_name [a] = [upperByte a]"
| "fold_name [] = []"

declare fold_name.simps [simp del]

type_synonym 'r field = "string \<times> (json \<Rightarrow> 'r \<Rightarrow> 'r option)"

text \<open>Members are decoded in order into the record; unknown keys are skipped; \<open>None\<close> is a type error.\<close>

fun decode_members :: "'r field list \<Rightarrow> (string \<times> json) list \<Rightarrow> 'r \<Rightarrow> 'r option" where
  "decode_members fs [] r = Some r"
| "decode_members fs ((k, v) # ms) r =
     (case find (\<lambda>f. fold_name (fst f) = fold_name k) fs of
        None \<Rightarrow> decode_members fs ms r
      | Some f \<Rightarrow> Option.bind (snd f v r) (decode_members fs ms))"

definition decode_struct :: "'r field list \<Rightarrow> json \<Rightarrow> 'r \<Rightarrow> 'r option" where
  "decode_struct fs v r =
     (case v of JObj ms \<Rightarrow> decode_members fs ms r | JNull \<Rightarrow> Some r | _ \<Rightarrow> None)"

definition into_string :: "(string \<Rightarrow> 'r \<Rightarrow> 'r) \<Rightarrow> json \<Rightarrow> 'r \<Rightarrow> 'r option" where
  "into_string upd v r = (case v of JStr s \<Rightarrow> Some (upd s r) | JNull \<Rightarrow> Some r | _ \<Rightarrow> None)"

text \<open>\<open>int\<close> and \<open>int64\<close> fields take integer literals in range.\<close>

definition into_int :: "(int \<Rightarrow> 'r \<Rightarrow> 'r) \<Rightarrow> json \<Rightarrow> 'r \<Rightarrow> 'r option" where
  "into_int upd v r =
     (case v of JNum n \<Rightarrow> (if in_int64 n then Some (upd n r) else None) | JNull \<Rightarrow> Some r | _ \<Rightarrow> None)"

text \<open>A slice is decoded element by element from the zero value; \<open>null\<close> makes it nil.\<close>

fun decode_list :: "(json \<Rightarrow> 'a option) \<Rightarrow> json list \<Rightarrow> 'a list option" where
  "decode_list d [] = Some []"
| "decode_list d (v # vs) = Option.bind (d v) (\<lambda>x. map_option (Cons x) (decode_list d vs))"

definition into_slice :: "('a list \<Rightarrow> 'r \<Rightarrow> 'r) \<Rightarrow> (json \<Rightarrow> 'a option) \<Rightarrow> json \<Rightarrow> 'r \<Rightarrow> 'r option" where
  "into_slice upd d v r =
     (case v of JArr vs \<Rightarrow> map_option (\<lambda>xs. upd xs r) (decode_list d vs) | JNull \<Rightarrow> Some (upd [] r) | _ \<Rightarrow> None)"

lemma into_simps [simp]:
  "into_string f (JStr s) r = Some (f s r)"
  "in_int64 n \<Longrightarrow> into_int g (JNum n) r = Some (g n r)"
  "into_slice h d (JArr vs) r = map_option (\<lambda>xs. h xs r) (decode_list d vs)"
  by (simp_all add: into_string_def into_int_def into_slice_def)

lemma decode_list_map:
  "(\<And>x. x \<in> set xs \<Longrightarrow> d (f x) = Some (g x)) \<Longrightarrow> decode_list d (map f xs) = Some (map g xs)"
  by (induction xs) auto

lemma wf_json_arr: "wf_json (JArr xs) \<longleftrightarrow> (\<forall>x\<in>set xs. wf_json x)"
  by (induction xs) auto

lemma wf_members_append: "wf_members (xs @ ys) \<longleftrightarrow> wf_members xs \<and> wf_members ys"
  by (induction xs) auto

end
