(* ===== verification/Go_Paths.thy ===== *)
theory Go_Paths
  imports Go_Strings
begin

text \<open>
  Go's \<open>path/filepath\<close> on Unix: \<open>Clean\<close>, \<open>Join\<close>, \<open>Dir\<close>, \<open>Abs\<close>, and the component lists the file
  system model uses as keys. \<open>Clean\<close> is the lexical processing its documentation gives: empty and
  \<open>.\<close> elements are dropped, \<open>..\<close> removes the element before it, and \<open>..\<close> at the root is dropped.
\<close>

abbreviation slash :: char where "slash \<equiv> CHR ''/''"

subsection \<open>Component lists\<close>

text \<open>\<open>clean_comps rooted stack rest\<close>: \<open>stack\<close> holds the elements kept so far, last first.\<close>

fun clean_comps :: "bool \<Rightarrow> string list \<Rightarrow> string list \<Rightarrow> string list" where
  "clean_comps r st [] = rev st"
| "clean_comps r st (c # cs) =
     (if c = [] \<or> c = ''.'' then clean_comps r st cs
      else if c = ''..'' then
        (case st of
           [] \<Rightarrow> clean_comps r (if r then [] else [''..'']) cs
         | t # ts \<Rightarrow> clean_comps r (if t = ''..'' then ''..'' # st else ts) cs)
      else clean_comps r (c # st) cs)"

definition plain :: "string \<Rightarrow> bool" where
  "plain c \<longleftrightarrow> c \<noteq> [] \<and> c \<noteq> ''.'' \<and> c \<noteq> ''..'' \<and> slash \<notin> set c"

text \<open>What \<open>Clean\<close> leaves of a rooted path: plain names only.\<close>

abbreviation plains :: "string list \<Rightarrow> bool" where
  "plains cs \<equiv> list_all plain cs"

lemma clean_comps_append:
  "clean_comps r st (xs @ ys) = clean_comps r (rev (clean_comps r st xs)) ys"
  by (induction r st xs rule: clean_comps.induct) (auto split: list.splits)

lemma clean_comps_plains: "plains cs \<Longrightarrow> clean_comps r st cs = rev st @ cs"
  by (induction cs arbitrary: st) (auto simp: plain_def)

lemma plains_clean_comps:
  "plains st \<Longrightarrow> \<forall>c\<in>set cs. slash \<notin> set c \<Longrightarrow> plains (clean_comps True st cs)"
proof (induction cs arbitrary: st)
  case Nil
  then show ?case by simp
next
  case (Cons c cs)
  then have rec: "plains st' \<Longrightarrow> plains (clean_comps True st' cs)" for st' by simp
  consider "c = [] \<or> c = ''.''" | "c = ''..''" | "plain c"
    using Cons.prems by (auto simp: plain_def)
  then show ?case
  proof cases
    case 1
    with rec Cons.prems show ?thesis by auto
  next
    case 2
    have "\<not> plain ''..''" by (simp add: plain_def)
    with 2 rec Cons.prems show ?thesis by (cases st) auto
  next
    case 3
    then have "c \<noteq> []" and "c \<noteq> ''.''" and "c \<noteq> ''..''" by (auto simp: plain_def)
    with 3 rec [of "c # st"] Cons.prems show ?thesis by simp
  qed
qed

subsection \<open>Clean\<close>

definition IsAbs :: "string \<Rightarrow> bool" where
  "IsAbs p = prefix [slash] p"

definition Clean :: "string \<Rightarrow> string" where
  "Clean p =
     (if p = [] then ''.''
      else let cs = clean_comps (IsAbs p) [] (split_on slash p)
           in if IsAbs p then slash # join [slash] cs
              else if cs = [] then ''.'' else join [slash] cs)"

text \<open>The canonical absolute path with the given components, and the components of any path.\<close>

definition abs_path :: "string list \<Rightarrow> string" where
  "abs_path cs = slash # join [slash] cs"

definition comps :: "string \<Rightarrow> string list" where
  "comps p = clean_comps True [] (split_on slash p)"

lemma plains_comps [simp]: "plains (comps p)"
  by (auto simp: comps_def intro!: plains_clean_comps dest: split_on_no_sep)

lemma split_abs_path:
  "plains cs \<Longrightarrow> split_on slash (abs_path cs) = [] # (if cs = [] then [[]] else cs)"
  by (auto simp: abs_path_def plain_def list_all_iff intro!: split_join)

lemma comps_abs_path [simp]: "plains cs \<Longrightarrow> comps (abs_path cs) = cs"
  by (simp add: comps_def split_abs_path clean_comps_plains)

lemma Clean_abs: "IsAbs p \<Longrightarrow> Clean p = abs_path (comps p)"
  by (auto simp: Clean_def comps_def abs_path_def Let_def IsAbs_def)

lemma IsAbs_abs_path [simp]: "IsAbs (abs_path cs)"
  by (simp add: IsAbs_def abs_path_def)

lemma Clean_abs_path [simp]: "plains cs \<Longrightarrow> Clean (abs_path cs) = abs_path cs"
  by (simp add: Clean_abs)

lemma abs_path_inj: "plains xs \<Longrightarrow> plains ys \<Longrightarrow> abs_path xs = abs_path ys \<longleftrightarrow> xs = ys"
  by (metis comps_abs_path)

lemma Clean_idem_abs: "IsAbs p \<Longrightarrow> Clean (Clean p) = Clean p"
  by (simp add: Clean_abs)

subsection \<open>Join, Dir and Abs\<close>

definition pathJoin :: "string list \<Rightarrow> string" where
  "pathJoin xs = (let ys = dropWhile (\<lambda>e. e = []) xs in if ys = [] then [] else Clean (join [slash] ys))"

definition Dir :: "string \<Rightarrow> string" where
  "Dir p = Clean (rev (dropWhile (\<lambda>c. c \<noteq> slash) (rev p)))"

text \<open>\<open>filepath.Abs\<close>; \<open>wd\<close> is the result of \<open>os.Getwd\<close>, \<open>None\<close> when it fails.\<close>

definition Abs :: "string option \<Rightarrow> string \<Rightarrow> string option" where
  "Abs wd p = (if IsAbs p then Some (Clean p)
               else (case wd of None \<Rightarrow> None | Some w \<Rightarrow> Some (pathJoin [w, p])))"

lemma split_on_concat:
  "split_on c (s @ c # t) = split_on c s @ split_on c t"
  by (induction s) (auto split: list.splits)

lemma comps_join_Cons:
  "comps (s @ slash # join [slash] xs) = clean_comps True (rev (comps s)) (split_on slash (join [slash] xs))"
  by (simp add: comps_def split_on_concat clean_comps_append)

lemma comps_append_plain:
  assumes "plains xs"
  shows "comps (s @ slash # join [slash] xs) = comps s @ xs"
proof (cases "xs = []")
  case True
  then show ?thesis by (simp add: comps_def split_on_concat clean_comps_append)
next
  case False
  with assms have "split_on slash (join [slash] xs) = xs"
    by (auto simp: plain_def list_all_iff intro!: split_join)
  with assms show ?thesis by (simp add: comps_join_Cons clean_comps_plains)
qed

text \<open>Joining plain names to an absolute path appends them to its components.\<close>

lemma pathJoin_abs:
  assumes "IsAbs p" and "plains xs"
  shows "pathJoin (p # xs) = abs_path (comps p @ xs)"
proof (cases "xs = []")
  case True
  with assms(1) show ?thesis
    by (auto simp: pathJoin_def Clean_abs IsAbs_def)
next
  case False
  from assms(1) have ne: "p \<noteq> []" by (auto simp: IsAbs_def)
  with False have "pathJoin (p # xs) = Clean (p @ slash # join [slash] xs)"
    by (simp add: pathJoin_def join_Cons)
  also have "\<dots> = abs_path (comps (p @ slash # join [slash] xs))"
    using assms(1) by (intro Clean_abs) (auto simp: IsAbs_def prefix_def)
  finally show ?thesis using assms(2) by (simp add: comps_append_plain)
qed

lemma pathJoin_abs_path [simp]:
  "plains cs \<Longrightarrow> plains xs \<Longrightarrow> pathJoin (abs_path cs # xs) = abs_path (cs @ xs)"
  by (simp add: pathJoin_abs)

lemma Dir_abs_path:
  assumes "plains cs"
  shows "Dir (abs_path cs) = abs_path (butlast cs)"
proof (cases cs rule: rev_cases)
  case Nil
  then show ?thesis by (simp add: Dir_def abs_path_def Clean_def IsAbs_def)
next
  case (snoc ds d)
  with assms have d: "slash \<notin> set d" and ds: "plains ds" by (auto simp: plain_def)
  have e: "abs_path cs = (if ds = [] then [] else abs_path ds) @ slash # d"
    using snoc by (auto simp: abs_path_def join_append)
  have dw: "dropWhile (\<lambda>c. c \<noteq> slash) (rev d @ slash # t) = slash # t" for t
    using d by (induction d rule: rev_induct) auto
  have "rev (dropWhile (\<lambda>c. c \<noteq> slash) (rev (abs_path cs)))
      = (if ds = [] then [] else abs_path ds) @ [slash]"
    unfolding e using dw by auto
  moreover have "Clean ((if ds = [] then [] else abs_path ds) @ [slash]) = abs_path ds"
  proof (cases "ds = []")
    case True
    then show ?thesis by (simp add: Clean_abs IsAbs_def comps_def)
  next
    case False
    have "IsAbs (abs_path ds @ [slash])" by (simp add: IsAbs_def abs_path_def)
    moreover have "comps (abs_path ds @ [slash]) = ds"
      using comps_append_plain [of "[]" "abs_path ds"] ds by simp
    ultimately show ?thesis using False by (simp add: Clean_abs)
  qed
  ultimately show ?thesis using snoc by (simp add: Dir_def)
qed

lemma length_abs_path_butlast:
  assumes "cs \<noteq> []" and "plains cs"
  shows "length (abs_path (butlast cs)) < length (abs_path cs)"
proof (cases cs rule: rev_cases)
  case (snoc ds d)
  with assms have "d \<noteq> []" by (auto simp: plain_def)
  with snoc show ?thesis by (cases "ds = []") (auto simp: abs_path_def join_append)
qed (use assms in simp)

lemma Abs_abs: "Abs wd p = Some q \<Longrightarrow> (\<And>w. wd = Some w \<Longrightarrow> IsAbs w) \<Longrightarrow> \<exists>cs. plains cs \<and> q = abs_path cs"
proof -
  assume q: "Abs wd p = Some q" and w: "\<And>w. wd = Some w \<Longrightarrow> IsAbs w"
  show ?thesis
  proof (cases "IsAbs p")
    case True
    with q show ?thesis by (auto simp: Abs_def Clean_abs intro!: exI [of _ "comps p"])
  next
    case False
    with q obtain d where d: "wd = Some d" and qd: "q = pathJoin [d, p]"
      by (auto simp: Abs_def split: option.splits)
    from w [OF d] have "d \<noteq> []" and "IsAbs (d @ slash # p)" by (auto simp: IsAbs_def)
    with qd have "q = abs_path (comps (d @ slash # p))"
      by (simp add: pathJoin_def Clean_abs)
    then show ?thesis by (auto intro!: exI [of _ "comps (d @ slash # p)"])
  qed
qed

end
