(* ===== verification/Go_FS.thy ===== *)
theory Go_FS
  imports Go_Paths
begin

text \<open>
  The operating system as the program sees it: a file system keyed by component lists, the process
  environment, the clock, and a choice of which system calls fail. \<open>fails\<close> and \<open>torn\<close> are arbitrary,
  so a statement about a \<open>world\<close> covers every pattern of I/O errors. Symbolic links and permissions
  are not represented; a permission error is one of the failures.

  \<open>atomicReplace\<close> is the write-to-temp-then-rename routine the program repeats for each of its state
  files. The relation \<open>replace_step\<close> is the same routine one system call at a time, with failures
  chosen freely: its reachable states are the states a crash can leave behind.
\<close>

subsection \<open>World\<close>

datatype node = DirN | FileN string

type_synonym key = "string list"
type_synonym fs = "key \<rightharpoonup> node"

datatype syscall =
    SRead key | SMkdirAll key | SCreateTemp key | SWrite key | SClose key
  | SRename key key | SRemove key | SStat key | SRemoveAll key | SMkdir key | SReadDir key | SChdir key

text \<open>
  The result of a git command: its output, or the exit code if it ran and exited, the text of the \<open>exec\<close>
  error, and its output. A \<open>git_call\<close> is the directory, the arguments and the result.
\<close>

datatype git_result = GitOK string | GitErr "int option" string string

type_synonym git_call = "string \<times> string list \<times> git_result"

record world =
  files :: fs
  getwd :: "string option"        \<comment> \<open>os.Getwd, None on failure\<close>
  kra_home_env :: string          \<comment> \<open>os.Getenv("KRA_HOME")\<close>
  user_home :: "string option"    \<comment> \<open>os.UserHomeDir\<close>
  clock :: int                    \<comment> \<open>time.Now().Unix()\<close>
  rand :: nat                     \<comment> \<open>the random part of the next temporary name\<close>
  fails :: "syscall \<Rightarrow> bool"
  torn :: string                  \<comment> \<open>what a failed write leaves in the file\<close>
  lost :: "key \<Rightarrow> bool"           \<comment> \<open>what a failed os.RemoveAll has removed already\<close>
  calls :: "git_call list"        \<comment> \<open>the git commands run so far\<close>
  cmux_calls :: "string list list" \<comment> \<open>the cmux commands run so far\<close>

datatype read_error = NotExist | ReadFailed

text \<open>A missing entry below a regular file is \<open>ENOTDIR\<close>, which is not \<open>os.ErrNotExist\<close>.\<close>

definition below_file :: "fs \<Rightarrow> key \<Rightarrow> bool" where
  "below_file F k = list_ex (\<lambda>p. case F p of Some (FileN _) \<Rightarrow> True | _ \<Rightarrow> False) (butlast (prefixes k))"

definition ReadFile :: "world \<Rightarrow> string \<Rightarrow> read_error + string" where
  "ReadFile w p =
     (let k = comps p
      in if fails w (SRead k) then Inl ReadFailed
         else case files w k of
                Some (FileN b) \<Rightarrow> Inr b
              | Some DirN \<Rightarrow> Inl ReadFailed
              | None \<Rightarrow> if below_file (files w) k then Inl ReadFailed else Inl NotExist)"

definition isDir :: "world \<Rightarrow> string \<Rightarrow> bool" where
  "isDir w p \<longleftrightarrow> \<not> fails w (SStat (comps p)) \<and> files w (comps p) = Some DirN"

subsection \<open>System calls that change files\<close>

definition mkdirs :: "fs \<Rightarrow> key \<Rightarrow> fs" where
  "mkdirs F k = (\<lambda>p. if prefix p k \<and> F p = None then Some DirN else F p)"

definition MkdirAll :: "key \<Rightarrow> world \<Rightarrow> bool \<times> world" where
  "MkdirAll k w =
     (if fails w (SMkdirAll k) \<or> below_file (files w) (k @ [[]]) then (False, w)
      else (True, w\<lparr>files := mkdirs (files w) k\<rparr>))"

text \<open>
  \<open>os.CreateTemp(dir, pre*suf)\<close> creates a new file exclusively; an existing file with the name is an
  error (Go retries with other names first and then gives up the same way).
\<close>

definition tempKey :: "key \<Rightarrow> string \<Rightarrow> string \<Rightarrow> nat \<Rightarrow> key" where
  "tempKey d pre suf n = d @ [pre @ nat_digits n @ suf]"

definition CreateTemp :: "key \<Rightarrow> string \<Rightarrow> string \<Rightarrow> world \<Rightarrow> (key \<times> world) option" where
  "CreateTemp d pre suf w =
     (let k = tempKey d pre suf (rand w)
      in if fails w (SCreateTemp k) \<or> files w d \<noteq> Some DirN \<or> files w k \<noteq> None then None
         else Some (k, w\<lparr>files := (files w)(k \<mapsto> FileN [])\<rparr>))"

definition WriteTo :: "key \<Rightarrow> string \<Rightarrow> world \<Rightarrow> bool \<times> world" where
  "WriteTo k b w =
     (if fails w (SWrite k) then (False, w\<lparr>files := (files w)(k \<mapsto> FileN (torn w))\<rparr>)
      else (True, w\<lparr>files := (files w)(k \<mapsto> FileN b)\<rparr>))"

definition Remove :: "key \<Rightarrow> world \<Rightarrow> world" where
  "Remove k w = (if fails w (SRemove k) then w else w\<lparr>files := (files w)(k := None)\<rparr>)"

text \<open>\<open>os.Rename\<close> of a regular file.\<close>

definition RenameFile :: "key \<Rightarrow> key \<Rightarrow> world \<Rightarrow> bool \<times> world" where
  "RenameFile src dst w =
     (if fails w (SRename src dst) \<or> files w dst = Some DirN \<or> files w (butlast dst) \<noteq> Some DirN
      then (False, w)
      else (True, w\<lparr>files := (files w)(dst := files w src, src := None)\<rparr>))"

subsection \<open>Replacing a file atomically\<close>

datatype replace_error = MkdirErr | CreateErr | WriteErr | CloseErr | RenameErr

text \<open>From the created temporary on: write, close and rename, removing the temporary on failure.\<close>

definition writeAndSwap :: "key \<Rightarrow> key \<Rightarrow> string \<Rightarrow> world \<Rightarrow> replace_error option \<times> world" where
  "writeAndSwap tmp target b w =
     (let (ok2, w2) = WriteTo tmp b w
      in if \<not> ok2 then (Some WriteErr, Remove tmp w2)
         else if fails w2 (SClose tmp) then (Some CloseErr, Remove tmp w2)
         else (let (ok3, w3) = RenameFile tmp target w2
               in if \<not> ok3 then (Some RenameErr, Remove tmp w3) else (None, w3)))"

definition atomicReplace ::
    "bool \<Rightarrow> string \<Rightarrow> string \<Rightarrow> key \<Rightarrow> key \<Rightarrow> string \<Rightarrow> world \<Rightarrow> replace_error option \<times> world" where
  "atomicReplace mk pre suf d target b w =
     (let (ok0, w0) = (if mk then MkdirAll d w else (True, w))
      in if \<not> ok0 then (Some MkdirErr, w0)
         else case CreateTemp d pre suf w0 of
           None \<Rightarrow> (Some CreateErr, w0)
         | Some (tmp, w1) \<Rightarrow> writeAndSwap tmp target b w1)"

lemmas syscall_defs = MkdirAll_def CreateTemp_def WriteTo_def RenameFile_def Remove_def writeAndSwap_def

lemma mkdirs_other: "F p \<noteq> None \<Longrightarrow> mkdirs F k p = F p"
  by (simp add: mkdirs_def)

lemma mkdirs_self: "mkdirs F k k = (if F k = None then Some DirN else F k)"
  by (simp add: mkdirs_def)

text \<open>The environment is not changed by any of the calls.\<close>

lemma atomicReplace_env:
  assumes "atomicReplace mk pre suf d target b w = (r, w')"
  shows "fails w' = fails w" "getwd w' = getwd w" "kra_home_env w' = kra_home_env w"
    "user_home w' = user_home w" "clock w' = clock w" "rand w' = rand w" "torn w' = torn w"
    "lost w' = lost w" "calls w' = calls w" "cmux_calls w' = cmux_calls w"
  using assms
  by (auto simp: atomicReplace_def syscall_defs Let_def split: if_splits option.splits)

lemma mkdirs_file: "mkdirs F k p = Some (FileN b) \<longleftrightarrow> F p = Some (FileN b)"
  by (auto simp: mkdirs_def)

text \<open>On failure the target is as it was; on success it holds exactly the new bytes.\<close>

lemma atomicReplace_target:
  assumes "atomicReplace mk pre suf d target b w = (r, w')"
    and "target = d @ [name]" and "tempKey d pre suf (rand w) \<noteq> target"
  shows "files w' target = (case r of None \<Rightarrow> Some (FileN b) | Some _ \<Rightarrow> files w target)"
proof -
  have "mkdirs F d (d @ [name]) = F (d @ [name])" for F
    by (auto simp: mkdirs_def prefix_def)
  with assms show ?thesis
    by (auto simp: atomicReplace_def syscall_defs Let_def split: if_splits option.splits)
qed

text \<open>Every other regular file is kept, and no new one appears except a temporary that could not be removed.\<close>

lemma atomicReplace_frame:
  assumes "atomicReplace mk pre suf d target b w = (r, w')"
    and "k \<noteq> target" and "k \<noteq> tempKey d pre suf (rand w)"
  shows "files w' k = Some (FileN c) \<longleftrightarrow> files w k = Some (FileN c)"
  using assms
  by (auto simp: atomicReplace_def syscall_defs Let_def mkdirs_file split: if_splits option.splits)

text \<open>No directory disappears.\<close>

lemma writeAndSwap_dirs:
  assumes "writeAndSwap tmp target b w = (r, w')" and "files w k = Some DirN" and "k \<noteq> tmp"
  shows "files w' k = Some DirN"
  using assms
  by (auto simp: writeAndSwap_def WriteTo_def RenameFile_def Remove_def Let_def split: if_splits)

lemma atomicReplace_dirs:
  assumes "atomicReplace mk pre suf d target b w = (r, w')" and "files w k = Some DirN"
  shows "files w' k = Some DirN"
proof -
  obtain ok0 w0 where w0: "(if mk then MkdirAll d w else (True, w)) = (ok0, w0)" by fastforce
  with assms(2) have d0: "files w0 k = Some DirN"
    by (auto simp: MkdirAll_def mkdirs_def split: if_splits)
  show ?thesis
  proof (cases "\<not> ok0 \<or> CreateTemp d pre suf w0 = None")
    case True
    then have "w' = w0" using assms(1) w0 by (cases ok0) (auto simp: atomicReplace_def)
    with d0 show ?thesis by simp
  next
    case False
    then obtain t w1 where c: "CreateTemp d pre suf w0 = Some (t, w1)" by auto
    with d0 have "files w1 k = Some DirN" "k \<noteq> t"
      by (auto simp: CreateTemp_def Let_def split: if_splits)
    moreover have "writeAndSwap t target b w1 = (r, w')"
      using False c assms(1) w0 by (auto simp: atomicReplace_def)
    ultimately show ?thesis using writeAndSwap_dirs by blast
  qed
qed

lemma atomicReplace_no_temp:
  assumes "atomicReplace mk pre suf d target b w = (r, w')"
    and "\<not> fails w (SRemove (tempKey d pre suf (rand w)))"
    and "files w (tempKey d pre suf (rand w)) = None"
    and "tempKey d pre suf (rand w) \<noteq> target"
  shows "files w' (tempKey d pre suf (rand w)) = None"
proof -
  have "mkdirs F d (tempKey d pre suf n) = F (tempKey d pre suf n)" for F n
    by (auto simp: mkdirs_def prefix_def tempKey_def)
  with assms show ?thesis
    by (auto simp: atomicReplace_def syscall_defs Let_def split: if_splits option.splits)
qed

text \<open>Without faults, and where the directory can be made, the replacement succeeds.\<close>

lemma atomicReplace_succeeds:
  assumes "\<forall>c. \<not> fails w c" and "target = d @ [name]"
    and "\<not> below_file (files w) (d @ [[]])" and "files w target \<noteq> Some DirN"
    and "files w (tempKey d pre suf (rand w)) = None"
    and "mk \<or> files w d = Some DirN"
    and "tempKey d pre suf (rand w) \<noteq> target"
  shows "fst (atomicReplace mk pre suf d target b w) = None"
proof -
  have d: "files w d = None \<or> files w d = Some DirN"
  proof (cases "files w d")
    case (Some n)
    have "d \<in> set (prefixes d)" by simp
    with assms(3) Some show ?thesis
      by (cases n) (fastforce simp: below_file_def list_ex_iff split: option.splits node.splits)+
  qed simp
  have "mkdirs F d (d @ [x]) = F (d @ [x])" for F x
    by (auto simp: mkdirs_def prefix_def)
  moreover have "mkdirs (files w) d d = Some DirN" using d by (auto simp: mkdirs_def)
  moreover have "tempKey d pre suf n = d @ [pre @ nat_digits n @ suf]" for n
    by (simp add: tempKey_def)
  moreover have "\<And>x. d @ [x] \<noteq> d" by simp
  ultimately show ?thesis
    using assms
    by (auto simp: atomicReplace_def syscall_defs Let_def split: if_splits option.splits)
qed

subsection \<open>The replacement as a state machine\<close>

datatype pc = PMkdir | PCreate | PWrite | PClose | PRename | PCleanup | PDone bool

inductive replace_step :: "key \<Rightarrow> key \<Rightarrow> key \<Rightarrow> string \<Rightarrow> pc \<times> fs \<Rightarrow> pc \<times> fs \<Rightarrow> bool"
  for d tmp target b where
  mkdir: "replace_step d tmp target b (PMkdir, F) (PCreate, mkdirs F d)"
| mkdir_fail: "replace_step d tmp target b (PMkdir, F) (PDone False, F)"
| create: "F d = Some DirN \<Longrightarrow> F tmp = None \<Longrightarrow>
    replace_step d tmp target b (PCreate, F) (PWrite, F(tmp \<mapsto> FileN []))"
| create_fail: "replace_step d tmp target b (PCreate, F) (PDone False, F)"
| write_some: "replace_step d tmp target b (PWrite, F) (PWrite, F(tmp \<mapsto> FileN c))"
| write_all: "replace_step d tmp target b (PWrite, F) (PClose, F(tmp \<mapsto> FileN b))"
| write_fail: "replace_step d tmp target b (PWrite, F) (PCleanup, F(tmp \<mapsto> FileN c))"
| close: "replace_step d tmp target b (PClose, F) (PRename, F)"
| close_fail: "replace_step d tmp target b (PClose, F) (PCleanup, F)"
| rename: "F target \<noteq> Some DirN \<Longrightarrow> F (butlast target) = Some DirN \<Longrightarrow>
    replace_step d tmp target b (PRename, F) (PDone True, F(target := F tmp, tmp := None))"
| rename_fail: "replace_step d tmp target b (PRename, F) (PCleanup, F)"
| cleanup: "replace_step d tmp target b (PCleanup, F) (PDone False, F(tmp := None))"
| cleanup_fail: "replace_step d tmp target b (PCleanup, F) (PDone False, F)"

inductive_cases replace_stepE: "replace_step d tmp target b s t"

text \<open>What holds between the system calls: the target is untouched until the rename, and the file
  renamed over it is complete.\<close>

definition replace_inv :: "key \<Rightarrow> key \<Rightarrow> string \<Rightarrow> fs \<Rightarrow> pc \<times> fs \<Rightarrow> bool" where
  "replace_inv tmp target b F0 s =
     (case s of (pc, F) \<Rightarrow>
        (if pc = PDone True then F target = Some (FileN b) else F target = F0 target) \<and>
        (pc = PClose \<or> pc = PRename \<longrightarrow> F tmp = Some (FileN b)))"

lemma replace_step_inv:
  assumes "replace_step d tmp target b s t" and "replace_inv tmp target b F0 s"
    and "tmp \<noteq> target" and "\<not> prefix target d"
  shows "replace_inv tmp target b F0 t"
  using assms by (elim replace_stepE) (auto simp: replace_inv_def mkdirs_def)

lemma replace_reach_inv:
  assumes "(replace_step d tmp target b)\<^sup>*\<^sup>* (PMkdir, F0) s"
    and "tmp \<noteq> target" and "\<not> prefix target d"
  shows "replace_inv tmp target b F0 s"
  using assms(1)
proof (induction rule: rtranclp_induct)
  case base
  show ?case by (simp add: replace_inv_def)
next
  case (step s t)
  then show ?case using replace_step_inv assms(2,3) by blast
qed

text \<open>\<open>atomicReplace\<close> is a run of the machine: its result and final files are reachable.\<close>

lemmas replace_steps = replace_step.intros
  [THEN converse_rtranclp_into_rtranclp [where r = "replace_step d tmp target b"]] for d tmp target b

lemma run_cleanup:
  "(replace_step d tmp target b)\<^sup>*\<^sup>* (PCleanup, files w) (PDone False, files (Remove tmp w))"
  by (cases "fails w (SRemove tmp)") (auto simp: Remove_def intro: replace_step.cleanup replace_step.cleanup_fail)

lemma run_rename:
  assumes "RenameFile tmp target w = (ok, w')"
  shows "if ok then replace_step d tmp target b (PRename, files w) (PDone True, files w') else w' = w"
  using assms by (auto simp: RenameFile_def split: if_splits intro: replace_step.rename)

lemma run_swap:
  assumes "writeAndSwap tmp target b w = (r, w')"
  shows "(replace_step d tmp target b)\<^sup>*\<^sup>* (PWrite, files w) (PDone (r = None), files w')"
proof (cases "fails w (SWrite tmp)")
  case True
  let ?w2 = "w\<lparr>files := (files w)(tmp \<mapsto> FileN (torn w))\<rparr>"
  from True assms have "r = Some WriteErr" "w' = Remove tmp ?w2"
    by (auto simp: writeAndSwap_def WriteTo_def)
  then show ?thesis
    using run_cleanup [of d tmp target b ?w2] by (auto intro: replace_steps(7))
next
  case False
  let ?w2 = "w\<lparr>files := (files w)(tmp \<mapsto> FileN b)\<rparr>"
  obtain ok w3 where rn: "RenameFile tmp target ?w2 = (ok, w3)" by fastforce
  have res: "(r, w') = (if fails w (SClose tmp) then (Some CloseErr, Remove tmp ?w2)
      else if \<not> ok then (Some RenameErr, Remove tmp w3) else (None, w3))"
    using assms False rn by (auto simp: writeAndSwap_def WriteTo_def)
  have "(replace_step d tmp target b)\<^sup>*\<^sup>* (PClose, files ?w2) (PDone (r = None), files w')"
    using res run_cleanup [of d tmp target b ?w2] run_rename [OF rn, of d b]
    by (auto split: if_splits intro: replace_steps(8,9,11))
  then show ?thesis by (auto intro: replace_steps(6))
qed

lemma atomicReplace_run:
  assumes "atomicReplace True pre suf d target b w = (r, w')"
  shows "(replace_step d (tempKey d pre suf (rand w)) target b)\<^sup>*\<^sup>*
           (PMkdir, files w) (PDone (r = None), files w')"
proof (cases "fst (MkdirAll d w)")
  case False
  then have "r = Some MkdirErr" "w' = w"
    using assms by (auto simp: atomicReplace_def MkdirAll_def split: if_splits)
  then show ?thesis by (auto intro: replace_step.mkdir_fail)
next
  case True
  let ?t = "tempKey d pre suf (rand w)" and ?w0 = "w\<lparr>files := mkdirs (files w) d\<rparr>"
  let ?w1 = "?w0\<lparr>files := (files ?w0)(?t \<mapsto> FileN [])\<rparr>"
  have m: "MkdirAll d w = (True, ?w0)" using True by (auto simp: MkdirAll_def split: if_splits)
  have "(replace_step d ?t target b)\<^sup>*\<^sup>* (PCreate, files ?w0) (PDone (r = None), files w')"
  proof (cases "CreateTemp d pre suf ?w0")
    case None
    then have "r = Some CreateErr" "w' = ?w0" using assms m by (auto simp: atomicReplace_def)
    then show ?thesis by (auto intro: replace_step.create_fail)
  next
    case (Some p)
    then have "p = (?t, ?w1)" and d: "files ?w0 d = Some DirN" and t: "files ?w0 ?t = None"
      by (auto simp: CreateTemp_def Let_def split: if_splits)
    with assms m Some have "writeAndSwap ?t target b ?w1 = (r, w')" by (auto simp: atomicReplace_def)
    from run_swap [OF this, of d] d t show ?thesis by (auto intro: replace_steps(3))
  qed
  then show ?thesis by (auto intro: replace_steps(1))
qed

subsection \<open>The contract of an atomically replaced file\<close>

text \<open>
  What the code that loads and stores a state file relies on: storing either leaves exactly the new
  bytes or leaves the file alone, and changes nothing else a later read depends on.
\<close>

locale atomic_file =
  fixes put :: "string \<Rightarrow> world \<Rightarrow> replace_error option \<times> world" and k :: key
  assumes put_target: "put b w = (r, w') \<Longrightarrow>
      files w' k = (case r of None \<Rightarrow> Some (FileN b) | Some _ \<Rightarrow> files w k)"
    and put_fails: "put b w = (r, w') \<Longrightarrow> fails w' = fails w"
begin

lemma read_after_put:
  assumes "put b w = (None, w')" and "comps p = k" and "\<not> fails w (SRead k)"
  shows "ReadFile w' p = Inr b"
  using assms put_target [OF assms(1)] put_fails [OF assms(1)] by (simp add: ReadFile_def)

lemma read_after_failed_put:
  assumes "put b w = (Some e, w')" and "comps p = k" and "files w k \<noteq> None"
  shows "ReadFile w' p = ReadFile w p"
  using assms put_target [OF assms(1)] put_fails [OF assms(1)]
  by (auto simp: ReadFile_def split: option.splits)

text \<open>Two stores in a row: the later one decides.\<close>

lemma put_twice:
  assumes "put b w = (None, w1)" and "put c w1 = (r, w2)"
  shows "files w2 k = Some (FileN (if r = None then c else b))"
  using put_target [OF assms(1)] put_target [OF assms(2)] by (auto split: option.splits)

end

lemma tempKey_neq:
  assumes "\<And>n. pre @ nat_digits n @ suf \<noteq> name"
  shows "tempKey d pre suf n \<noteq> d @ [name]"
  using assms [of n] by (simp add: tempKey_def)

lemma atomic_fileI:
  assumes "\<And>n. pre @ nat_digits n @ suf \<noteq> name"
  shows "atomic_file (atomicReplace mk pre suf d (d @ [name])) (d @ [name])"
proof
  fix b w r w'
  assume e: "atomicReplace mk pre suf d (d @ [name]) b w = (r, w')"
  show "files w' (d @ [name]) = (case r of None \<Rightarrow> Some (FileN b) | Some _ \<Rightarrow> files w (d @ [name]))"
    by (rule atomicReplace_target [OF e refl tempKey_neq [OF assms]])
  show "fails w' = fails w" by (rule atomicReplace_env(1) [OF e])
qed

subsection \<open>A small world\<close>

text \<open>A root \<open>/r\<close> and a home \<open>/h\<close>, without faults; the witnesses start from it.\<close>

definition demo_world :: world where
  "demo_world = \<lparr>files = [[] \<mapsto> DirN, [''h''] \<mapsto> DirN, [''r''] \<mapsto> DirN,
     [''r'', ''workspaces''] \<mapsto> DirN, [''r'', ''archive''] \<mapsto> DirN],
     getwd = Some ''/r'', kra_home_env = [], user_home = Some ''/h'', clock = 100, rand = 7,
     fails = (\<lambda>_. False), torn = [], lost = (\<lambda>_. False), calls = [], cmux_calls = []\<rparr>"

end
