(* ===== verification/Kra_Paths.thy ===== *)
theory Kra_Paths
  imports Go_FS
begin

text \<open>
  \<open>internal/paths/paths.go\<close>: the kra home, the paths of the global state files, root detection by
  walking up from a directory, and the current-context pointer file.
\<close>

datatype path_error =
    EmptyPath | AbsFailed | HomeDirFailed
  | ContextPathErr path_error | ContextReadErr | ContextFileEmpty | ContextRootErr path_error
  | ContextMissingDir string | NotARoot string | RootNotFound
  | StartDirErr path_error | ContextReplaceErr replace_error

subsection \<open>Locations\<close>

definition cleanAbs :: "world \<Rightarrow> string \<Rightarrow> path_error + string" where
  "cleanAbs w path =
     (let p = TrimSpace path
      in if p = [] then Inl EmptyPath
         else case Abs (getwd w) p of None \<Rightarrow> Inl AbsFailed | Some a \<Rightarrow> Inr (Clean a))"

definition KraHomeDir :: "world \<Rightarrow> path_error + string" where
  "KraHomeDir w =
     (let v = TrimSpace (kra_home_env w)
      in if v \<noteq> [] then cleanAbs w v
         else case user_home w of None \<Rightarrow> Inl HomeDirFailed | Some h \<Rightarrow> Inr (pathJoin [h, ''.kra'']))"

definition DefaultRepoPoolPath :: "world \<Rightarrow> path_error + string" where
  "DefaultRepoPoolPath w = bindR (KraHomeDir w) (\<lambda>home. Inr (pathJoin [home, ''repo-pool'']))"

definition RegistryPath :: "world \<Rightarrow> path_error + string" where
  "RegistryPath w = bindR (KraHomeDir w) (\<lambda>home. Inr (pathJoin [home, ''state'', ''root-registry.json'']))"

definition CurrentContextPath :: "world \<Rightarrow> path_error + string" where
  "CurrentContextPath w = bindR (KraHomeDir w) (\<lambda>home. Inr (pathJoin [home, ''state'', ''current-context'']))"

definition ConfigPath :: "world \<Rightarrow> path_error + string" where
  "ConfigPath w = bindR (KraHomeDir w) (\<lambda>home. Inr (pathJoin [home, ''config.yaml'']))"

definition RootConfigPath :: "string \<Rightarrow> string" where
  "RootConfigPath root = pathJoin [root, ''.kra'', ''config.yaml'']"

subsection \<open>Root detection\<close>

definition LooksLikeRoot :: "world \<Rightarrow> string \<Rightarrow> bool" where
  "LooksLikeRoot w dir \<longleftrightarrow>
     isDir w (pathJoin [dir, ''workspaces'']) \<and> isDir w (pathJoin [dir, ''archive''])"

text \<open>The \<open>for\<close> loop of \<open>FindRoot\<close>; \<open>None\<close> would be a loop that never returns.\<close>

partial_function (option) findRootLoop :: "world \<Rightarrow> string \<Rightarrow> (path_error + string) option" where
  "findRootLoop w dir =
     (if LooksLikeRoot w dir then Some (Inr dir)
      else if Dir dir = dir then Some (Inl RootNotFound)
      else findRootLoop w (Dir dir))"

definition FindRoot :: "world \<Rightarrow> string \<Rightarrow> (path_error + string) option" where
  "FindRoot w startDir =
     (case cleanAbs w startDir of
        Inl e \<Rightarrow> Some (Inl (StartDirErr e))
      | Inr start \<Rightarrow> findRootLoop w start)"

subsection \<open>The current context\<close>

definition ReadCurrentContext :: "world \<Rightarrow> path_error + string option" where
  "ReadCurrentContext w =
     (case CurrentContextPath w of
        Inl e \<Rightarrow> Inl (ContextPathErr e)
      | Inr contextPath \<Rightarrow>
          (case ReadFile w contextPath of
             Inl NotExist \<Rightarrow> Inr None
           | Inl ReadFailed \<Rightarrow> Inl ContextReadErr
           | Inr b \<Rightarrow>
               (let line = TrimSpace b
                in if line = [] then Inl ContextFileEmpty
                   else case cleanAbs w line of
                     Inl e \<Rightarrow> Inl (ContextRootErr e)
                   | Inr root \<Rightarrow> if \<not> isDir w root then Inl (ContextMissingDir root)
                                 else Inr (Some root))))"

definition WriteCurrentContext :: "string \<Rightarrow> world \<Rightarrow> path_error option \<times> world" where
  "WriteCurrentContext root0 w =
     (case cleanAbs w root0 of
        Inl e \<Rightarrow> (Some (ContextRootErr e), w)
      | Inr root \<Rightarrow>
          (case CurrentContextPath w of
             Inl e \<Rightarrow> (Some (ContextPathErr e), w)
           | Inr contextPath \<Rightarrow>
               (case atomicReplace True ''.current-context-'' ''.tmp'' (comps (Dir contextPath))
                       (comps contextPath) (root @ [CHR 0x0A]) w of
                  (r, w') \<Rightarrow> (map_option ContextReplaceErr r, w'))))"

definition ResolveExistingRoot :: "world \<Rightarrow> string \<Rightarrow> (path_error + string) option" where
  "ResolveExistingRoot w startDir =
     (case ReadCurrentContext w of
        Inl e \<Rightarrow> Some (Inl e)
      | Inr (Some contextRoot) \<Rightarrow>
          Some (if LooksLikeRoot w contextRoot then Inr contextRoot else Inl (NotARoot contextRoot))
      | Inr None \<Rightarrow> FindRoot w startDir)"

subsection \<open>Absolute results\<close>

text \<open>\<open>os.Getwd\<close> and \<open>os.UserHomeDir\<close> return absolute paths.\<close>

definition env_ok :: "world \<Rightarrow> bool" where
  "env_ok w \<longleftrightarrow> (case getwd w of None \<Rightarrow> True | Some d \<Rightarrow> IsAbs d)
     \<and> (case user_home w of None \<Rightarrow> True | Some h \<Rightarrow> IsAbs h)"

lemma cleanAbs_canonical:
  assumes "cleanAbs w p = Inr q" and "env_ok w"
  shows "q = abs_path (comps q)"
proof -
  from assms obtain a where a: "Abs (getwd w) (TrimSpace p) = Some a" and q: "q = Clean a"
    by (auto simp: cleanAbs_def Let_def split: if_splits option.splits)
  have "\<exists>cs. plains cs \<and> a = abs_path cs"
    by (rule Abs_abs [OF a]) (use assms(2) in \<open>auto simp: env_ok_def\<close>)
  with q show ?thesis by auto
qed

lemma KraHomeDir_canonical:
  assumes "KraHomeDir w = Inr h" and "env_ok w"
  shows "h = abs_path (comps h)"
proof (cases "TrimSpace (kra_home_env w) = []")
  case True
  with assms obtain d where "IsAbs d" "h = pathJoin [d, ''.kra'']"
    by (auto simp: KraHomeDir_def env_ok_def split: option.splits)
  moreover have "plains [''.kra'']" by (simp add: plain_def)
  ultimately show ?thesis by (simp add: pathJoin_abs)
next
  case False
  with assms show ?thesis by (auto simp: KraHomeDir_def Let_def intro: cleanAbs_canonical)
qed

lemma state_path_shape:
  assumes "bindR (KraHomeDir w) (\<lambda>home. Inr (pathJoin [home, ''state'', n])) = Inr p"
    and "env_ok w" and "plain n"
  shows "comps p = comps (Dir p) @ [n]"
proof -
  from assms(1) obtain h where h: "KraHomeDir w = Inr h" and p: "p = pathJoin [h, ''state'', n]"
    by (auto simp: bindR_Inr_iff)
  let ?d = "comps h @ [''state'']"
  have st: "plain ''state''" by (simp add: plain_def)
  have hp: "h = abs_path (comps h)" using KraHomeDir_canonical [OF h assms(2)] .
  have "pathJoin (abs_path (comps h) # [''state'', n]) = abs_path (comps h @ [''state'', n])"
    using assms(3) st by (intro pathJoin_abs_path) simp_all
  then have p': "p = abs_path (?d @ [n])" using p hp by simp
  have pl: "plains (?d @ [n])" using assms(3) st by simp
  then have "Dir p = abs_path ?d" unfolding p' by (simp only: Dir_abs_path butlast_snoc)
  moreover have "comps p = ?d @ [n]" unfolding p' using pl by (rule comps_abs_path)
  ultimately show ?thesis using st by simp
qed

subsection \<open>Walking up\<close>

text \<open>The ancestor of \<open>abs_path cs\<close> with \<open>k\<close> components, and what \<open>FindRoot\<close> promises of its answer.\<close>

definition nearest_root :: "world \<Rightarrow> string list \<Rightarrow> path_error + string \<Rightarrow> bool" where
  "nearest_root w cs r \<longleftrightarrow>
     (case r of
        Inr d \<Rightarrow> (\<exists>k\<le>length cs. d = abs_path (take k cs) \<and> LooksLikeRoot w d
                   \<and> (\<forall>j. k < j \<longrightarrow> j \<le> length cs \<longrightarrow> \<not> LooksLikeRoot w (abs_path (take j cs))))
      | Inl e \<Rightarrow> e = RootNotFound \<and> (\<forall>j\<le>length cs. \<not> LooksLikeRoot w (abs_path (take j cs))))"

lemma nearest_root_here: "LooksLikeRoot w (abs_path cs) \<Longrightarrow> nearest_root w cs (Inr (abs_path cs))"
  by (auto simp: nearest_root_def intro!: exI [of _ "length cs"])

lemma nearest_root_up:
  assumes "nearest_root w cs r" and "\<not> LooksLikeRoot w (abs_path (cs @ [c]))"
  shows "nearest_root w (cs @ [c]) r"
proof -
  have "take j (cs @ [c]) = (if j \<le> length cs then take j cs else cs @ [c])" for j
    by (auto simp: not_le)
  with assms show ?thesis
    by (fastforce simp: nearest_root_def le_Suc_eq split: sum.splits)
qed

lemma findRootLoop_total:
  "plains cs \<Longrightarrow> \<exists>r. findRootLoop w (abs_path cs) = Some r \<and> nearest_root w cs r"
proof (induction cs rule: rev_induct)
  case Nil
  then show ?case
    by (subst findRootLoop.simps) (auto simp: Dir_abs_path nearest_root_def)
next
  case (snoc c cs)
  show ?case
  proof (cases "LooksLikeRoot w (abs_path (cs @ [c]))")
    case True
    then show ?thesis by (subst findRootLoop.simps) (auto intro: nearest_root_here)
  next
    case False
    have up: "Dir (abs_path (cs @ [c])) = abs_path cs" using snoc.prems by (simp only: Dir_abs_path butlast_snoc)
    moreover have "abs_path cs \<noteq> abs_path (cs @ [c])" using snoc.prems by (simp add: abs_path_inj)
    ultimately have "findRootLoop w (abs_path (cs @ [c])) = findRootLoop w (abs_path cs)"
      using False by (subst findRootLoop.simps) simp
    with snoc False show ?thesis by (auto intro: nearest_root_up)
  qed
qed

subsection \<open>The pointer file\<close>

interpretation context_file: atomic_file
  "atomicReplace True ''.current-context-'' ''.tmp'' d (d @ [''current-context''])"
  "d @ [''current-context'']" for d
  by (rule atomic_fileI) simp

lemma leading_slash: "leading space_runes (slash # s) = None"
  by (simp add: leading_def space_runes_def)

lemma strip_newline: "strip (map rev space_runes) (CHR 0x0A # s) = strip (map rev space_runes) s"
  by (subst strip.simps) (simp add: leading_def space_runes_def)

lemma TrimSpace_abs_nl: "TrimSpace (abs_path cs @ [CHR 0x0A]) = TrimSpace (abs_path cs)"
proof -
  have "trimLeftSpace (abs_path cs @ t) = abs_path cs @ t" for t
    by (simp add: trimLeftSpace_def abs_path_def strip_id leading_slash)
  from this [of "[CHR 0x0A]"] this [of "[]"] show ?thesis
    by (simp add: TrimSpace_def trimRightSpace_def strip_newline)
qed

lemma CurrentContextPath_shape:
  assumes "CurrentContextPath w = Inr p" and "env_ok w"
  shows "comps p = comps (Dir p) @ [''current-context'']"
  using assms state_path_shape [of w "''current-context''" p]
  by (simp add: CurrentContextPath_def plain_def)

text \<open>The locations depend on the environment only, which no file operation changes.\<close>

lemma cleanAbs_env: "getwd w' = getwd w \<Longrightarrow> cleanAbs w' p = cleanAbs w p"
  unfolding cleanAbs_def by (erule ssubst) (rule refl)

lemma KraHomeDir_env:
  assumes "getwd w' = getwd w" "kra_home_env w' = kra_home_env w" "user_home w' = user_home w"
  shows "KraHomeDir w' = KraHomeDir w"
  unfolding KraHomeDir_def assms(2,3) cleanAbs_env [OF assms(1)] ..

lemmas location_defs = DefaultRepoPoolPath_def RegistryPath_def CurrentContextPath_def ConfigPath_def

subsection \<open>Properties\<close>

text \<open>
  C33: \<open>FindRoot\<close> returns for every start directory (its loop ends), and its answer is the nearest
  ancestor of the start that looks like a root, or the not-found error when no ancestor does.
\<close>

theorem FindRoot_nearest:
  assumes "env_ok w"
  shows "\<exists>r. FindRoot w startDir = Some r \<and>
    (case cleanAbs w startDir of
       Inl e \<Rightarrow> r = Inl (StartDirErr e)
     | Inr d \<Rightarrow> nearest_root w (comps d) r)"
proof (cases "cleanAbs w startDir")
  case (Inr d)
  then have "d = abs_path (comps d)" using assms by (rule cleanAbs_canonical)
  then show ?thesis
    using findRootLoop_total [OF plains_comps, of w d] Inr by (simp add: FindRoot_def)
qed (simp add: FindRoot_def)

theorem FindRoot_nearest_witness:
  "\<exists>r. FindRoot demo_world ''/r/a'' = Some r \<and> nearest_root demo_world [''r'', ''a''] r"
proof -
  have "env_ok demo_world" by code_simp
  moreover have "cleanAbs demo_world ''/r/a'' = Inr ''/r/a''" by code_simp
  moreover have "comps ''/r/a'' = [''r'', ''a'']" by code_simp
  ultimately show ?thesis using FindRoot_nearest [of demo_world "''/r/a''"] by simp
qed

text \<open>
  what \<open>WriteCurrentContext\<close> stores, \<open>ReadCurrentContext\<close> reads back: after a successful write
  of an existing directory the current context is its absolute, cleaned path. The path must not end
  in white space, which the reader trims (see \<open>context_trailing_space\<close>).
\<close>

theorem context_roundtrip:
  assumes "env_ok w" and "cleanAbs w root = Inr r" and "TrimSpace r = r"
    and "WriteCurrentContext root w = (None, w')"
    and "CurrentContextPath w = Inr p" and "\<not> fails w (SRead (comps p))" and "isDir w r"
  shows "ReadCurrentContext w' = Inr (Some r)"
proof -
  from assms(2,4,5) have put: "atomicReplace True ''.current-context-'' ''.tmp'' (comps (Dir p))
      (comps p) (r @ [CHR 0x0A]) w = (None, w')"
    by (auto simp: WriteCurrentContext_def split: prod.splits)
  have sh: "comps p = comps (Dir p) @ [''current-context'']"
    by (rule CurrentContextPath_shape [OF assms(5,1)])
  have env: "getwd w' = getwd w" "kra_home_env w' = kra_home_env w" "user_home w' = user_home w"
    "fails w' = fails w" using atomicReplace_env [OF put] by simp_all
  have rd: "ReadFile w' p = Inr (r @ [CHR 0x0A])"
    using put assms(6) by (subst (asm) sh) (rule context_file.read_after_put [OF _ sh], simp_all add: sh)
  have can: "r = abs_path (comps r)" by (rule cleanAbs_canonical [OF assms(2,1)])
  have line: "TrimSpace (r @ [CHR 0x0A]) = r"
    using TrimSpace_abs_nl [of "comps r"] assms(3) by (simp add: can [symmetric])
  have ne: "r \<noteq> []" by (subst can) (simp add: abs_path_def)
  have again: "cleanAbs w' r = Inr r"
    using ne can assms(3) plains_comps [of r] Clean_abs_path [of "comps r"] IsAbs_abs_path [of "comps r"]
    by (simp add: cleanAbs_def Abs_def)
  have "isDir w' r"
    using assms(7) env atomicReplace_dirs [OF put] by (simp add: isDir_def)
  moreover have "CurrentContextPath w' = Inr p"
    using assms(5) KraHomeDir_env [OF env(1-3)] by (simp add: CurrentContextPath_def)
  ultimately show ?thesis
    using rd line ne again by (simp add: ReadCurrentContext_def)
qed

theorem context_roundtrip_witness:
  "ReadCurrentContext (snd (WriteCurrentContext ''/r'' demo_world)) = Inr (Some ''/r'')"
proof (rule context_roundtrip)
  show "env_ok demo_world" by code_simp
  show "cleanAbs demo_world ''/r'' = Inr ''/r''" by code_simp
  show "TrimSpace ''/r'' = ''/r''" by code_simp
  have "fst (WriteCurrentContext ''/r'' demo_world) = None" by code_simp
  then show "WriteCurrentContext ''/r'' demo_world = (None, snd (WriteCurrentContext ''/r'' demo_world))"
    by (metis prod.collapse)
  show "CurrentContextPath demo_world = Inr ''/h/.kra/state/current-context''" by code_simp
  show "\<not> fails demo_world (SRead (comps ''/h/.kra/state/current-context''))"
    by (simp add: demo_world_def)
  show "isDir demo_world ''/r''" by code_simp
qed

text \<open>
  the trimming breaks the round trip for a directory whose name ends in a space: the pointer is
  written as \<open>/r/a\<close> followed by the space and read back without it, as another path.
\<close>

theorem context_trailing_space:
  "\<exists>w w'. env_ok w \<and> cleanAbs w ''/r/a /.'' = Inr ''/r/a '' \<and> isDir w ''/r/a ''
     \<and> WriteCurrentContext ''/r/a /.'' w = (None, w')
     \<and> ReadCurrentContext w' = Inl (ContextMissingDir ''/r/a'')"
proof -
  let ?w = "demo_world\<lparr>files := (files demo_world)([''r'', ''a ''] \<mapsto> DirN)\<rparr>"
  have "env_ok ?w" by code_simp
  moreover have "cleanAbs ?w ''/r/a /.'' = Inr ''/r/a ''" by code_simp
  moreover have "isDir ?w ''/r/a ''" by code_simp
  moreover have "fst (WriteCurrentContext ''/r/a /.'' ?w) = None" by code_simp
  moreover have "ReadCurrentContext (snd (WriteCurrentContext ''/r/a /.'' ?w)) = Inl (ContextMissingDir ''/r/a'')"
    by code_simp
  ultimately show ?thesis by (metis prod.collapse)
qed

text \<open>
  \<open>ResolveExistingRoot\<close> always returns, and a root it returns looks like a root, whether it comes
  from the context file or from the directory walk.
\<close>

theorem ResolveExistingRoot_sound:
  assumes "env_ok w"
  shows "\<exists>r. ResolveExistingRoot w startDir = Some r \<and> (\<forall>d. r = Inr d \<longrightarrow> LooksLikeRoot w d)"
proof -
  obtain r where r: "FindRoot w startDir = Some r" and
      n: "case cleanAbs w startDir of Inl e \<Rightarrow> r = Inl (StartDirErr e) | Inr d \<Rightarrow> nearest_root w (comps d) r"
    using findRootLoop_total [OF plains_comps] cleanAbs_canonical [OF _ assms]
    by (cases "cleanAbs w startDir") (auto simp: FindRoot_def, metis)
  from n have "LooksLikeRoot w d" if "r = Inr d" for d
    using that by (auto simp: nearest_root_def split: sum.splits)
  with r show ?thesis
    by (auto simp: ResolveExistingRoot_def split: sum.splits option.splits)
qed

theorem ResolveExistingRoot_sound_witness:
  "\<exists>r. ResolveExistingRoot demo_world ''/r/a'' = Some r \<and> (\<forall>d. r = Inr d \<longrightarrow> LooksLikeRoot demo_world d)"
proof (rule ResolveExistingRoot_sound)
  show "env_ok demo_world" by code_simp
qed

end
