(* ===== verification/State_Registry.thy ===== *)
theory State_Registry
  imports Go_Json Kra_Paths
begin

text \<open>
  \<open>internal/stateregistry/registry.go\<close>: the global registry of known roots and their context names,
  kept in one JSON file that every operation loads, changes and rewrites atomically.

  The operations are modelled on a \<open>world\<close>; the list transformation each performs is a definition of
  its own (\<open>touchEntries\<close>, \<open>setNameEntries\<close>, ...). \<open>registry_inv\<close> is what the operations keep of the
  list, \<open>reg_step\<close> is one operation under any faults, and the abstract view is the map \<open>reg_map\<close> from
  root paths to entries.
\<close>

record reg_entry =
  ContextName :: string
  RootPath :: string
  FirstSeenAt :: int
  LastUsedAt :: int

datatype reg_error =
    RegistryPathRequired | RegistryReadErr | RegistryMalformed | ResolveRootErr path_error
  | ResolveRegistryErr path_error | ContextNameRequired | ContextNameExists string
  | OldAndNewRequired | NewNameSame | ContextNotFound string | RegistryWriteErr replace_error

subsection \<open>File format\<close>

definition str_member :: "string \<Rightarrow> string \<Rightarrow> (string \<times> json) list" where
  "str_member k s = (if s = [] then [] else [(k, JStr s)])"

definition entryJson :: "reg_entry \<Rightarrow> json" where
  "entryJson e = JObj (str_member ''context_name'' (TrimSpace (ContextName e))
     @ [(''root_path'', JStr (RootPath e)), (''first_seen_at'', JNum (FirstSeenAt e)),
        (''last_used_at'', JNum (LastUsedAt e))])"

definition renderRegistry :: "reg_entry list \<Rightarrow> string" where
  "renderRegistry es = print_json 0 (JObj [(''entries'', JArr (map entryJson es))]) @ [CHR 0x0A]"

definition zero_entry :: reg_entry where
  "zero_entry = \<lparr>ContextName = [], RootPath = [], FirstSeenAt = 0, LastUsedAt = 0\<rparr>"

definition entryFields :: "reg_entry field list" where
  "entryFields =
     [(''context_name'', into_string (\<lambda>s. ContextName_update (\<lambda>_. s))),
      (''root_path'', into_string (\<lambda>s. RootPath_update (\<lambda>_. s))),
      (''state_db_path'', into_string (\<lambda>s r. r)),
      (''first_seen_at'', into_int (\<lambda>n. FirstSeenAt_update (\<lambda>_. n))),
      (''last_used_at'', into_int (\<lambda>n. LastUsedAt_update (\<lambda>_. n)))]"

definition decodeEntry :: "json \<Rightarrow> reg_entry option" where
  "decodeEntry v = decode_struct entryFields v zero_entry"

definition decodePayload :: "json \<Rightarrow> reg_entry list option" where
  "decodePayload v = decode_struct [(''entries'', into_slice (\<lambda>xs _. xs) decodeEntry)] v []"

definition parseRegistry :: "string \<Rightarrow> reg_entry list option" where
  "parseRegistry b = Option.bind (parse_json b) decodePayload"

definition trimEntry :: "reg_entry \<Rightarrow> reg_entry" where
  "trimEntry e = e\<lparr>ContextName := TrimSpace (ContextName e)\<rparr>"

subsection \<open>Load and write\<close>

definition Load :: "string \<Rightarrow> world \<Rightarrow> reg_error + reg_entry list" where
  "Load path0 w =
     (let path = TrimSpace path0
      in if path = [] then Inl RegistryPathRequired
         else case ReadFile w path of
           Inl NotExist \<Rightarrow> Inr []
         | Inl ReadFailed \<Rightarrow> Inl RegistryReadErr
         | Inr b \<Rightarrow>
             if TrimSpace b = [] then Inr []
             else (case parseRegistry b of
                     None \<Rightarrow> Inl RegistryMalformed
                   | Some es \<Rightarrow> Inr (map trimEntry es)))"

definition writeAtomic :: "string \<Rightarrow> reg_entry list \<Rightarrow> world \<Rightarrow> reg_error option \<times> world" where
  "writeAtomic path es w =
     (case atomicReplace True ''.registry-'' ''.tmp'' (comps (Dir path)) (comps path) (renderRegistry es) w of
        (r, w') \<Rightarrow> (map_option RegistryWriteErr r, w'))"

definition nowUnix :: "int \<Rightarrow> world \<Rightarrow> int" where
  "nowUnix now w = (if now \<le> 0 then clock w else now)"

subsection \<open>What the operations do to the entries\<close>

definition sortEntries :: "reg_entry list \<Rightarrow> reg_entry list" where
  "sortEntries es = sort_key RootPath es"

definition bumpUsed :: "int \<Rightarrow> reg_entry \<Rightarrow> reg_entry" where
  "bumpUsed n e = (if LastUsedAt e < n then e\<lparr>LastUsedAt := n\<rparr> else e)"

definition bumpSeen :: "int \<Rightarrow> reg_entry \<Rightarrow> reg_entry" where
  "bumpSeen n e = (if FirstSeenAt e \<le> 0 then e\<lparr>FirstSeenAt := n\<rparr> else e)"

definition touchEntries :: "string \<Rightarrow> int \<Rightarrow> reg_entry list \<Rightarrow> reg_entry list" where
  "touchEntries root n es =
     sortEntries
       (case find_index (\<lambda>e. RootPath e = root) es of
          Some i \<Rightarrow> es[i := bumpUsed n (bumpSeen n (es ! i))]
        | None \<Rightarrow> es @ [\<lparr>ContextName = [], RootPath = root, FirstSeenAt = n, LastUsedAt = n\<rparr>])"

definition name_taken :: "string \<Rightarrow> nat option \<Rightarrow> reg_entry list \<Rightarrow> bool" where
  "name_taken name keep es \<longleftrightarrow>
     list_ex (\<lambda>i. TrimSpace (ContextName (es ! i)) = name \<and> Some i \<noteq> keep) [0..<length es]"

definition setNameEntries :: "string \<Rightarrow> string \<Rightarrow> int \<Rightarrow> reg_entry list \<Rightarrow> reg_error + reg_entry list" where
  "setNameEntries root name n es =
     (let rootIdx = find_index (\<lambda>e. RootPath e = root) es
      in if name_taken name rootIdx es then Inl (ContextNameExists name)
         else Inr (sortEntries
           (case rootIdx of
              Some i \<Rightarrow> es[i := bumpUsed n (bumpSeen n ((es ! i)\<lparr>ContextName := name\<rparr>))]
            | None \<Rightarrow> es @ [\<lparr>ContextName = name, RootPath = root, FirstSeenAt = n, LastUsedAt = n\<rparr>])))"

definition has_name :: "string \<Rightarrow> reg_entry \<Rightarrow> bool" where
  "has_name name e \<longleftrightarrow> TrimSpace (ContextName e) = name"

text \<open>The index of the renamed entry and the new list.\<close>

definition renameEntries :: "string \<Rightarrow> string \<Rightarrow> int \<Rightarrow> reg_entry list \<Rightarrow> reg_error + nat \<times> reg_entry list" where
  "renameEntries old new n es =
     (case find_index (has_name old) es of
        None \<Rightarrow> Inl (ContextNotFound old)
      | Some i \<Rightarrow>
          if name_taken new (Some i) es then Inl (ContextNameExists new)
          else Inr (i, sortEntries (es[i := bumpUsed n ((es ! i)\<lparr>ContextName := new\<rparr>)])))"

definition removeEntries :: "string \<Rightarrow> reg_entry list \<Rightarrow> reg_error + string \<times> reg_entry list" where
  "removeEntries name es =
     (case find_index (has_name name) es of
        None \<Rightarrow> Inl (ContextNotFound name)
      | Some i \<Rightarrow> Inr (RootPath (es ! i), take i es @ drop (Suc i) es))"

subsection \<open>The operations\<close>

definition Touch :: "string \<Rightarrow> int \<Rightarrow> world \<Rightarrow> reg_error option \<times> world" where
  "Touch rootPath now w =
     (case cleanAbs w rootPath of
        Inl e \<Rightarrow> (Some (ResolveRootErr e), w)
      | Inr rootAbs \<Rightarrow>
     (case RegistryPath w of
        Inl e \<Rightarrow> (Some (ResolveRegistryErr e), w)
      | Inr registryPath \<Rightarrow>
     (case Load registryPath w of
        Inl e \<Rightarrow> (Some e, w)
      | Inr es \<Rightarrow> writeAtomic registryPath (touchEntries rootAbs (nowUnix now w) es) w)))"

definition SetContextName :: "string \<Rightarrow> string \<Rightarrow> int \<Rightarrow> world \<Rightarrow> reg_error option \<times> world" where
  "SetContextName rootPath name0 now w =
     (case cleanAbs w rootPath of
        Inl e \<Rightarrow> (Some (ResolveRootErr e), w)
      | Inr rootAbs \<Rightarrow>
     (let name = TrimSpace name0
      in if name = [] then (Some ContextNameRequired, w)
         else case RegistryPath w of
           Inl e \<Rightarrow> (Some (ResolveRegistryErr e), w)
         | Inr registryPath \<Rightarrow>
        (case Load registryPath w of
           Inl e \<Rightarrow> (Some e, w)
         | Inr es \<Rightarrow>
        (case setNameEntries rootAbs name (nowUnix now w) es of
           Inl e \<Rightarrow> (Some e, w)
         | Inr es' \<Rightarrow> writeAtomic registryPath es' w))))"

definition ResolveRootByContextName :: "string \<Rightarrow> world \<Rightarrow> reg_error + string option" where
  "ResolveRootByContextName name0 w =
     (let name = TrimSpace name0
      in if name = [] then Inl ContextNameRequired
         else case RegistryPath w of
           Inl e \<Rightarrow> Inl (ResolveRegistryErr e)
         | Inr registryPath \<Rightarrow>
             bindR (Load registryPath w) (\<lambda>es. Inr (map_option RootPath (find (has_name name) es))))"

definition ResolveContextNameByRoot :: "string \<Rightarrow> world \<Rightarrow> reg_error + string option" where
  "ResolveContextNameByRoot rootPath w =
     (case cleanAbs w rootPath of
        Inl e \<Rightarrow> Inl (ResolveRootErr e)
      | Inr rootAbs \<Rightarrow>
     (case RegistryPath w of
        Inl e \<Rightarrow> Inl (ResolveRegistryErr e)
      | Inr registryPath \<Rightarrow>
          bindR (Load registryPath w) (\<lambda>es. Inr
            (case find (\<lambda>e. RootPath e = rootAbs) es of
               None \<Rightarrow> None
             | Some e \<Rightarrow> (let name = TrimSpace (ContextName e) in if name = [] then None else Some name)))))"

text \<open>The root returned is read at the old index of the list after sorting, as the code does.\<close>

definition RenameContextName :: "string \<Rightarrow> string \<Rightarrow> int \<Rightarrow> world \<Rightarrow> (reg_error + string) \<times> world" where
  "RenameContextName oldName0 newName0 now w =
     (let oldName = TrimSpace oldName0; newName = TrimSpace newName0
      in if oldName = [] \<or> newName = [] then (Inl OldAndNewRequired, w)
         else if oldName = newName then (Inl NewNameSame, w)
         else case RegistryPath w of
           Inl e \<Rightarrow> (Inl (ResolveRegistryErr e), w)
         | Inr registryPath \<Rightarrow>
        (case Load registryPath w of
           Inl e \<Rightarrow> (Inl e, w)
         | Inr es \<Rightarrow>
        (case renameEntries oldName newName (nowUnix now w) es of
           Inl e \<Rightarrow> (Inl e, w)
         | Inr (oldIdx, es') \<Rightarrow>
             (case writeAtomic registryPath es' w of
                (Some e, w') \<Rightarrow> (Inl e, w')
              | (None, w') \<Rightarrow> (Inr (RootPath (es' ! oldIdx)), w')))))"

definition RemoveContextName :: "string \<Rightarrow> world \<Rightarrow> (reg_error + string) \<times> world" where
  "RemoveContextName name0 w =
     (let name = TrimSpace name0
      in if name = [] then (Inl ContextNameRequired, w)
         else case RegistryPath w of
           Inl e \<Rightarrow> (Inl (ResolveRegistryErr e), w)
         | Inr registryPath \<Rightarrow>
        (case Load registryPath w of
           Inl e \<Rightarrow> (Inl e, w)
         | Inr es \<Rightarrow>
        (case removeEntries name es of
           Inl e \<Rightarrow> (Inl e, w)
         | Inr (root, es') \<Rightarrow>
             (case writeAtomic registryPath es' w of
                (Some e, w') \<Rightarrow> (Inl e, w')
              | (None, w') \<Rightarrow> (Inr root, w')))))"

subsection \<open>File format round trip\<close>

definition wf_entry :: "reg_entry \<Rightarrow> bool" where
  "wf_entry e \<longleftrightarrow> TrimSpace (ContextName e) = ContextName e \<and> valid_utf8 (ContextName e)
     \<and> valid_utf8 (RootPath e) \<and> in_int64 (FirstSeenAt e) \<and> in_int64 (LastUsedAt e)"

lemma fold_entry_names:
  "fold_name ''context_name'' = ''CONTEXT_NAME''" "fold_name ''root_path'' = ''ROOT_PATH''"
  "fold_name ''state_db_path'' = ''STATE_DB_PATH''" "fold_name ''first_seen_at'' = ''FIRST_SEEN_AT''"
  "fold_name ''last_used_at'' = ''LAST_USED_AT''" "fold_name ''entries'' = ''ENTRIES''"
  by code_simp+

lemma utf8_entry_names:
  "valid_utf8 ''context_name''" "valid_utf8 ''root_path''" "valid_utf8 ''first_seen_at''"
  "valid_utf8 ''last_used_at''" "valid_utf8 ''entries''"
  by code_simp+

lemma decode_entryJson: "wf_entry e \<Longrightarrow> decodeEntry (entryJson e) = Some e"
  by (cases e)
    (auto simp: decodeEntry_def decode_struct_def entryJson_def entryFields_def str_member_def
      fold_entry_names zero_entry_def wf_entry_def)

lemma wf_entryJson: "wf_entry e \<Longrightarrow> wf_json (entryJson e)"
  by (auto simp: entryJson_def str_member_def wf_members_append wf_entry_def utf8_entry_names)

lemma parse_renderRegistry:
  assumes "\<forall>e\<in>set es. wf_entry e"
  shows "parseRegistry (renderRegistry es) = Some es"
proof -
  let ?v = "JObj [(''entries'', JArr (map entryJson es))]"
  have "wf_json ?v" using assms by (auto simp: wf_json_arr wf_entryJson utf8_entry_names)
  moreover have "decode_list decodeEntry (map entryJson es) = Some (map id es)"
    using assms by (intro decode_list_map) (simp add: decode_entryJson)
  ultimately show ?thesis
    by (simp add: parseRegistry_def renderRegistry_def parse_print_json decodePayload_def
        decode_struct_def fold_entry_names del: print_json.simps)
qed

lemma renderRegistry_not_blank: "TrimSpace (renderRegistry es) \<noteq> []"
proof -
  obtain t where t: "renderRegistry es = CHR ''{'' # t @ [CHR ''}'', CHR 0x0A]"
    by (auto simp: renderRegistry_def)
  have lead: "leading space_runes (CHR ''{'' # x) = None" for x
    by (simp add: leading_def space_runes_def)
  have trail: "leading (map rev space_runes) (CHR ''}'' # x) = None" for x
    by (simp add: leading_def space_runes_def)
  show ?thesis
    by (simp add: TrimSpace_def trimLeftSpace_def trimRightSpace_def t strip_id lead strip_newline trail)
qed

lemma trimEntry_id: "wf_entry e \<Longrightarrow> trimEntry e = e"
  by (simp add: trimEntry_def wf_entry_def)

text \<open>The entries the registry file stands for (\<open>None\<close> when it cannot be decoded).\<close>

definition storedEntries :: "string \<Rightarrow> world \<Rightarrow> reg_entry list option" where
  "storedEntries p w =
     (case files w (comps p) of
        None \<Rightarrow> Some []
      | Some DirN \<Rightarrow> None
      | Some (FileN b) \<Rightarrow> if TrimSpace b = [] then Some [] else map_option (map trimEntry) (parseRegistry b))"

lemma storedEntries_render:
  assumes "files w (comps p) = Some (FileN (renderRegistry es))" and "\<forall>e\<in>set es. wf_entry e"
  shows "storedEntries p w = Some es"
proof -
  have "map trimEntry es = es" using assms(2) by (induction es) (auto simp: trimEntry_id)
  with assms show ?thesis
    by (simp add: storedEntries_def renderRegistry_not_blank parse_renderRegistry)
qed

lemma Load_stored:
  assumes "Load p w = Inr es" and "TrimSpace p = p"
  shows "storedEntries p w = Some es"
  using assms
  by (auto simp: Load_def ReadFile_def storedEntries_def Let_def
      split: if_splits sum.splits read_error.splits option.splits node.splits)

subsection \<open>Invariant\<close>

definition names :: "reg_entry list \<Rightarrow> string list" where
  "names es = filter (\<lambda>n. n \<noteq> []) (map ContextName es)"

text \<open>Roots and non-empty context names are unique, and every entry survives the file format.\<close>

definition registry_pre :: "reg_entry list \<Rightarrow> bool" where
  "registry_pre es \<longleftrightarrow> distinct (map RootPath es) \<and> distinct (names es) \<and> (\<forall>e\<in>set es. wf_entry e)"

definition registry_inv :: "reg_entry list \<Rightarrow> bool" where
  "registry_inv es \<longleftrightarrow> registry_pre es \<and> sorted (map RootPath es)"

lemma registry_inv_sort: "registry_pre es \<Longrightarrow> registry_inv (sortEntries es)"
proof -
  assume pre: "registry_pre es"
  have m: "mset (sortEntries es) = mset es" by (simp add: sortEntries_def)
  then have "mset (names (sortEntries es)) = mset (names es)"
    by (metis mset_filter mset_map names_def)
  then have "distinct (names (sortEntries es)) = distinct (names es)"
    by (metis distinct_count_atmost_1 set_mset_mset)
  moreover have "distinct (map RootPath (sortEntries es)) = distinct (map RootPath es)"
    using m by (rule distinct_map_mset)
  moreover have "set (sortEntries es) = set es" by (simp add: sortEntries_def)
  ultimately show ?thesis
    using pre by (simp add: registry_inv_def registry_pre_def) (simp add: sortEntries_def)
qed

lemma distinct_filter_map_update:
  assumes "distinct (filter P (map f xs))" and "i < length xs"
    and "\<And>j. j < length xs \<Longrightarrow> j \<noteq> i \<Longrightarrow> f (xs ! j) \<noteq> f y"
  shows "distinct (filter P (map f (xs[i := y])))"
proof -
  have "f x \<noteq> f y" if "x \<in> set (take i xs)" for x
  proof -
    from that obtain j where "j < i" "x = xs ! j" by (auto simp: in_set_conv_nth)
    then show ?thesis using assms(2,3) by simp
  qed
  moreover have "f x \<noteq> f y" if "x \<in> set (drop (Suc i) xs)" for x
  proof -
    from that obtain j where "j < length xs - Suc i" "x = xs ! (Suc i + j)"
      by (auto simp: in_set_conv_nth)
    then show ?thesis using assms(3) [of "Suc i + j"] by simp
  qed
  moreover have "xs[i := y] = take i xs @ y # drop (Suc i) xs"
    using assms(2) by (rule upd_conv_take_nth_drop)
  moreover have "xs = take i xs @ xs ! i # drop (Suc i) xs" using assms(2) by (rule id_take_nth_drop)
  then have "distinct (filter P (map f (take i xs @ xs ! i # drop (Suc i) xs)))" using assms(1) by simp
  ultimately show ?thesis by (fastforce split: if_splits)
qed

lemma map_update_same: "i < length xs \<Longrightarrow> f y = f (xs ! i) \<Longrightarrow> map f (xs[i := y]) = map f xs"
  by (metis list_update_id map_update)

lemma bump_simps [simp]:
  "RootPath (bumpUsed n e) = RootPath e" "ContextName (bumpUsed n e) = ContextName e"
  "RootPath (bumpSeen n e) = RootPath e" "ContextName (bumpSeen n e) = ContextName e"
  by (simp_all add: bumpUsed_def bumpSeen_def)

lemma wf_bump:
  assumes "wf_entry e" and "in_int64 n"
  shows "wf_entry (bumpUsed n e)" and "wf_entry (bumpSeen n e)"
  using assms by (simp_all add: bumpUsed_def bumpSeen_def wf_entry_def)

lemma wf_set_name:
  "wf_entry e \<Longrightarrow> TrimSpace name = name \<Longrightarrow> valid_utf8 name \<Longrightarrow> wf_entry (e\<lparr>ContextName := name\<rparr>)"
  by (simp add: wf_entry_def)

lemma wf_update: "\<forall>e\<in>set es. wf_entry e \<Longrightarrow> wf_entry y \<Longrightarrow> \<forall>e\<in>set (es[i := y]). wf_entry e"
  using set_update_subset_insert by fast

lemma registry_pre_update:
  assumes "registry_pre es" and "i < length es" and "RootPath y = RootPath (es ! i)" and "wf_entry y"
    and "ContextName y = ContextName (es ! i) \<or>
      (\<forall>j<length es. j \<noteq> i \<longrightarrow> ContextName (es ! j) \<noteq> ContextName y)"
  shows "registry_pre (es[i := y])"
proof -
  have "distinct (names (es[i := y]))"
    using assms(5)
  proof
    assume "ContextName y = ContextName (es ! i)"
    then show ?thesis
      using assms(1,2) by (simp add: names_def registry_pre_def map_update_same del: map_update)
  next
    assume "\<forall>j<length es. j \<noteq> i \<longrightarrow> ContextName (es ! j) \<noteq> ContextName y"
    then show ?thesis
      using assms(1,2) unfolding names_def registry_pre_def by (blast intro: distinct_filter_map_update)
  qed
  moreover have "\<forall>e\<in>set (es[i := y]). wf_entry e"
    using assms(1,4) by (intro wf_update) (simp_all add: registry_pre_def)
  ultimately show ?thesis
    using assms(1,2,3) by (simp add: registry_pre_def map_update_same del: map_update)
qed

lemma registry_pre_append:
  assumes "registry_pre es" and "RootPath y \<notin> set (map RootPath es)" and "wf_entry y"
    and "ContextName y = [] \<or> ContextName y \<notin> set (map ContextName es)"
  shows "registry_pre (es @ [y])"
  using assms by (auto simp: registry_pre_def names_def)

lemma wf_nth: "registry_pre es \<Longrightarrow> i < length es \<Longrightarrow> wf_entry (es ! i)"
  by (simp add: registry_pre_def)

lemma name_taken_iff:
  assumes "registry_pre es"
  shows "name_taken name keep es \<longleftrightarrow> (\<exists>i<length es. ContextName (es ! i) = name \<and> Some i \<noteq> keep)"
proof -
  have "TrimSpace (ContextName (es ! i)) = ContextName (es ! i)" if "i < length es" for i
    using wf_nth [OF assms that] by (simp add: wf_entry_def)
  then show ?thesis by (auto simp: name_taken_def list_ex_iff)
qed

lemma touchEntries_inv [go_inv]:
  assumes "registry_pre es" and "in_int64 n" and "valid_utf8 root"
  shows "registry_inv (touchEntries root n es)"
proof (cases "find_index (\<lambda>e. RootPath e = root) es")
  case None
  then have "root \<notin> set (map RootPath es)" by (auto simp: find_index_None)
  with assms None show ?thesis
    unfolding touchEntries_def
    by (auto intro!: registry_inv_sort registry_pre_append simp: wf_entry_def valid_utf8.simps)
next
  case (Some i)
  note i = find_index_SomeD(1) [OF Some]
  with assms Some show ?thesis
    unfolding touchEntries_def
    by (auto intro!: registry_inv_sort registry_pre_update wf_bump wf_nth)
qed

lemma setNameEntries_inv [go_inv]:
  assumes "registry_pre es" and "in_int64 n" and "valid_utf8 root"
    and "TrimSpace name = name" and "valid_utf8 name"
    and "setNameEntries root name n es = Inr es'"
  shows "registry_inv es'"
proof (cases "find_index (\<lambda>e. RootPath e = root) es")
  case None
  then have "root \<notin> set (map RootPath es)" by (auto simp: find_index_None)
  moreover have "name \<notin> set (map ContextName es)"
    using assms(6) None name_taken_iff [OF assms(1)]
    by (auto simp: setNameEntries_def Let_def in_set_conv_nth split: if_splits)
  ultimately show ?thesis
    using assms None
    by (auto intro!: registry_inv_sort registry_pre_append simp: setNameEntries_def Let_def wf_entry_def split: if_splits)
next
  case (Some i)
  note i = find_index_SomeD(1) [OF Some]
  have "\<forall>j<length es. j \<noteq> i \<longrightarrow> ContextName (es ! j) \<noteq> name"
    using assms(6) Some name_taken_iff [OF assms(1), of name "Some i"]
    by (auto simp: setNameEntries_def Let_def split: if_splits)
  moreover have "wf_entry (bumpUsed n (bumpSeen n ((es ! i)\<lparr>ContextName := name\<rparr>)))"
    using assms i by (intro wf_bump wf_set_name wf_nth)
  ultimately show ?thesis
    using assms Some i
    by (auto intro!: registry_inv_sort registry_pre_update simp: setNameEntries_def Let_def split: if_splits)
qed

lemma renameEntries_inv [go_inv]:
  assumes "registry_pre es" and "in_int64 n" and "TrimSpace new = new" and "valid_utf8 new"
    and "renameEntries old new n es = Inr (i, es')"
  shows "registry_inv es'"
proof -
  from assms(5) have f: "find_index (has_name old) es = Some i" and nt: "\<not> name_taken new (Some i) es"
    and es': "es' = sortEntries (es[i := bumpUsed n ((es ! i)\<lparr>ContextName := new\<rparr>)])"
    by (auto simp: renameEntries_def split: option.splits if_splits)
  note i = find_index_SomeD(1) [OF f]
  have "\<forall>j<length es. j \<noteq> i \<longrightarrow> ContextName (es ! j) \<noteq> new"
    using nt name_taken_iff [OF assms(1), of new "Some i"] by auto
  moreover have "wf_entry (bumpUsed n ((es ! i)\<lparr>ContextName := new\<rparr>))"
    using assms i by (intro wf_bump wf_set_name wf_nth)
  ultimately show ?thesis
    unfolding es' using assms(1) i by (auto intro!: registry_inv_sort registry_pre_update)
qed

lemma removeEntries_inv [go_inv]:
  assumes "registry_inv es" and "removeEntries name es = Inr (r, es')"
  shows "registry_inv es'"
proof -
  from assms(2) obtain i where f: "find_index (has_name name) es = Some i"
    and es': "es' = take i es @ drop (Suc i) es"
    by (auto simp: removeEntries_def split: option.splits)
  have "es = take i es @ es ! i # drop (Suc i) es"
    using find_index_SomeD(1) [OF f] by (rule id_take_nth_drop)
  then obtain a x b where e: "es = a @ x # b" and e': "es' = a @ b" using es' by blast
  show ?thesis
    using assms(1) unfolding e e'
    by (auto simp: registry_inv_def registry_pre_def names_def sorted_append split: if_splits)
qed

end
