(* ===== verification/Registry_Laws.thy ===== *)
theory Registry_Laws
  imports State_Registry
begin

text \<open>
  What the registry of \<open>State_Registry\<close> promises: the stored list keeps \<open>registry_inv\<close> under any
  sequence of operations and faults (\<open>reg_step\<close>), the list operations implement updates of the map
  \<open>reg_map\<close> from roots to entries, and names resolve to the roots they were given to.
\<close>

subsection \<open>The registry file\<close>

lemma TrimSpace_abs_id:
  assumes "p = abs_path cs" and "p \<noteq> []" and "leading (map rev space_runes) (rev p) = None"
  shows "TrimSpace p = p"
proof -
  have "trimLeftSpace p = p" using assms(1) by (simp add: trimLeftSpace_def abs_path_def strip_id leading_slash)
  then show ?thesis using assms(3) by (simp add: TrimSpace_def trimRightSpace_def strip_id)
qed

lemma RegistryPath_shape:
  assumes "RegistryPath w = Inr p" and "env_ok w"
  shows "comps p = comps (Dir p) @ [''root-registry.json'']" and "TrimSpace p = p" and "p \<noteq> []"
proof -
  have n: "plain ''root-registry.json''" and st: "plain ''state''" by (simp_all add: plain_def)
  show "comps p = comps (Dir p) @ [''root-registry.json'']"
    using assms state_path_shape [of w "''root-registry.json''" p] n by (simp add: RegistryPath_def)
  from assms(1) obtain h where h: "KraHomeDir w = Inr h"
      and p: "p = pathJoin [h, ''state'', ''root-registry.json'']"
    by (auto simp: RegistryPath_def bindR_Inr_iff)
  have "pathJoin (abs_path (comps h) # [''state'', ''root-registry.json''])
      = abs_path (comps h @ [''state'', ''root-registry.json''])"
    using n st by (intro pathJoin_abs_path) simp_all
  then have p': "p = abs_path ((comps h @ [''state'']) @ [''root-registry.json''])"
    using p KraHomeDir_canonical [OF h assms(2)] by simp
  have "join [slash] ((comps h @ [''state'']) @ [''root-registry.json''])
      = join [slash] (comps h @ [''state'']) @ [slash] @ ''root-registry.json''"
    by (subst join_append) simp_all
  then obtain t where t: "p = t @ ''n''" unfolding p' abs_path_def by fastforce
  then show "p \<noteq> []" by simp
  with p' show "TrimSpace p = p"
    by (rule TrimSpace_abs_id) (simp add: t leading_def space_runes_def)
qed

interpretation registry_file: atomic_file
  "atomicReplace True ''.registry-'' ''.tmp'' d (d @ [''root-registry.json''])"
  "d @ [''root-registry.json'']" for d
  by (rule atomic_fileI) simp

lemma RegistryPath_env:
  assumes "getwd w' = getwd w" "kra_home_env w' = kra_home_env w" "user_home w' = user_home w"
  shows "RegistryPath w' = RegistryPath w"
  using KraHomeDir_env [OF assms] by (simp add: RegistryPath_def)

lemma writeAtomic_put:
  assumes "writeAtomic p es w = (r, w')" and "RegistryPath w = Inr p" and "env_ok w"
  obtains e where "r = map_option RegistryWriteErr e" and
    "atomicReplace True ''.registry-'' ''.tmp'' (comps (Dir p)) (comps (Dir p) @ [''root-registry.json''])
       (renderRegistry es) w = (e, w')"
  using assms RegistryPath_shape(1) [OF assms(2,3)] by (auto simp: writeAtomic_def split: prod.splits)

lemma writeAtomic_env:
  assumes "writeAtomic p es w = (r, w')"
  shows "getwd w' = getwd w" "kra_home_env w' = kra_home_env w" "user_home w' = user_home w"
    "clock w' = clock w" "fails w' = fails w"
  using assms atomicReplace_env by (auto simp: writeAtomic_def split: prod.splits)

text \<open>A write either stores exactly the entries or leaves the stored ones as they are.\<close>

lemma writeAtomic_stored:
  assumes w: "writeAtomic p es w = (r, w')" and "RegistryPath w = Inr p" and "env_ok w"
    and "\<forall>e\<in>set es. wf_entry e"
  shows "storedEntries p w' = (if r = None then Some es else storedEntries p w)"
proof -
  obtain e where r: "r = map_option RegistryWriteErr e" and
    put: "atomicReplace True ''.registry-'' ''.tmp'' (comps (Dir p)) (comps (Dir p) @ [''root-registry.json''])
       (renderRegistry es) w = (e, w')"
    using writeAtomic_put [OF assms(1-3)] .
  note f = registry_file.put_target [OF put, folded RegistryPath_shape(1) [OF assms(2,3)]]
  show ?thesis
  proof (cases e)
    case None
    with f have "files w' (comps p) = Some (FileN (renderRegistry es))" by simp
    from storedEntries_render [OF this assms(4)] None r show ?thesis by simp
  next
    case (Some x)
    with f r show ?thesis by (simp add: storedEntries_def)
  qed
qed

text \<open>What a later \<open>Load\<close> sees.\<close>

lemma Load_ok:
  assumes "storedEntries p w = Some es" and "TrimSpace p = p" and "p \<noteq> []" and "\<not> fails w (SRead (comps p))"
    and "files w (comps p) \<noteq> None"
  shows "Load p w = Inr es"
  using assms
  by (auto simp: Load_def ReadFile_def storedEntries_def split: option.splits node.splits if_splits)

lemma Load_after_write:
  assumes w: "writeAtomic p es w = (None, w')" and "RegistryPath w = Inr p" and "env_ok w"
    and "\<forall>e\<in>set es. wf_entry e" and "\<not> fails w (SRead (comps p))"
  shows "Load p w' = Inr es"
proof (rule Load_ok)
  show "storedEntries p w' = Some es" using writeAtomic_stored [OF assms(1-4)] by simp
  show "TrimSpace p = p" "p \<noteq> []" using RegistryPath_shape [OF assms(2,3)] by simp_all
  show "\<not> fails w' (SRead (comps p))" using assms(5) writeAtomic_env(5) [OF w] by simp
  obtain e where "None = map_option RegistryWriteErr e" and
    put: "atomicReplace True ''.registry-'' ''.tmp'' (comps (Dir p)) (comps (Dir p) @ [''root-registry.json''])
       (renderRegistry es) w = (e, w')"
    using writeAtomic_put [OF assms(1-3)] .
  then show "files w' (comps p) \<noteq> None"
    using registry_file.put_target [OF put] RegistryPath_shape(1) [OF assms(2,3)] by simp
qed

subsection \<open>Sequences of operations under faults\<close>

text \<open>
  One step: an operation with arguments whose stored form survives JSON, or the outside world
  changing the clock, the faults, the random names and any file other than the registry.
\<close>

definition time_ok :: "world \<Rightarrow> int \<Rightarrow> bool" where
  "time_ok w now \<longleftrightarrow> in_int64 (nowUnix now w)"

definition root_ok :: "world \<Rightarrow> string \<Rightarrow> bool" where
  "root_ok w root \<longleftrightarrow> (case cleanAbs w root of Inl _ \<Rightarrow> True | Inr r \<Rightarrow> valid_utf8 r)"

inductive reg_step :: "string \<Rightarrow> world \<Rightarrow> world \<Rightarrow> bool" for p where
  touch: "time_ok w now \<Longrightarrow> root_ok w root \<Longrightarrow> reg_step p w (snd (Touch root now w))"
| set_name: "time_ok w now \<Longrightarrow> root_ok w root \<Longrightarrow> valid_utf8 (TrimSpace name) \<Longrightarrow>
    reg_step p w (snd (SetContextName root name now w))"
| rename: "time_ok w now \<Longrightarrow> valid_utf8 (TrimSpace new) \<Longrightarrow>
    reg_step p w (snd (RenameContextName old new now w))"
| remove: "reg_step p w (snd (RemoveContextName name w))"
| outside: "F (comps p) = files w (comps p) \<Longrightarrow>
    reg_step p w (w\<lparr>files := F, clock := c, rand := n, fails := f, torn := t\<rparr>)"

inductive_cases reg_stepE: "reg_step p w w'"

definition reg_ok :: "string \<Rightarrow> world \<Rightarrow> bool" where
  "reg_ok p w \<longleftrightarrow> env_ok w \<and> RegistryPath w = Inr p
     \<and> (case storedEntries p w of None \<Rightarrow> False | Some es \<Rightarrow> registry_inv es)"

lemma reg_ok_Load:
  assumes "reg_ok p w" and "Load p w = Inr es"
  shows "registry_inv es" and "registry_pre es"
  using assms Load_stored [OF assms(2)] RegistryPath_shape(2) [of w p]
  by (simp_all add: reg_ok_def registry_inv_def)

lemma reg_ok_write:
  assumes "reg_ok p w" and "registry_inv es"
  shows "reg_ok p (snd (writeAtomic p es w))"
proof -
  obtain r w' where w: "writeAtomic p es w = (r, w')" by fastforce
  have ok: "env_ok w" "RegistryPath w = Inr p" using assms(1) by (simp_all add: reg_ok_def)
  have "\<forall>e\<in>set es. wf_entry e" using assms(2) by (simp add: registry_inv_def registry_pre_def)
  note s = writeAtomic_stored [OF w ok(2,1) this]
  have "env_ok w'" using ok(1) writeAtomic_env [OF w] by (simp add: env_ok_def)
  moreover have "RegistryPath w' = Inr p"
    using ok(2) RegistryPath_env [OF writeAtomic_env(1-3) [OF w]] by simp
  ultimately show ?thesis using s assms w by (simp add: reg_ok_def)
qed

lemma Touch_reg_ok [go_inv]:
  assumes "reg_ok p w" and "time_ok w now" and "root_ok w root"
  shows "reg_ok p (snd (Touch root now w))"
proof -
  have p: "RegistryPath w = Inr p" using assms(1) by (simp add: reg_ok_def)
  show ?thesis
    using assms reg_ok_Load(2) [OF assms(1)] unfolding Touch_def p
    by (auto simp: time_ok_def root_ok_def split: sum.splits intro!: reg_ok_write touchEntries_inv)
qed

lemma SetContextName_reg_ok [go_inv]:
  assumes "reg_ok p w" and "time_ok w now" and "root_ok w root" and "valid_utf8 (TrimSpace name)"
  shows "reg_ok p (snd (SetContextName root name now w))"
proof -
  have p: "RegistryPath w = Inr p" using assms(1) by (simp add: reg_ok_def)
  show ?thesis
    using assms reg_ok_Load(2) [OF assms(1)] unfolding SetContextName_def p
    by (auto simp: time_ok_def root_ok_def Let_def split: sum.splits
        intro!: reg_ok_write intro: setNameEntries_inv [OF _ _ _ TrimSpace_idem])
qed

lemma RenameContextName_reg_ok [go_inv]:
  assumes "reg_ok p w" and "time_ok w now" and "valid_utf8 (TrimSpace new)"
  shows "reg_ok p (snd (RenameContextName old new now w))"
proof -
  have p: "RegistryPath w = Inr p" using assms(1) by (simp add: reg_ok_def)
  have "registry_inv es'" if "Load p w = Inr es"
      "renameEntries (TrimSpace old) (TrimSpace new) (nowUnix now w) es = Inr (i, es')" for es i es'
    using that assms reg_ok_Load(2) [OF assms(1)]
    by (auto simp: time_ok_def intro: renameEntries_inv [OF _ _ TrimSpace_idem])
  with assms(1) show ?thesis
    unfolding RenameContextName_def p
    by (auto simp: Let_def split: sum.splits prod.splits option.splits)
      (metis assms(1) reg_ok_write snd_conv)+
qed

lemma RemoveContextName_reg_ok [go_inv]:
  assumes "reg_ok p w"
  shows "reg_ok p (snd (RemoveContextName name w))"
proof -
  have p: "RegistryPath w = Inr p" using assms by (simp add: reg_ok_def)
  have "registry_inv es'" if "Load p w = Inr es" "removeEntries (TrimSpace name) es = Inr (r, es')" for es r es'
    using that reg_ok_Load(1) [OF assms] by (auto intro: removeEntries_inv)
  with assms show ?thesis
    unfolding RemoveContextName_def p
    by (auto simp: Let_def split: sum.splits prod.splits option.splits)
      (metis assms reg_ok_write snd_conv)+
qed

lemma reg_ok_outside [go_inv]:
  assumes "reg_ok p w" and "F (comps p) = files w (comps p)"
  shows "reg_ok p (w\<lparr>files := F, clock := c, rand := n, fails := f, torn := t\<rparr>)"
  using assms RegistryPath_env [of "w\<lparr>files := F, clock := c, rand := n, fails := f, torn := t\<rparr>" w]
  by (simp add: reg_ok_def env_ok_def storedEntries_def)

lemma reg_step_ok: "reg_step p w w' \<Longrightarrow> reg_ok p w \<Longrightarrow> reg_ok p w'"
  by (induction rule: reg_step.induct) (simp_all add: go_inv)

lemma reg_ok_init:
  assumes "env_ok w" and "RegistryPath w = Inr p" and "files w (comps p) = None"
  shows "reg_ok p w"
  using assms by (simp add: reg_ok_def storedEntries_def registry_inv_def registry_pre_def names_def)

subsection \<open>The abstract registry\<close>

type_synonym registry_map = "string \<rightharpoonup> reg_entry"

definition reg_map :: "reg_entry list \<Rightarrow> registry_map" where
  "reg_map es = map_of (map (\<lambda>e. (RootPath e, e)) es)"

definition fresh_entry :: "string \<Rightarrow> string \<Rightarrow> int \<Rightarrow> reg_entry" where
  "fresh_entry root name n = \<lparr>ContextName = name, RootPath = root, FirstSeenAt = n, LastUsedAt = n\<rparr>"

definition touch_map :: "string \<Rightarrow> int \<Rightarrow> registry_map \<Rightarrow> registry_map" where
  "touch_map root n m = m(root \<mapsto>
     (case m root of None \<Rightarrow> fresh_entry root [] n | Some e \<Rightarrow> bumpUsed n (bumpSeen n e)))"

definition owner :: "registry_map \<Rightarrow> string \<Rightarrow> string \<Rightarrow> bool" where
  "owner m name r \<longleftrightarrow> (\<exists>e. m r = Some e \<and> ContextName e = name)"

definition set_map :: "string \<Rightarrow> string \<Rightarrow> int \<Rightarrow> registry_map \<Rightarrow> registry_map" where
  "set_map root name n m = m(root \<mapsto>
     (case m root of None \<Rightarrow> fresh_entry root name n
      | Some e \<Rightarrow> bumpUsed n (bumpSeen n (e\<lparr>ContextName := name\<rparr>))))"

lemma reg_map_iff:
  assumes "registry_pre es"
  shows "reg_map es r = Some e \<longleftrightarrow> e \<in> set es \<and> RootPath e = r"
proof -
  have "distinct (map fst (map (\<lambda>e. (RootPath e, e)) es))"
    using assms by (simp add: registry_pre_def comp_def)
  from map_of_eq_Some_iff [OF this] show ?thesis by (auto simp: reg_map_def)
qed

lemma reg_map_nth:
  assumes "registry_pre es" and "i < length es"
  shows "reg_map es (RootPath (es ! i)) = Some (es ! i)"
  using assms by (simp add: reg_map_iff)

lemma reg_map_update:
  assumes "i < length es" and "RootPath y = RootPath (es ! i)" and "distinct (map RootPath es)"
  shows "reg_map (es[i := y]) = (reg_map es)(RootPath y \<mapsto> y)"
  using assms
proof (induction es arbitrary: i)
  case (Cons x es)
  show ?case
  proof (cases i)
    case 0
    with Cons.prems show ?thesis by (simp add: reg_map_def fun_eq_iff)
  next
    case (Suc j)
    then have "es ! j \<in> set es" using Cons.prems(1) by simp
    then have "RootPath (es ! j) \<in> set (map RootPath es)" by simp
    then have "RootPath y \<noteq> RootPath x" using Suc Cons.prems(2,3) by auto
    with Suc Cons show ?thesis by (auto simp: reg_map_def fun_eq_iff)
  qed
qed simp

lemma reg_map_append: "RootPath y \<notin> set (map RootPath es) \<Longrightarrow>
    reg_map (es @ [y]) = (reg_map es)(RootPath y \<mapsto> y)"
  by (induction es) (auto simp: reg_map_def)

lemma reg_map_sort:
  assumes "registry_pre es"
  shows "reg_map (sortEntries es) = reg_map es"
proof -
  have pre: "registry_pre (sortEntries es)" using registry_inv_sort [OF assms] by (simp add: registry_inv_def)
  have "reg_map (sortEntries es) r = Some e \<longleftrightarrow> reg_map es r = Some e" for r e
    using reg_map_iff [OF pre] reg_map_iff [OF assms] by (simp add: sortEntries_def)
  then show ?thesis by (metis not_None_eq ext)
qed

lemma root_index:
  assumes "registry_pre es"
  shows "reg_map es root = map_option ((!) es) (find_index (\<lambda>e. RootPath e = root) es)"
proof (cases "find_index (\<lambda>e. RootPath e = root) es")
  case None
  then have "\<forall>e\<in>set es. RootPath e \<noteq> root" by (simp add: find_index_None)
  then have "reg_map es root \<noteq> Some e" for e using reg_map_iff [OF assms] by blast
  with None show ?thesis by (cases "reg_map es root") auto
next
  case (Some i)
  with reg_map_nth [OF assms find_index_SomeD(1) [OF Some]] find_index_SomeD(2) [OF Some]
  show ?thesis by simp
qed

lemma touchEntries_map:
  assumes "registry_pre es" and "in_int64 n" and "valid_utf8 root"
  shows "reg_map (touchEntries root n es) = touch_map root n (reg_map es)"
proof (cases "find_index (\<lambda>e. RootPath e = root) es")
  case None
  let ?y = "fresh_entry root [] n"
  from None have r: "root \<notin> set (map RootPath es)" by (auto simp: find_index_None)
  have "registry_pre (es @ [?y])"
    using assms r by (intro registry_pre_append) (auto simp: fresh_entry_def wf_entry_def valid_utf8.simps)
  from reg_map_sort [OF this] show ?thesis
    using None root_index [OF assms(1), of root] r
    by (simp add: touchEntries_def touch_map_def fresh_entry_def reg_map_append)
next
  case (Some i)
  let ?y = "bumpUsed n (bumpSeen n (es ! i))"
  note i = find_index_SomeD [OF Some]
  have "registry_pre (es[i := ?y])"
    using assms i by (intro registry_pre_update) (auto intro: wf_bump wf_nth)
  from reg_map_sort [OF this] show ?thesis
    using Some root_index [OF assms(1), of root] i assms(1)
    by (simp add: touchEntries_def touch_map_def reg_map_update registry_pre_def)
qed

lemma name_taken_owner:
  assumes "registry_pre es"
  shows "name_taken name (find_index (\<lambda>e. RootPath e = root) es) es
    \<longleftrightarrow> (\<exists>r. owner (reg_map es) name r \<and> r \<noteq> root)"
proof -
  let ?k = "find_index (\<lambda>e. RootPath e = root) es"
  have "Some i \<noteq> ?k \<longleftrightarrow> RootPath (es ! i) \<noteq> root" if i: "i < length es" for i
  proof
    assume "Some i \<noteq> ?k"
    show "RootPath (es ! i) \<noteq> root"
    proof
      assume r: "RootPath (es ! i) = root"
      then obtain j where j: "?k = Some j" using i find_index_None [of "\<lambda>e. RootPath e = root" es] by fastforce
      note find_index_SomeD [OF j]
      with r i assms have "j = i" by (simp add: registry_pre_def distinct_conv_nth) (metis nth_map)
      with j \<open>Some i \<noteq> ?k\<close> show False by simp
    qed
  qed (use find_index_SomeD(2) in force)
  then show ?thesis
    using reg_map_iff [OF assms] unfolding name_taken_iff [OF assms] owner_def
    by (metis in_set_conv_nth)
qed

lemma setNameEntries_map:
  assumes "registry_pre es" and "in_int64 n" and "valid_utf8 root"
    and "TrimSpace name = name" and "valid_utf8 name"
  shows "if \<exists>r. owner (reg_map es) name r \<and> r \<noteq> root
    then setNameEntries root name n es = Inl (ContextNameExists name)
    else \<exists>es'. setNameEntries root name n es = Inr es' \<and> reg_map es' = set_map root name n (reg_map es)"
proof (cases "\<exists>r. owner (reg_map es) name r \<and> r \<noteq> root")
  case True
  then show ?thesis using name_taken_owner [OF assms(1)] by (simp add: setNameEntries_def)
next
  case free: False
  let ?k = "find_index (\<lambda>e. RootPath e = root) es"
  have nt: "\<not> name_taken name ?k es" using free name_taken_owner [OF assms(1)] by blast
  show ?thesis
  proof (cases ?k)
    case None
    let ?y = "fresh_entry root name n"
    from None have r: "root \<notin> set (map RootPath es)" by (auto simp: find_index_None)
    have "name \<notin> set (map ContextName es)"
      using nt None name_taken_iff [OF assms(1)] by (auto simp: in_set_conv_nth)
    then have "registry_pre (es @ [?y])"
      using assms r by (intro registry_pre_append) (auto simp: fresh_entry_def wf_entry_def)
    from reg_map_sort [OF this] show ?thesis
      using None root_index [OF assms(1), of root] r nt free
      by (simp add: setNameEntries_def set_map_def fresh_entry_def reg_map_append)
  next
    case (Some i)
    let ?y = "bumpUsed n (bumpSeen n ((es ! i)\<lparr>ContextName := name\<rparr>))"
    note i = find_index_SomeD [OF Some]
    have "\<forall>j<length es. j \<noteq> i \<longrightarrow> ContextName (es ! j) \<noteq> name"
      using nt Some name_taken_iff [OF assms(1), of name "Some i"] by auto
    moreover have "wf_entry ?y" using assms i by (intro wf_bump wf_set_name wf_nth)
    ultimately have "registry_pre (es[i := ?y])" using assms(1) i by (intro registry_pre_update) auto
    from reg_map_sort [OF this] show ?thesis
      using Some root_index [OF assms(1), of root] i assms(1) nt free
      by (simp add: setNameEntries_def set_map_def reg_map_update registry_pre_def)
  qed
qed

subsection \<open>Naming\<close>

text \<open>
  The contract the context commands rely on: a name is bound to at most one root, binding it again
  for another root is refused, and what was bound is what is looked up.
\<close>

locale naming =
  fixes inv :: "'s \<Rightarrow> bool" and ok :: "string \<Rightarrow> string \<Rightarrow> bool"
    and bind :: "string \<Rightarrow> string \<Rightarrow> 's \<Rightarrow> 's option" and unbind :: "string \<Rightarrow> 's \<Rightarrow> 's option"
    and lookup :: "string \<Rightarrow> 's \<Rightarrow> string option"
  assumes bind_inv: "inv s \<Longrightarrow> ok n r \<Longrightarrow> bind n r s = Some s' \<Longrightarrow> inv s'"
    and unbind_inv: "inv s \<Longrightarrow> unbind n s = Some s' \<Longrightarrow> inv s'"
    and bind_refused: "inv s \<Longrightarrow> ok n r \<Longrightarrow> bind n r s = None \<longleftrightarrow> (\<exists>q. lookup n s = Some q \<and> q \<noteq> r)"
    and unbind_refused: "inv s \<Longrightarrow> ok n r \<Longrightarrow> unbind n s = None \<longleftrightarrow> lookup n s = None"
    and bind_lookup: "inv s \<Longrightarrow> ok n r \<Longrightarrow> ok m q \<Longrightarrow> bind n r s = Some s' \<Longrightarrow>
      lookup m s' = (if m = n then Some r else if lookup m s = Some r then None else lookup m s)"
    and unbind_lookup: "inv s \<Longrightarrow> ok n r \<Longrightarrow> ok m q \<Longrightarrow> unbind n s = Some s' \<Longrightarrow>
      lookup m s' = (if m = n then None else lookup m s)"
begin

fun bind_all :: "(string \<times> string) list \<Rightarrow> 's \<Rightarrow> 's option" where
  "bind_all [] s = Some s"
| "bind_all ((n, r) # ps) s = Option.bind (bind n r s) (bind_all ps)"

text \<open>Binding distinct fresh names to distinct fresh roots succeeds, and then every name resolves.\<close>

lemma bind_all_lookup:
  assumes "inv s" and "\<forall>(n, r)\<in>set ps. ok n r" and "distinct (map fst ps)" and "distinct (map snd ps)"
    and "\<forall>(n, r)\<in>set ps. lookup n s = None"
  shows "\<exists>s'. bind_all ps s = Some s' \<and> inv s' \<and> (\<forall>(n, r)\<in>set ps. lookup n s' = Some r)
    \<and> (\<forall>m q r. ok m q \<longrightarrow> m \<notin> fst ` set ps \<longrightarrow> r \<notin> snd ` set ps \<longrightarrow> lookup m s = Some r \<longrightarrow> lookup m s' = Some r)"
  using assms
proof (induction ps arbitrary: s)
  case Nil
  then show ?case by simp
next
  case (Cons p ps)
  obtain n r where p: "p = (n, r)" by fastforce
  from Cons.prems p have nr: "ok n r" "lookup n s = None" by auto
  then obtain t where t: "bind n r s = Some t" using bind_refused [OF Cons.prems(1) nr(1)] by fastforce
  have i: "inv t" by (rule bind_inv [OF Cons.prems(1) nr(1) t])
  note l = bind_lookup [OF Cons.prems(1) nr(1) _ t]
  have none: "\<forall>(m, q)\<in>set ps. lookup m t = None"
  proof (clarify)
    fix m q assume mq: "(m, q) \<in> set ps"
    then have "ok m q" "lookup m s = None" using Cons.prems(2,5) by auto
    moreover have "m \<noteq> n" using mq Cons.prems(3) p by (metis distinct.simps(2) fst_conv image_eqI list.set_map list.simps(9))
    ultimately show "lookup m t = None" using l by simp
  qed
  have pre: "\<forall>(n, r)\<in>set ps. ok n r" "distinct (map fst ps)" "distinct (map snd ps)"
    using Cons.prems by simp_all
  obtain s' where s': "bind_all ps t = Some s'" "inv s'" "\<forall>(n, r)\<in>set ps. lookup n s' = Some r"
      "\<And>m q r. ok m q \<Longrightarrow> m \<notin> fst ` set ps \<Longrightarrow> r \<notin> snd ` set ps \<Longrightarrow> lookup m t = Some r \<Longrightarrow> lookup m s' = Some r"
    using Cons.IH [OF i pre none] by blast
  have "lookup n s' = Some r"
    using s'(4) [OF nr(1), of r] l [OF nr(1)] Cons.prems(3,4) p by simp
  moreover have "\<forall>m q r'. ok m q \<longrightarrow> m \<notin> fst ` set (p # ps) \<longrightarrow> r' \<notin> snd ` set (p # ps) \<longrightarrow>
      lookup m s = Some r' \<longrightarrow> lookup m s' = Some r'"
    using s'(4) l p by auto
  ultimately show ?case using s' t p by auto
qed

lemma unbind_bind_elsewhere:
  assumes "inv s" and "ok n r" and "ok n q" and "unbind n s = Some s'"
  shows "\<exists>t. bind n q s' = Some t \<and> lookup n t = Some q"
proof -
  have i: "inv s'" by (rule unbind_inv [OF assms(1,4)])
  have "lookup n s' = None" using unbind_lookup [OF assms(1,2,2,4)] by simp
  then obtain t where "bind n q s' = Some t" using bind_refused [OF i assms(3)] by fastforce
  with bind_lookup [OF i assms(3,3)] show ?thesis by auto
qed

end

definition lookupName :: "string \<Rightarrow> reg_entry list \<Rightarrow> string option" where
  "lookupName name es = map_option RootPath (find (has_name name) es)"

definition stored_ok :: "int \<Rightarrow> string \<Rightarrow> string \<Rightarrow> bool" where
  "stored_ok t name root \<longleftrightarrow> name \<noteq> [] \<and> TrimSpace name = name \<and> valid_utf8 name \<and> valid_utf8 root \<and> in_int64 t"

definition ok_value :: "'e + 'a \<Rightarrow> 'a option" where
  "ok_value r = (case r of Inl _ \<Rightarrow> None | Inr v \<Rightarrow> Some v)"

lemma ok_value_simps [simp]: "ok_value (Inl e) = None" "ok_value (Inr v) = Some v"
  by (simp_all add: ok_value_def)

lemma ok_value_Some [simp]: "ok_value r = Some v \<longleftrightarrow> r = Inr v"
  by (cases r) auto

lemma find_has_name:
  assumes "registry_pre es"
  shows "find (has_name name) es = find (\<lambda>e. ContextName e = name) es"
  using assms by (intro find_cong) (auto simp: registry_pre_def wf_entry_def has_name_def)

lemma distinct_filter_map_eq:
  assumes "distinct (filter P (map f xs))" "x \<in> set xs" "y \<in> set xs" "f x = f y" "P (f x)"
  shows "x = y"
  using assms by (induction xs) (auto split: if_splits, metis imageI)

lemma lookupName_owner:
  assumes "registry_pre es" and "name \<noteq> []"
  shows "lookupName name es = Some r \<longleftrightarrow> owner (reg_map es) name r"
proof
  assume "lookupName name es = Some r"
  then obtain e where "find (\<lambda>e. ContextName e = name) es = Some e" "RootPath e = r"
    by (auto simp: lookupName_def find_has_name [OF assms(1)])
  then have "e \<in> set es" "ContextName e = name" by (auto simp: find_Some_iff)
  with \<open>RootPath e = r\<close> show "owner (reg_map es) name r" by (auto simp: owner_def reg_map_iff [OF assms(1)])
next
  assume "owner (reg_map es) name r"
  then obtain e where e: "e \<in> set es" "RootPath e = r" "ContextName e = name"
    by (auto simp: owner_def reg_map_iff [OF assms(1)])
  then obtain d where d: "find (\<lambda>e. ContextName e = name) es = Some d"
    by (metis (mono_tags) find_None_iff not_None_eq)
  then have "d \<in> set es" "ContextName d = name" by (auto simp: find_Some_iff)
  with e assms have "d = e"
    using distinct_filter_map_eq [of "\<lambda>n. n \<noteq> []" ContextName es d e]
    by (simp add: registry_pre_def names_def)
  with d e show "lookupName name es = Some r" by (simp add: lookupName_def find_has_name [OF assms(1)])
qed

lemma owner_unique:
  assumes "registry_pre es" and "name \<noteq> []" and "owner (reg_map es) name r" and "owner (reg_map es) name q"
  shows "r = q"
  using assms(3,4) lookupName_owner [OF assms(1,2)] by (metis option.inject)

lemma owner_set_map:
  "owner (set_map root name n m) name' r \<longleftrightarrow> (if r = root then name' = name else owner m name' r)"
  by (auto simp: owner_def set_map_def fresh_entry_def split: option.splits)

definition bindName :: "int \<Rightarrow> string \<Rightarrow> string \<Rightarrow> reg_entry list \<Rightarrow> reg_entry list option" where
  "bindName t name root es = ok_value (setNameEntries root name t es)"

definition unbindName :: "string \<Rightarrow> reg_entry list \<Rightarrow> reg_entry list option" where
  "unbindName name es = map_option snd (ok_value (removeEntries name es))"

lemma bindName_map:
  assumes "registry_inv es" and "stored_ok t name root"
  shows "bindName t name root es = None \<longleftrightarrow> (\<exists>r. owner (reg_map es) name r \<and> r \<noteq> root)"
    and "bindName t name root es = Some es' \<Longrightarrow> reg_map es' = set_map root name t (reg_map es)"
  using setNameEntries_map [of es t root name] assms
  by (auto simp: bindName_def stored_ok_def registry_inv_def split: if_splits)

lemma find_index_conv_find: "map_option ((!) xs) (find_index P xs) = find P xs"
  by (induction xs) (auto simp: option.map_comp comp_def)

lemma unbindName_split:
  assumes "registry_inv es" and "unbindName name es = Some es'"
  obtains e where "reg_map es' = (reg_map es)(RootPath e := None)" and "ContextName e = name"
    and "e \<in> set es" and "registry_inv es'"
proof -
  from assms(2) obtain r where rm: "removeEntries name es = Inr (r, es')" by (auto simp: unbindName_def)
  then obtain i where f: "find_index (has_name name) es = Some i" and es': "es' = take i es @ drop (Suc i) es"
    by (auto simp: removeEntries_def split: option.splits)
  note i = find_index_SomeD [OF f]
  have pre: "registry_pre es" "registry_pre es'"
    using assms(1) removeEntries_inv [OF assms(1) rm] by (simp_all add: registry_inv_def)
  have s: "es = take i es @ es ! i # drop (Suc i) es" using i(1) by (rule id_take_nth_drop)
  have d: "distinct (map RootPath (take i es @ es ! i # drop (Suc i) es))"
    using pre(1) s by (simp add: registry_pre_def)
  have "e \<in> set es' \<longleftrightarrow> e \<in> set es \<and> RootPath e \<noteq> RootPath (es ! i)" for e
    unfolding es' by (subst (3) s) (use d in \<open>auto simp: image_iff\<close>)
  then have "reg_map es' k = Some e \<longleftrightarrow> ((reg_map es)(RootPath (es ! i) := None)) k = Some e" for k e
    using reg_map_iff [OF pre(1)] reg_map_iff [OF pre(2)] by auto
  then have "reg_map es' = (reg_map es)(RootPath (es ! i) := None)" by (metis not_None_eq ext)
  moreover have "ContextName (es ! i) = name"
    using i wf_nth [OF pre(1) i(1)] by (simp add: has_name_def wf_entry_def)
  ultimately show ?thesis using that i(1) removeEntries_inv [OF assms(1) rm] by simp
qed

lemma lookupName_unbind:
  assumes inv: "registry_inv s" and u: "unbindName n s = Some s'" and ne: "n \<noteq> []" "m \<noteq> []"
  shows "lookupName m s' = (if m = n then None else lookupName m s)"
proof -
  have pre: "registry_pre s" using inv by (simp add: registry_inv_def)
  obtain e where e: "reg_map s' = (reg_map s)(RootPath e := None)" "ContextName e = n" "e \<in> set s"
      "registry_inv s'" using unbindName_split [OF inv u] .
  have o: "owner (reg_map s) n (RootPath e)" using e(2,3) by (auto simp: owner_def reg_map_iff [OF pre])
  have u: "x = RootPath e" if "owner (reg_map s) n x" for x
    using owner_unique [OF pre ne(1) that o] .
  have v: "m = n" if "owner (reg_map s) m (RootPath e)"
    using that o by (auto simp: owner_def)
  have w: "owner (reg_map s') m x \<longleftrightarrow> x \<noteq> RootPath e \<and> owner (reg_map s) m x" for x
    by (auto simp: e(1) owner_def)
  have "registry_pre s'" using e(4) by (simp add: registry_inv_def)
  note l = lookupName_owner [OF this ne(2)] lookupName_owner [OF pre ne(2)]
  have "lookupName m s' = Some x \<longleftrightarrow> (if m = n then None else lookupName m s) = Some x" for x
    using u v l w by (cases "m = n") auto
  then show ?thesis by (metis not_None_eq)
qed

lemma lookupName_bind:
  assumes inv: "registry_inv s" and ok: "stored_ok t n r" and ne: "m \<noteq> []"
    and b: "bindName t n r s = Some s'" and inv': "registry_inv s'"
  shows "lookupName m s' = (if m = n then Some r else if lookupName m s = Some r then None else lookupName m s)"
proof -
  have pre: "registry_pre s" using inv by (simp add: registry_inv_def)
  have free: "\<not> (\<exists>x. owner (reg_map s) n x \<and> x \<noteq> r)" using bindName_map(1) [OF inv ok] b by simp
  have "lookupName m s' = Some x \<longleftrightarrow>
      (if m = n then Some r else if lookupName m s = Some r then None else lookupName m s) = Some x" for x
    using lookupName_owner [OF pre ne] owner_unique [OF pre ne] inv' ne free bindName_map(2) [OF inv ok b]
    by (auto simp: lookupName_owner registry_inv_def owner_set_map)
  then show ?thesis by (metis not_None_eq)
qed

lemma unbindName_None: "unbindName n s = None \<longleftrightarrow> lookupName n s = None"
  by (auto simp: unbindName_def removeEntries_def lookupName_def find_index_conv_find [symmetric]
      split: option.splits)

interpretation registry_names: naming registry_inv "stored_ok t" "bindName t" unbindName lookupName for t
proof
  fix s n r s' m q
  assume inv: "registry_inv s"
  then have pre: "registry_pre s" by (simp add: registry_inv_def)
  show "registry_inv s'" if "unbindName n s = Some s'" using inv that by (auto elim: unbindName_split)
  show inv': "registry_inv s'" if "stored_ok t n r" "bindName t n r s = Some s'"
    using that pre by (auto simp: bindName_def stored_ok_def intro: setNameEntries_inv)
  show "bindName t n r s = None \<longleftrightarrow> (\<exists>q. lookupName n s = Some q \<and> q \<noteq> r)" if "stored_ok t n r"
    using bindName_map(1) [OF inv that] that by (simp add: lookupName_owner [OF pre] stored_ok_def)
  show "unbindName n s = None \<longleftrightarrow> lookupName n s = None" by (rule unbindName_None)
  show "lookupName m s' = (if m = n then Some r else if lookupName m s = Some r then None else lookupName m s)"
    if "stored_ok t n r" "stored_ok t m q" "bindName t n r s = Some s'"
    using lookupName_bind [OF inv that(1) _ that(3) inv' [OF that(1,3)]] that(2) by (simp add: stored_ok_def)
  show "lookupName m s' = (if m = n then None else lookupName m s)"
    if "stored_ok t n r" "stored_ok t m q" "unbindName n s = Some s'"
    using lookupName_unbind [OF inv that(3)] that(1,2) by (simp add: stored_ok_def)
qed

subsection \<open>Operations on the stored registry\<close>

lemma SetContextName_ok:
  assumes "reg_ok p w" and "SetContextName root name now w = (None, w')"
  obtains r es es' where "cleanAbs w root = Inr r" and "TrimSpace name \<noteq> []" and "Load p w = Inr es"
    and "setNameEntries r (TrimSpace name) (nowUnix now w) es = Inr es'" and "writeAtomic p es' w = (None, w')"
proof -
  have "RegistryPath w = Inr p" using assms(1) by (simp add: reg_ok_def)
  with assms(2) that show ?thesis by (auto simp: SetContextName_def Let_def split: sum.splits if_splits)
qed

text \<open>After a successful write the next operation reads what was written.\<close>

lemma after_write:
  assumes "reg_ok p w" and "writeAtomic p es w = (None, w')" and "registry_inv es"
    and "\<not> fails w (SRead (comps p))"
  shows "RegistryPath w' = Inr p" and "Load p w' = Inr es"
proof -
  have ok: "env_ok w" "RegistryPath w = Inr p" using assms(1) by (simp_all add: reg_ok_def)
  show "RegistryPath w' = Inr p" using ok(2) RegistryPath_env [OF writeAtomic_env(1-3) [OF assms(2)]] by simp
  show "Load p w' = Inr es"
    using Load_after_write [OF assms(2) ok(2,1)] assms(3,4) by (simp add: registry_inv_def registry_pre_def)
qed

lemma Resolve_lookup:
  assumes "RegistryPath w = Inr p" and "Load p w = Inr es" and "TrimSpace name \<noteq> []"
  shows "ResolveRootByContextName name w = Inr (lookupName (TrimSpace name) es)"
  using assms by (simp add: ResolveRootByContextName_def lookupName_def)

lemma find_root:
  assumes "registry_pre es"
  shows "find (\<lambda>e. RootPath e = root) es = reg_map es root"
  using root_index [OF assms] by (simp add: find_index_conv_find)

lemma renameEntries_ok:
  assumes inv: "registry_inv es" and r: "renameEntries old new t es = Inr (i, es')"
    and ok: "in_int64 t" "TrimSpace new = new" "valid_utf8 new" and ne: "old \<noteq> []" "new \<noteq> []" "old \<noteq> new"
  shows "lookupName old es = Some (RootPath (es' ! i))" and "lookupName new es' = Some (RootPath (es' ! i))"
    and "lookupName old es' = None"
proof -
  let ?y = "bumpUsed t ((es ! i)\<lparr>ContextName := new\<rparr>)"
  have pre: "registry_pre es" and srt: "sorted (map RootPath es)" using inv by (simp_all add: registry_inv_def)
  have pre': "registry_pre es'" using renameEntries_inv [OF pre ok r] by (simp add: registry_inv_def)
  from r have f: "find_index (has_name old) es = Some i" and es': "es' = sortEntries (es[i := ?y])"
    by (auto simp: renameEntries_def split: option.splits if_splits)
  note i = find_index_SomeD [OF f]
  have "map RootPath (es[i := ?y]) = map RootPath es" using i(1) by (rule map_update_same) simp
  with srt have same: "es' = es[i := ?y]" unfolding es' sortEntries_def by (simp add: sort_key_id_if_sorted del: map_update)
  then have at: "es' ! i = ?y" using i(1) by simp
  have m: "reg_map es' = (reg_map es)(RootPath (es ! i) \<mapsto> ?y)"
    using reg_map_update [OF i(1), of ?y] pre same by (simp add: registry_pre_def)
  show old: "lookupName old es = Some (RootPath (es' ! i))"
    using f unfolding lookupName_def find_index_conv_find [symmetric] by (simp add: at)
  then have o: "owner (reg_map es) old (RootPath (es ! i))" using lookupName_owner [OF pre ne(1)] by (simp add: at)
  show "lookupName new es' = Some (RootPath (es' ! i))"
    by (simp add: lookupName_owner [OF pre' ne(2)] owner_def m at)
  have "lookupName old es' \<noteq> Some x" for x
    using owner_unique [OF pre ne(1) o, of x] ne(3)
    by (auto simp: lookupName_owner [OF pre' ne(1)] owner_def m)
  then show "lookupName old es' = None" by (cases "lookupName old es'") auto
qed

subsection \<open>Properties\<close>

text \<open>
  C4: start without a registry file and run any sequence of \<open>Touch\<close>, \<open>SetContextName\<close>,
  \<open>RenameContextName\<close> and \<open>RemoveContextName\<close>, with any system calls failing and the outside world
  interfering with any other file. The file is then always decodable, its roots and its context names
  are unique, and it is sorted by root.
\<close>

theorem registry_reachable:
  assumes "env_ok w0" and "RegistryPath w0 = Inr p" and "files w0 (comps p) = None"
    and "(reg_step p)\<^sup>*\<^sup>* w0 w"
  shows "\<exists>es. storedEntries p w = Some es \<and> registry_inv es"
proof -
  have "reg_ok p w"
    using assms(4) reg_ok_init [OF assms(1-3)] by (induction rule: rtranclp_induct) (auto intro: reg_step_ok)
  then show ?thesis by (auto simp: reg_ok_def split: option.splits)
qed

theorem registry_reachable_witness:
  "\<exists>es. storedEntries ''/h/.kra/state/root-registry.json''
      (snd (SetContextName ''/r'' ''dev'' 5 demo_world)) = Some es \<and> registry_inv es"
proof (rule registry_reachable)
  show "env_ok demo_world" by code_simp
  show "RegistryPath demo_world = Inr ''/h/.kra/state/root-registry.json''" by code_simp
  show "files demo_world (comps ''/h/.kra/state/root-registry.json'') = None" by code_simp
  have "time_ok demo_world 5" "root_ok demo_world ''/r''" "valid_utf8 (TrimSpace ''dev'')" by code_simp+
  then show "(reg_step ''/h/.kra/state/root-registry.json'')\<^sup>*\<^sup>* demo_world
      (snd (SetContextName ''/r'' ''dev'' 5 demo_world))"
    by (intro r_into_rtranclp reg_step.set_name)
qed

text \<open>
  C9: the list operations of \<open>Touch\<close> and \<open>SetContextName\<close> implement updates of the map from roots to
  entries, and \<open>SetContextName\<close> refuses exactly the names another root has.
\<close>

theorem registry_refines_map:
  assumes "registry_inv es" and "in_int64 n" and "valid_utf8 root" and "TrimSpace name = name"
    and "valid_utf8 name"
  shows "reg_map (touchEntries root n es) = touch_map root n (reg_map es) \<and>
    (if \<exists>r. owner (reg_map es) name r \<and> r \<noteq> root
     then setNameEntries root name n es = Inl (ContextNameExists name)
     else \<exists>es'. setNameEntries root name n es = Inr es' \<and> reg_map es' = set_map root name n (reg_map es))"
proof
  have pre: "registry_pre es" using assms(1) by (simp add: registry_inv_def)
  show "reg_map (touchEntries root n es) = touch_map root n (reg_map es)"
    using pre assms(2,3) by (rule touchEntries_map)
  show "if \<exists>r. owner (reg_map es) name r \<and> r \<noteq> root
     then setNameEntries root name n es = Inl (ContextNameExists name)
     else \<exists>es'. setNameEntries root name n es = Inr es' \<and> reg_map es' = set_map root name n (reg_map es)"
    using pre assms(2-5) by (rule setNameEntries_map)
qed

theorem registry_refines_map_witness:
  "reg_map (touchEntries ''/r'' 5 []) = touch_map ''/r'' 5 (reg_map [])"
proof -
  have "registry_inv []" by (simp add: registry_inv_def registry_pre_def names_def)
  moreover have "in_int64 5" "valid_utf8 ''/r''" "TrimSpace ''dev'' = ''dev''" "valid_utf8 ''dev''" by code_simp+
  ultimately show ?thesis by (rule registry_refines_map [THEN conjunct1])
qed

text \<open>
  after a successful \<open>SetContextName\<close> the name resolves to the root and the root to the name.
\<close>

theorem set_then_resolve:
  assumes "reg_ok p w" and "time_ok w now" and "root_ok w root" and "valid_utf8 (TrimSpace name)"
    and "\<not> fails w (SRead (comps p))" and "SetContextName root name now w = (None, w')"
  shows "\<exists>r. cleanAbs w root = Inr r \<and> ResolveRootByContextName name w' = Inr (Some r)
    \<and> ResolveContextNameByRoot root w' = Inr (Some (TrimSpace name))"
proof -
  obtain r es es' where r: "cleanAbs w root = Inr r" and ne: "TrimSpace name \<noteq> []" and l: "Load p w = Inr es"
    and s: "setNameEntries r (TrimSpace name) (nowUnix now w) es = Inr es'" and wr: "writeAtomic p es' w = (None, w')"
    using SetContextName_ok [OF assms(1,6)] .
  have inv: "registry_inv es" using reg_ok_Load [OF assms(1) l] by simp
  have ok: "stored_ok (nowUnix now w) (TrimSpace name) r"
    using assms ne r by (simp add: stored_ok_def TrimSpace_idem time_ok_def root_ok_def)
  have b: "bindName (nowUnix now w) (TrimSpace name) r es = Some es'" using s by (simp add: bindName_def)
  have inv': "registry_inv es'" by (rule registry_names.bind_inv [OF inv ok b])
  note a = after_write [OF assms(1) wr inv' assms(5)]
  have "lookupName (TrimSpace name) es' = Some r" using registry_names.bind_lookup [OF inv ok ok b] by simp
  then have "ResolveRootByContextName name w' = Inr (Some r)" using Resolve_lookup [OF a ne] by simp
  moreover have pre': "registry_pre es'" using inv' by (simp add: registry_inv_def)
  have "ResolveContextNameByRoot root w' = Inr (Some (TrimSpace name))"
    using r a ne bindName_map(2) [OF inv ok b] find_root [OF pre', of r] cleanAbs_env [OF writeAtomic_env(1) [OF wr]]
    by (auto simp: ResolveContextNameByRoot_def set_map_def fresh_entry_def TrimSpace_idem split: option.splits)
  ultimately show ?thesis using r by simp
qed

definition demo_registry :: string where
  "demo_registry = ''/h/.kra/state/root-registry.json''"

lemma demo_reg_ok: "reg_ok demo_registry demo_world" "RegistryPath demo_world = Inr demo_registry"
proof -
  show "RegistryPath demo_world = Inr demo_registry" by code_simp
  then show "reg_ok demo_registry demo_world" by (intro reg_ok_init) (code_simp+)
qed

lemma demo_args: "time_ok demo_world 5" "root_ok demo_world ''/r''" "valid_utf8 (TrimSpace ''dev'')"
    "\<not> fails demo_world (SRead (comps demo_registry))"
  by code_simp+

theorem set_then_resolve_witness:
  "ResolveRootByContextName ''dev'' (snd (SetContextName ''/r'' ''dev'' 5 demo_world)) = Inr (Some ''/r'')"
proof -
  have "fst (SetContextName ''/r'' ''dev'' 5 demo_world) = None" by code_simp
  then have "SetContextName ''/r'' ''dev'' 5 demo_world = (None, snd (SetContextName ''/r'' ''dev'' 5 demo_world))"
    by (metis prod.collapse)
  moreover have "cleanAbs demo_world ''/r'' = Inr ''/r''" by code_simp
  ultimately show ?thesis using set_then_resolve [OF demo_reg_ok(1) demo_args] by auto
qed

text \<open>
  A context name that another root has is refused: \<open>SetContextName\<close> returns the error and changes
  nothing.
\<close>

theorem set_name_conflict:
  assumes "reg_ok p w" and "time_ok w now" and "root_ok w root" and "valid_utf8 (TrimSpace name)"
    and "cleanAbs w root = Inr r" and "ResolveRootByContextName name w = Inr (Some q)" and "q \<noteq> r"
  shows "SetContextName root name now w = (Some (ContextNameExists (TrimSpace name)), w)"
proof -
  have p: "RegistryPath w = Inr p" using assms(1) by (simp add: reg_ok_def)
  have ne: "TrimSpace name \<noteq> []" using assms(6) by (auto simp: ResolveRootByContextName_def Let_def split: if_splits)
  obtain es where l: "Load p w = Inr es"
    using assms(6) p ne by (auto simp: ResolveRootByContextName_def bindR_Inr_iff Let_def)
  have inv: "registry_inv es" using reg_ok_Load [OF assms(1) l] by simp
  have ok: "stored_ok (nowUnix now w) (TrimSpace name) r"
    using assms ne by (simp add: stored_ok_def TrimSpace_idem time_ok_def root_ok_def)
  have "lookupName (TrimSpace name) es = Some q" using Resolve_lookup [OF p l ne] assms(6) by simp
  then have "bindName (nowUnix now w) (TrimSpace name) r es = None"
    using registry_names.bind_refused [OF inv ok] assms(7) by blast
  then have "setNameEntries r (TrimSpace name) (nowUnix now w) es = Inl (ContextNameExists (TrimSpace name))"
    by (auto simp: bindName_def setNameEntries_def Let_def split: if_splits)
  then show ?thesis using p l ne assms(5) by (simp add: SetContextName_def)
qed

definition demo_named :: world where
  "demo_named = snd (SetContextName ''/r'' ''dev'' 5 demo_world)"

lemma demo_named_ok: "reg_ok demo_registry demo_named"
  unfolding demo_named_def by (rule SetContextName_reg_ok [OF demo_reg_ok(1) demo_args(1-3)])

lemma demo_named_args: "time_ok demo_named 6" "root_ok demo_named ''/q''" "valid_utf8 (TrimSpace ''dev'')"
    "cleanAbs demo_named ''/q'' = Inr ''/q''"
    "ResolveRootByContextName ''dev'' demo_named = Inr (Some ''/r'')"
    "valid_utf8 (TrimSpace ''ops'')" "\<not> fails demo_named (SRead (comps demo_registry))"
  by code_simp+

theorem set_name_conflict_witness:
  "SetContextName ''/q'' ''dev'' 6 demo_named = (Some (ContextNameExists (TrimSpace ''dev'')), demo_named)"
  by (rule set_name_conflict [OF demo_named_ok demo_named_args(1-5)]) simp

text \<open>
  \<open>RenameContextName\<close> on a registry the program wrote: the root it returns is the one the old name
  resolved to, the new name resolves to it afterwards and the old one to nothing.
\<close>

theorem rename_returns_root:
  assumes "reg_ok p w" and "time_ok w now" and "valid_utf8 (TrimSpace new)"
    and "\<not> fails w (SRead (comps p))" and "RenameContextName old new now w = (Inr r, w')"
  shows "ResolveRootByContextName old w = Inr (Some r) \<and> ResolveRootByContextName new w' = Inr (Some r)
    \<and> ResolveRootByContextName old w' = Inr None"
proof -
  have p: "RegistryPath w = Inr p" using assms(1) by (simp add: reg_ok_def)
  obtain es i es' where l: "Load p w = Inr es" and r: "r = RootPath (es' ! i)"
    and rn: "renameEntries (TrimSpace old) (TrimSpace new) (nowUnix now w) es = Inr (i, es')"
    and wr: "writeAtomic p es' w = (None, w')"
    and ne: "TrimSpace old \<noteq> []" "TrimSpace new \<noteq> []" "TrimSpace old \<noteq> TrimSpace new"
    using assms(5) p by (auto simp: RenameContextName_def Let_def split: sum.splits if_splits prod.splits option.splits)
  have inv: "registry_inv es" using reg_ok_Load [OF assms(1) l] by simp
  have t: "in_int64 (nowUnix now w)" using assms(2) by (simp add: time_ok_def)
  have inv': "registry_inv es'"
    using renameEntries_inv [OF _ t TrimSpace_idem assms(3) rn] inv by (simp add: registry_inv_def)
  note a = after_write [OF assms(1) wr inv' assms(4)]
  note k = renameEntries_ok [OF inv rn t TrimSpace_idem assms(3) ne]
  show ?thesis
    using Resolve_lookup [OF p l ne(1)] Resolve_lookup [OF a ne(2)] Resolve_lookup [OF a ne(1)] k r by simp
qed

theorem rename_returns_root_witness:
  "ResolveRootByContextName ''ops'' (snd (RenameContextName ''dev'' ''ops'' 6 demo_named)) = Inr (Some ''/r'')"
proof -
  have "fst (RenameContextName ''dev'' ''ops'' 6 demo_named) = Inr ''/r''" by code_simp
  then have "RenameContextName ''dev'' ''ops'' 6 demo_named
      = (Inr ''/r'', snd (RenameContextName ''dev'' ''ops'' 6 demo_named))" by (metis prod.collapse)
  from rename_returns_root [OF demo_named_ok demo_named_args(1,6,7) this] show ?thesis by simp
qed

definition demo_unsorted :: "reg_entry list" where
  "demo_unsorted = [\<lparr>ContextName = ''b'', RootPath = ''/b'', FirstSeenAt = 1, LastUsedAt = 1\<rparr>,
     \<lparr>ContextName = ''a'', RootPath = ''/a'', FirstSeenAt = 1, LastUsedAt = 1\<rparr>]"

definition unsorted_world :: world where
  "unsorted_world = demo_world\<lparr>files := (files demo_world)([''h'', ''.kra''] \<mapsto> DirN,
     [''h'', ''.kra'', ''state''] \<mapsto> DirN, comps demo_registry \<mapsto> FileN (renderRegistry demo_unsorted))\<rparr>"

lemma demo_write_ok: "fst (writeAtomic demo_registry es unsorted_world) = None"
proof -
  have k: "comps demo_registry = [''h'', ''.kra'', ''state'', ''root-registry.json'']"
      "comps (Dir demo_registry) = [''h'', ''.kra'', ''state'']" by code_simp+
  have "fst (atomicReplace True ''.registry-'' ''.tmp'' [''h'', ''.kra'', ''state'']
      [''h'', ''.kra'', ''state'', ''root-registry.json''] (renderRegistry es) unsorted_world) = None"
    by (rule atomicReplace_succeeds)
      (simp_all add: unsorted_world_def demo_world_def k below_file_def tempKey_def)
  then show ?thesis by (auto simp: writeAtomic_def k split: prod.splits)
qed

text \<open>
  C32: on a registry file that is not sorted by root (edited by hand, say), \<open>RenameContextName\<close> renames
  the right entry but returns another root: it reads the old index after sorting.
\<close>

theorem rename_wrong_root:
  "\<exists>w w'. storedEntries demo_registry w = Some demo_unsorted
     \<and> RenameContextName ''b'' ''c'' 5 w = (Inr ''/a'', w')
     \<and> ResolveRootByContextName ''c'' w' = Inr (Some ''/b'')"
proof -
  let ?es' = "[\<lparr>ContextName = ''a'', RootPath = ''/a'', FirstSeenAt = 1, LastUsedAt = 1\<rparr>,
     \<lparr>ContextName = ''c'', RootPath = ''/b'', FirstSeenAt = 1, LastUsedAt = 5\<rparr>]"
  have wf: "\<forall>e\<in>set demo_unsorted. wf_entry e" "\<forall>e\<in>set ?es'. wf_entry e" by code_simp+
  have st: "storedEntries demo_registry unsorted_world = Some demo_unsorted"
    by (rule storedEntries_render [OF _ wf(1)]) (simp add: unsorted_world_def)
  have env: "env_ok unsorted_world" "RegistryPath unsorted_world = Inr demo_registry"
    "TrimSpace demo_registry = demo_registry" "demo_registry \<noteq> []" by code_simp+
  have nf: "\<not> fails unsorted_world x" for x by (simp add: unsorted_world_def demo_world_def)
  have l: "Load demo_registry unsorted_world = Inr demo_unsorted"
    using st env(3,4) nf by (rule Load_ok) (simp add: unsorted_world_def)
  have rn: "renameEntries ''b'' ''c'' (nowUnix 5 unsorted_world) demo_unsorted = Inr (0, ?es')" by code_simp
  obtain r w' where w: "writeAtomic demo_registry ?es' unsorted_world = (r, w')" by fastforce
  have "r = None" using w demo_write_ok by (metis fst_conv)
  note w = w [unfolded this]
  have tr: "TrimSpace ''b'' = ''b''" "TrimSpace ''c'' = ''c''" by code_simp+
  have "RenameContextName ''b'' ''c'' 5 unsorted_world = (Inr ''/a'', w')"
    using env l rn w by (simp add: RenameContextName_def tr)
  moreover have "RegistryPath w' = Inr demo_registry"
    using env(2) RegistryPath_env [OF writeAtomic_env(1-3) [OF w]] by simp
  then have "ResolveRootByContextName ''c'' w' = Inr (lookupName ''c'' ?es')"
    using Resolve_lookup [OF _ Load_after_write [OF w env(2,1) wf(2) nf], of "''c''"] by (simp add: tr)
  moreover have "lookupName ''c'' ?es' = Some ''/b''" by code_simp
  ultimately show ?thesis using st by auto
qed

text \<open>
  \<open>RemoveContextName\<close> returns the root the name resolved to; afterwards the name resolves to
  nothing and every other name resolves as before.
\<close>

theorem remove_then_unresolved:
  assumes "reg_ok p w" and "\<not> fails w (SRead (comps p))" and "RemoveContextName name w = (Inr r, w')"
    and "TrimSpace other \<noteq> []" and "TrimSpace other \<noteq> TrimSpace name"
  shows "ResolveRootByContextName name w = Inr (Some r) \<and> ResolveRootByContextName name w' = Inr None
    \<and> ResolveRootByContextName other w' = ResolveRootByContextName other w"
proof -
  have p: "RegistryPath w = Inr p" using assms(1) by (simp add: reg_ok_def)
  obtain es es' where l: "Load p w = Inr es" and rm: "removeEntries (TrimSpace name) es = Inr (r, es')"
    and wr: "writeAtomic p es' w = (None, w')" and ne: "TrimSpace name \<noteq> []"
    using assms(3) p by (auto simp: RemoveContextName_def Let_def split: sum.splits if_splits prod.splits option.splits)
  have inv: "registry_inv es" using reg_ok_Load [OF assms(1) l] by simp
  have u: "unbindName (TrimSpace name) es = Some es'" using rm by (simp add: unbindName_def)
  have inv': "registry_inv es'" by (rule registry_names.unbind_inv [OF inv u])
  note a = after_write [OF assms(1) wr inv' assms(2)]
  have "lookupName (TrimSpace name) es = Some r"
    using rm by (auto simp: removeEntries_def lookupName_def find_index_conv_find [symmetric] split: option.splits)
  then have "ResolveRootByContextName name w = Inr (Some r)" using Resolve_lookup [OF p l ne] by simp
  moreover have "ResolveRootByContextName name w' = Inr None"
    using Resolve_lookup [OF a ne] lookupName_unbind [OF inv u ne ne] by simp
  moreover have "ResolveRootByContextName other w' = ResolveRootByContextName other w"
    using Resolve_lookup [OF a assms(4)] Resolve_lookup [OF p l assms(4)]
      lookupName_unbind [OF inv u ne assms(4)] assms(5) by simp
  ultimately show ?thesis by simp
qed

theorem remove_then_unresolved_witness:
  "ResolveRootByContextName ''dev'' (snd (RemoveContextName ''dev'' demo_named)) = Inr None"
proof -
  have "fst (RemoveContextName ''dev'' demo_named) = Inr ''/r''" by code_simp
  then have "RemoveContextName ''dev'' demo_named = (Inr ''/r'', snd (RemoveContextName ''dev'' demo_named))"
    by (metis prod.collapse)
  moreover have "TrimSpace ''ops'' \<noteq> []" "TrimSpace ''ops'' \<noteq> TrimSpace ''dev''" by code_simp+
  ultimately show ?thesis using remove_then_unresolved [OF demo_named_ok demo_named_args(7)] by blast
qed

text \<open>
  C19: crash safety of the registry write. Interrupt \<open>writeAtomic\<close> between any two system calls: the
  file decodes to the old entries or to the new ones, never to anything else, and its own result is one
  of those states.
\<close>

theorem registry_crash_safe:
  assumes "RegistryPath w = Inr p" and "env_ok w" and "\<forall>e\<in>set es. wf_entry e"
    and "(replace_step (comps (Dir p)) (tempKey (comps (Dir p)) ''.registry-'' ''.tmp'' (rand w)) (comps p)
           (renderRegistry es))\<^sup>*\<^sup>* (PMkdir, files w) (c, F)"
    and "writeAtomic p es w = (r, w')"
  shows "storedEntries p (w\<lparr>files := F\<rparr>) = (if c = PDone True then Some es else storedEntries p w)
    \<and> (replace_step (comps (Dir p)) (tempKey (comps (Dir p)) ''.registry-'' ''.tmp'' (rand w)) (comps p)
        (renderRegistry es))\<^sup>*\<^sup>* (PMkdir, files w) (PDone (r = None), files w')"
proof
  note sh = RegistryPath_shape(1) [OF assms(1,2)]
  have t: "tempKey (comps (Dir p)) ''.registry-'' ''.tmp'' (rand w) \<noteq> comps p"
    unfolding sh by (rule tempKey_neq) simp
  have "\<not> prefix (comps p) (comps (Dir p))" by (subst sh) (simp add: prefix_def)
  note inv = replace_reach_inv [OF assms(4) t this]
  show "storedEntries p (w\<lparr>files := F\<rparr>) = (if c = PDone True then Some es else storedEntries p w)"
  proof (cases "c = PDone True")
    case True
    with inv have "files (w\<lparr>files := F\<rparr>) (comps p) = Some (FileN (renderRegistry es))"
      by (simp add: replace_inv_def)
    from storedEntries_render [OF this assms(3)] True show ?thesis by simp
  next
    case False
    with inv show ?thesis by (simp add: replace_inv_def storedEntries_def)
  qed
  obtain e where "r = map_option RegistryWriteErr e" and
    "atomicReplace True ''.registry-'' ''.tmp'' (comps (Dir p)) (comps p) (renderRegistry es) w = (e, w')"
    using assms(5) by (auto simp: writeAtomic_def split: prod.splits)
  with atomicReplace_run show "(replace_step (comps (Dir p)) (tempKey (comps (Dir p)) ''.registry-'' ''.tmp'' (rand w))
      (comps p) (renderRegistry es))\<^sup>*\<^sup>* (PMkdir, files w) (PDone (r = None), files w')" by force
qed

theorem registry_crash_safe_witness:
  "storedEntries demo_registry (demo_world\<lparr>files := mkdirs (files demo_world) (comps (Dir demo_registry))\<rparr>)
     = storedEntries demo_registry demo_world"
proof -
  have "env_ok demo_world" by code_simp
  moreover have "\<forall>e\<in>set []. wf_entry e" by simp
  moreover have "(replace_step d t k b)\<^sup>*\<^sup>* (PMkdir, F) (PCreate, mkdirs F d)" for d t k b F
    by (intro r_into_rtranclp replace_step.mkdir)
  moreover obtain r w' where "writeAtomic demo_registry [] demo_world = (r, w')" by fastforce
  ultimately show ?thesis using registry_crash_safe [OF demo_reg_ok(2), of "[]" PCreate] by simp
qed

end
