(* ===== verification/Go_Url.thy ===== *)
theory Go_Url
  imports Go_Strings
begin

text \<open>
  What the program uses of \<open>net/url\<close>: \<open>url.Parse\<close> of an absolute URL whose scheme is followed by
  \<open>//\<close>, and of the result the host and the decoded path. \<open>None\<close> is the parse error. User information,
  query and fragment are checked as \<open>url.Parse\<close> checks them and then dropped.
\<close>

subsection \<open>Percent decoding\<close>

datatype url_mode = EncHost | EncZone | EncPath | EncUser | EncFragment

definition is_hex :: "char \<Rightarrow> bool" where
  "is_hex c \<longleftrightarrow> is_digit c \<or> (CHR ''a'' \<le> c \<and> c \<le> CHR ''f'') \<or> (CHR ''A'' \<le> c \<and> c \<le> CHR ''F'')"

definition unhex :: "char \<Rightarrow> nat" where
  "unhex c = (if is_digit c then digit_val c
              else if CHR ''a'' \<le> c \<and> c \<le> CHR ''f'' then of_char c - 87
              else if CHR ''A'' \<le> c \<and> c \<le> CHR ''F'' then of_char c - 55 else 0)"

definition is_alnum :: "char \<Rightarrow> bool" where
  "is_alnum c \<longleftrightarrow> is_digit c \<or> (CHR ''a'' \<le> c \<and> c \<le> CHR ''z'') \<or> (CHR ''A'' \<le> c \<and> c \<le> CHR ''Z'')"

text \<open>The bytes a host (or a zone) may have without escaping.\<close>

definition host_byte :: "char \<Rightarrow> bool" where
  "host_byte c \<longleftrightarrow> is_alnum c \<or> c \<in> set ''-_.~!$&()*+,;=:[]<>'' \<or> c = CHR 0x22 \<or> c = CHR 0x27"

definition url_hosty :: "url_mode \<Rightarrow> bool" where
  "url_hosty mode \<longleftrightarrow> mode = EncHost \<or> mode = EncZone"

definition escape_ok :: "url_mode \<Rightarrow> char \<Rightarrow> char \<Rightarrow> bool" where
  "escape_ok mode a b \<longleftrightarrow>
     (mode = EncHost \<longrightarrow> 8 \<le> unhex a \<or> (a = CHR ''2'' \<and> b = CHR ''5'')) \<and>
     (mode = EncZone \<longrightarrow> (a = CHR ''2'' \<and> b = CHR ''5'') \<or> unhex a * 16 + unhex b = 32
        \<or> host_byte (char_of (unhex a * 16 + unhex b)))"

fun unescape :: "url_mode \<Rightarrow> string \<Rightarrow> string option" where
  "unescape mode [] = Some []"
| "unescape mode (c # cs) =
     (if c = CHR ''%'' then
        (case cs of
           a # b # rest \<Rightarrow>
             if is_hex a \<and> is_hex b \<and> escape_ok mode a b
             then map_option (Cons (char_of (unhex a * 16 + unhex b))) (unescape mode rest)
             else None
         | _ \<Rightarrow> None)
      else if url_hosty mode \<and> (of_char c :: nat) < 128 \<and> \<not> host_byte c then None
      else map_option (Cons c) (unescape mode cs))"

lemma unescape_plain:
  "\<forall>c\<in>set s. c \<noteq> CHR ''%'' \<and> (url_hosty mode \<longrightarrow> host_byte c) \<Longrightarrow> unescape mode s = Some s"
  by (induction s) auto

subsection \<open>Cutting\<close>

text \<open>\<open>strings.Cut(s, "c")\<close>, and the last occurrence instead of the first.\<close>

definition cut :: "char \<Rightarrow> string \<Rightarrow> string \<times> string" where
  "cut c s = (takeWhile (\<lambda>x. x \<noteq> c) s, tl (dropWhile (\<lambda>x. x \<noteq> c) s))"

definition cut_last :: "char \<Rightarrow> string \<Rightarrow> string \<times> string" where
  "cut_last c s = (rev (tl (dropWhile (\<lambda>x. x \<noteq> c) (rev s))), rev (takeWhile (\<lambda>x. x \<noteq> c) (rev s)))"

lemma cut_free: "c \<notin> set s \<Longrightarrow> cut c s = (s, [])"
  by (induction s) (auto simp: cut_def)

lemma cut_split:
  assumes "c \<notin> set s"
  shows "takeWhile (\<lambda>x. x \<noteq> c) (s @ c # t) = s" "dropWhile (\<lambda>x. x \<noteq> c) (s @ c # t) = c # t"
  using assms by (induction s) auto

lemma cut_at: "c \<notin> set s \<Longrightarrow> cut c (s @ c # t) = (s, t)"
  by (induction s) (auto simp: cut_def)

subsection \<open>Authority\<close>

definition validOptionalPort :: "string \<Rightarrow> bool" where
  "validOptionalPort p = (case p of [] \<Rightarrow> True | c # ds \<Rightarrow> c = CHR '':'' \<and> list_all is_digit ds)"

fun index_sub :: "string \<Rightarrow> string \<Rightarrow> nat option" where
  "index_sub sub [] = (if sub = [] then Some 0 else None)"
| "index_sub sub (c # cs) = (if prefix sub (c # cs) then Some 0 else map_option Suc (index_sub sub cs))"

definition parseHost :: "string \<Rightarrow> string option" where
  "parseHost host =
     (if prefix ''['' host then
        (if CHR '']'' \<notin> set host then None
         else let (addr, port) = cut_last CHR '']'' host
         in if \<not> validOptionalPort port then None
         else case index_sub ''%25'' addr of
           Some z \<Rightarrow>
             Option.bind (unescape EncHost (take z addr)) (\<lambda>h1.
             Option.bind (unescape EncZone (drop z addr)) (\<lambda>h2.
             Option.bind (unescape EncHost (CHR '']'' # port)) (\<lambda>h3. Some (h1 @ h2 @ h3))))
         | None \<Rightarrow> unescape EncHost host)
      else if CHR '':'' \<in> set host \<and> \<not> validOptionalPort (CHR '':'' # snd (cut_last CHR '':'' host)) then None
      else unescape EncHost host)"

definition validUserinfo :: "string \<Rightarrow> bool" where
  "validUserinfo s = list_all (\<lambda>c. is_alnum c \<or> c \<in> set ''-._:~!$&()*+,;=%@'' \<or> c = CHR 0x27) s"

definition userOk :: "string \<Rightarrow> bool" where
  "userOk u \<longleftrightarrow> validUserinfo u \<and>
     (if CHR '':'' \<in> set u
      then unescape EncUser (fst (cut CHR '':'' u)) \<noteq> None \<and> unescape EncUser (snd (cut CHR '':'' u)) \<noteq> None
      else unescape EncUser u \<noteq> None)"

definition parseAuthority :: "string \<Rightarrow> string option" where
  "parseAuthority authority =
     (if CHR ''@'' \<in> set authority then
        (case cut_last CHR ''@'' authority of (user, host) \<Rightarrow>
           Option.bind (parseHost host) (\<lambda>h. if userOk user then Some h else None))
      else parseHost authority)"

subsection \<open>url.Parse\<close>

definition is_ctl :: "char \<Rightarrow> bool" where
  "is_ctl c \<longleftrightarrow> (of_char c :: nat) < 32 \<or> (of_char c :: nat) = 127"

text \<open>Host and path of a URL that starts with \<open>scheme://\<close>; \<open>rest\<close> is what follows the two slashes.\<close>

definition parseAfterSlashes :: "string \<Rightarrow> (string \<times> string) option" where
  "parseAfterSlashes rest =
     (case cut CHR ''#'' rest of (u, frag) \<Rightarrow>
        if list_ex is_ctl u then None
        else case cut CHR ''?'' u of (hp, _) \<Rightarrow>
          Option.bind (parseAuthority (takeWhile (\<lambda>c. c \<noteq> CHR ''/'') hp)) (\<lambda>host.
          Option.bind (unescape EncPath (dropWhile (\<lambda>c. c \<noteq> CHR ''/'') hp)) (\<lambda>path.
          if frag \<noteq> [] \<and> unescape EncFragment frag = None then None else Some (host, path))))"

text \<open>\<open>u.Hostname()\<close>: without a valid port and without brackets.\<close>

definition Hostname :: "string \<Rightarrow> string" where
  "Hostname hostPort =
     (let host = (if CHR '':'' \<in> set hostPort \<and> validOptionalPort (CHR '':'' # snd (cut_last CHR '':'' hostPort))
                  then fst (cut_last CHR '':'' hostPort) else hostPort)
      in if prefix ''['' host \<and> suffix '']'' host then butlast (tl host) else host)"

text \<open>A URL made of a plain host name and a plain path parses to these.\<close>

definition url_plain :: "string \<Rightarrow> bool" where
  "url_plain s \<longleftrightarrow> (\<forall>c\<in>set s. is_alnum c \<or> c \<in> set ''-_.~'')"

lemma url_plain_free:
  assumes "url_plain s" and "c \<in> set ''/%#?@:[]''"
  shows "c \<notin> set s"
  using assms by (auto simp: url_plain_def is_alnum_def is_digit_def less_eq_char_def)

lemma url_plain_not_ctl: "url_plain s \<Longrightarrow> \<not> list_ex is_ctl s"
  by (auto simp: url_plain_def is_alnum_def is_digit_def less_eq_char_def list_ex_iff is_ctl_def)

lemma unescape_url_plain:
  assumes "url_plain s"
  shows "unescape mode s = Some s"
  by (rule unescape_plain) (use assms url_plain_free [OF assms] in \<open>auto simp: url_plain_def host_byte_def\<close>)

lemma parseAuthority_plain: "url_plain h \<Longrightarrow> parseAuthority h = Some h"
proof -
  assume h: "url_plain h"
  note f = url_plain_free [OF h]
  have "CHR ''@'' \<notin> set h" "CHR '':'' \<notin> set h" "CHR ''['' \<notin> set h" by (rule f, simp)+
  moreover from this have "\<not> prefix ''['' h" by (cases h) auto
  ultimately show ?thesis unfolding parseAuthority_def parseHost_def by (simp add: unescape_url_plain [OF h])
qed

lemma Hostname_plain: "url_plain h \<Longrightarrow> Hostname h = h"
proof -
  assume h: "url_plain h"
  note f = url_plain_free [OF h]
  have "CHR '':'' \<notin> set h" "CHR ''['' \<notin> set h" by (rule f, simp)+
  moreover from this have "\<not> prefix ''['' h" by (cases h) auto
  ultimately show ?thesis by (simp add: Hostname_def)
qed

lemma parse_plain_url:
  assumes "url_plain h" and "\<forall>c\<in>set p. is_alnum c \<or> c \<in> set ''-_.~/''"
  shows "parseAfterSlashes (h @ CHR ''/'' # p) = Some (h, CHR ''/'' # p)"
proof -
  have f: "c \<notin> set h" if "c \<in> set ''/%#?@:[]''" for c using url_plain_free [OF assms(1) that] .
  have g: "c \<notin> set p" if "c \<in> set ''%#?''" for c
    using assms(2) that by (auto simp: is_alnum_def is_digit_def less_eq_char_def)
  have "\<not> list_ex is_ctl p"
    using assms(2) by (fastforce simp: is_alnum_def is_digit_def less_eq_char_def list_ex_iff is_ctl_def)
  moreover have "unescape EncPath (CHR ''/'' # p) = Some (CHR ''/'' # p)"
    using g by (intro unescape_plain) (auto simp: url_hosty_def)
  moreover have "takeWhile (\<lambda>c. c \<noteq> CHR ''/'') (h @ CHR ''/'' # p) = h"
      "dropWhile (\<lambda>c. c \<noteq> CHR ''/'') (h @ CHR ''/'' # p) = CHR ''/'' # p"
    using cut_split [of "CHR ''/''" h p] f [of "CHR ''/''"] by simp_all
  moreover have "cut CHR ''#'' (h @ CHR ''/'' # p) = (h @ CHR ''/'' # p, [])"
      "cut CHR ''?'' (h @ CHR ''/'' # p) = (h @ CHR ''/'' # p, [])"
    using f g by (simp_all add: cut_free)
  ultimately show ?thesis
    using url_plain_not_ctl [OF assms(1)] parseAuthority_plain [OF assms(1)]
    by (simp add: parseAfterSlashes_def is_ctl_def)
qed

end
