(* ===== verification/Repo_Spec.thy ===== *)
theory Repo_Spec
  imports Go_Url Kra_Paths
begin

text \<open>
  The pure core of repository handling: \<open>internal/core/repospec\<close> (repository specifications),
  \<open>internal/core/repostore\<close> (their place in the repo pool), \<open>internal/core/gitparse\<close> and
  \<open>internal/core/gitref\<close> (answers of git about the default branch).
\<close>

record Spec =
  Host :: string
  Owner :: string
  Repo :: string
  RepoKey :: string

datatype spec_error =
    SpecEmpty | InvalidSSH | InvalidHTTPS | InvalidFile | FileTooShort | UnknownScheme
  | HostRequired | RepoPathEmpty | NotOwnerRepo | OwnerRepoEmpty

definition splitOwnerRepo :: "string \<Rightarrow> spec_error + string \<times> string" where
  "splitOwnerRepo path =
     (let trimmed = trimByte slash path
      in if trimmed = [] then Inl RepoPathEmpty
         else case split_on slash trimmed of
           [owner, r] \<Rightarrow>
             (let repo = TrimSuffix r ''.git''
              in if owner = [] \<or> repo = [] then Inl OwnerRepoEmpty else Inr (owner, repo))
         | _ \<Rightarrow> Inl NotOwnerRepo)"

text \<open>The host and the repository path of a specification, by its form.\<close>

definition hostAndPath :: "string \<Rightarrow> spec_error + string \<times> string" where
  "hostAndPath trimmed =
     (if prefix ''git@'' trimmed then
        (case (indexByte CHR ''@'' trimmed, indexByte CHR '':'' trimmed) of
           (Some at, Some colon) \<Rightarrow>
             if colon < at then Inl InvalidSSH
             else Inr (take (colon - (at + 1)) (drop (at + 1) trimmed), drop (colon + 1) trimmed)
         | _ \<Rightarrow> Inl InvalidSSH)
      else if prefix ''https://'' trimmed then
        (case parseAfterSlashes (drop (length ''https://'') trimmed) of
           None \<Rightarrow> Inl InvalidHTTPS
         | Some (h, p) \<Rightarrow> Inr (Hostname h, TrimPrefix p ''/''))
      else if prefix ''file://'' trimmed then
        (case parseAfterSlashes (drop (length ''file://'') trimmed) of
           None \<Rightarrow> Inl InvalidFile
         | Some (h, p) \<Rightarrow>
             (let parts = split_on slash (trimByte slash p); n = length parts
              in if n < 3 then Inl FileTooShort
                 else Inr (parts ! (n - 3), parts ! (n - 2) @ ''/'' @ parts ! (n - 1))))
      else Inl UnknownScheme)"

definition mkSpec :: "string \<Rightarrow> string \<Rightarrow> string \<Rightarrow> Spec" where
  "mkSpec h o' r = \<lparr>Host = h, Owner = o', Repo = r, RepoKey = h @ ''/'' @ o' @ ''/'' @ r\<rparr>"

definition Normalize :: "string \<Rightarrow> spec_error + Spec" where
  "Normalize input =
     (let trimmed = TrimSpace input
      in if trimmed = [] then Inl SpecEmpty
         else bindR (hostAndPath trimmed) (\<lambda>(host, path).
           bindR (splitOwnerRepo path) (\<lambda>(owner, repo).
             if host = [] then Inl HostRequired else Inr (mkSpec host owner repo))))"

definition StorePath :: "string \<Rightarrow> Spec \<Rightarrow> string" where
  "StorePath bareRoot spec = pathJoin [bareRoot, Host spec, Owner spec, Repo spec @ ''.git'']"

subsection \<open>Answers of git\<close>

definition symrefLine :: "string \<Rightarrow> string \<times> string \<Rightarrow> string \<times> string" where
  "symrefLine line0 bh =
     (let line = TrimSpace line0; (branch, hash) = bh
      in if line = [] then bh
         else if prefix ''ref: '' line \<and> suffix (CHR 0x09 # ''HEAD'') line then
           (case Fields line of
              _ # f # _ \<Rightarrow> (let ref = TrimPrefix f ''refs/heads/'' in if ref \<noteq> [] then (ref, hash) else bh)
            | _ \<Rightarrow> bh)
         else if suffix (CHR 0x09 # ''HEAD'') line then
           (case Fields line of f # _ \<Rightarrow> (branch, f) | [] \<Rightarrow> bh)
         else bh)"

definition ParseRemoteHeadSymref :: "string \<Rightarrow> string \<times> string" where
  "ParseRemoteHeadSymref out = fold symrefLine (split_on (CHR 0x0A) (TrimSpace out)) ([], [])"

definition ParseOriginHeadRef :: "string \<Rightarrow> string option" where
  "ParseOriginHeadRef ref =
     (let trimmed = TrimSpace ref
      in if \<not> prefix ''refs/remotes/origin/'' trimmed then None
         else let branch = TrimPrefix trimmed ''refs/remotes/origin/''
              in if branch = [] then None else Some branch)"

definition FormatOriginTarget :: "string \<Rightarrow> string option" where
  "FormatOriginTarget branch =
     (let trimmed = TrimSpace branch in if trimmed = [] then None else Some (''origin/'' @ trimmed))"

subsection \<open>Well-formed specifications\<close>

definition wf_spec :: "Spec \<Rightarrow> bool" where
  "wf_spec s \<longleftrightarrow> Host s \<noteq> [] \<and> Owner s \<noteq> [] \<and> Repo s \<noteq> [] \<and> slash \<notin> set (Owner s) \<and> slash \<notin> set (Repo s)
     \<and> RepoKey s = Host s @ ''/'' @ Owner s @ ''/'' @ Repo s"

lemma set_TrimSuffix: "set (TrimSuffix s p) \<subseteq> set s"
  by (auto simp: TrimSuffix_def dest: in_set_takeD)

lemma splitOwnerRepo_ok:
  assumes "splitOwnerRepo p = Inr (owner, repo)"
  shows "owner \<noteq> []" "repo \<noteq> []" "slash \<notin> set owner" "slash \<notin> set repo"
proof -
  from assms obtain r where sp: "split_on slash (trimByte slash p) = [owner, r]"
      and r: "repo = TrimSuffix r ''.git''" and ne: "owner \<noteq> []" "repo \<noteq> []"
    by (auto simp: splitOwnerRepo_def Let_def split: if_splits list.splits)
  show "owner \<noteq> []" "repo \<noteq> []" by fact+
  have "slash \<notin> set x" if "x \<in> set [owner, r]" for x using split_on_no_sep that sp by metis
  then show "slash \<notin> set owner" "slash \<notin> set repo" using set_TrimSuffix [of r "''.git''"] r by auto
qed

lemma Normalize_wf: "Normalize input = Inr s \<Longrightarrow> wf_spec s"
  by (auto simp: Normalize_def Let_def bindR_Inr_iff mkSpec_def wf_spec_def
      dest: splitOwnerRepo_ok split: if_splits)

lemma dropWhile_hd: "s = [] \<or> \<not> P (hd s) \<Longrightarrow> dropWhile P s = s"
  by (cases s) auto

lemma trimByte_free: "c \<notin> {hd s, last s} \<Longrightarrow> s \<noteq> [] \<Longrightarrow> trimByte c s = s"
proof -
  assume "c \<notin> {hd s, last s}" and "s \<noteq> []"
  then have "dropWhile (\<lambda>x. x = c) s = s" "dropWhile (\<lambda>x. x = c) (rev s) = rev s"
    by (auto intro!: dropWhile_hd simp: hd_rev)
  then show ?thesis by (simp add: trimByte_def trimRightByte_def)
qed

lemma splitOwnerRepo_plain:
  assumes "owner \<noteq> []" "repo \<noteq> []" "slash \<notin> set owner" "slash \<notin> set repo"
  shows "splitOwnerRepo (owner @ ''/'' @ repo @ ''.git'') = Inr (owner, repo)"
proof -
  have "hd (owner @ ''/'' @ repo @ ''.git'') \<noteq> slash" using assms(1,3) by (cases owner) auto
  then have "trimByte slash (owner @ ''/'' @ repo @ ''.git'') = owner @ slash # (repo @ ''.git'')"
    by (subst trimByte_free) auto
  moreover have "split_on slash (owner @ slash # (repo @ ''.git'')) = [owner, repo @ ''.git'']"
    using assms(3,4) by (simp add: split_on_append)
  ultimately show ?thesis using assms(1,2) by (simp add: splitOwnerRepo_def)
qed

text \<open>A string that starts and ends with a printable ASCII byte is left alone by \<open>TrimSpace\<close>.\<close>

definition inner_byte :: "char \<Rightarrow> bool" where
  "inner_byte c \<longleftrightarrow> 33 \<le> (of_char c :: nat) \<and> (of_char c :: nat) \<le> 126"

lemma leading_inner:
  assumes "s \<noteq> []" and "inner_byte (hd s)"
  shows "leading space_runes s = None" and "leading (map rev space_runes) s = None"
proof -
  have sp: "\<forall>p\<in>set space_runes. \<not> inner_byte (hd p) \<and> \<not> inner_byte (last p)" by code_simp
  have h: "hd p = hd s" if "p \<noteq> []" "prefix p s" for p using that assms(1) by (cases p; cases s) auto
  show "leading space_runes s = None" using h sp assms(2) by (fastforce simp: leading_None)
  have "\<not> prefix (rev p) s" if "p \<in> set space_runes" "p \<noteq> []" for p
    using h [of "rev p"] sp assms(2) that by (auto simp: hd_rev)
  then show "leading (map rev space_runes) s = None" by (auto simp: leading_None)
qed

lemma TrimSpace_inner:
  assumes "s \<noteq> []" and "inner_byte (hd s)" and "inner_byte (last s)"
  shows "TrimSpace s = s"
  using assms leading_inner [of s] leading_inner [of "rev s"]
  by (simp add: TrimSpace_def trimLeftSpace_def trimRightSpace_def strip_id hd_rev)

lemma url_plain_slash: "url_plain s \<Longrightarrow> slash \<notin> set s"
  using url_plain_free [of s slash] by simp

lemma indexByte_at: "c \<notin> set s \<Longrightarrow> indexByte c (s @ c # t) = Some (length s)"
  by (induction s) (auto simp: indexByte_def)

definition wf_names :: "string \<Rightarrow> string \<Rightarrow> string \<Rightarrow> bool" where
  "wf_names h o' r \<longleftrightarrow> h \<noteq> [] \<and> o' \<noteq> [] \<and> r \<noteq> [] \<and> url_plain h \<and> url_plain o' \<and> url_plain r"

lemma Normalize_ssh:
  assumes "wf_names h o' r"
  shows "Normalize (''git@'' @ h @ '':'' @ o' @ ''/'' @ r @ ''.git'') = Inr (mkSpec h o' r)"
proof -
  let ?p = "o' @ ''/'' @ r @ ''.git''"
  let ?t = "''git@'' @ h @ '':'' @ ?p"
  have "CHR '':'' \<notin> set (''git@'' @ h)" using assms url_plain_free [of h "CHR '':''"] by (simp add: wf_names_def)
  from indexByte_at [OF this, of ?p] have c: "indexByte CHR '':'' ?t = Some (4 + length h)" by simp
  have a: "indexByte CHR ''@'' ?t = Some 3" by (simp add: indexByte_def)
  have hp: "hostAndPath ?t = Inr (h, ?p)"
    unfolding hostAndPath_def a c by (simp add: eval_nat_numeral)
  have "TrimSpace ?t = ?t" by (rule TrimSpace_inner) (simp_all add: inner_byte_def)
  moreover have "splitOwnerRepo ?p = Inr (o', r)"
    using assms by (intro splitOwnerRepo_plain) (auto simp: wf_names_def dest: url_plain_slash)
  ultimately show ?thesis using assms hp unfolding Normalize_def by (simp add: Let_def wf_names_def)
qed

lemma Normalize_https:
  assumes "wf_names h o' r"
  shows "Normalize (''https://'' @ h @ ''/'' @ o' @ ''/'' @ r @ ''.git'') = Inr (mkSpec h o' r)"
proof -
  let ?p = "o' @ ''/'' @ r @ ''.git''"
  let ?t = "''https://'' @ h @ CHR ''/'' # ?p"
  have "\<forall>c\<in>set ?p. is_alnum c \<or> c \<in> set ''-_.~/''"
    using assms by (auto simp: wf_names_def url_plain_def is_alnum_def less_eq_char_def)
  then have u: "parseAfterSlashes (h @ CHR ''/'' # ?p) = Some (h, CHR ''/'' # ?p)"
    using assms by (intro parse_plain_url) (simp_all add: wf_names_def)
  have hp: "hostAndPath ?t = Inr (h, ?p)"
    using u Hostname_plain [of h] assms unfolding hostAndPath_def by (simp add: wf_names_def TrimPrefix_def)
  have "TrimSpace ?t = ?t" by (rule TrimSpace_inner) (simp_all add: inner_byte_def)
  moreover have "splitOwnerRepo ?p = Inr (o', r)"
    using assms by (intro splitOwnerRepo_plain) (auto simp: wf_names_def dest: url_plain_slash)
  ultimately show ?thesis using assms hp unfolding Normalize_def by (simp add: Let_def wf_names_def)
qed

subsection \<open>Properties\<close>

text \<open>
  every specification \<open>Normalize\<close> accepts has a host, and an owner and a repository name that are
  not empty and have no slash; its key is these three joined, so the key determines owner and name.
\<close>

theorem Normalize_sound:
  assumes "Normalize input = Inr s" and "Normalize input' = Inr s'" and "RepoKey s = RepoKey s'"
  shows "wf_spec s \<and> s = s'"
proof -
  have wf: "wf_spec s" "wf_spec s'" using assms(1,2) by (blast intro: Normalize_wf)+
  let ?k = "\<lambda>s. Host s @ slash # (Owner s @ slash # Repo s)"
  have sp: "split_on slash (?k s) = split_on slash (Host s) @ [Owner s, Repo s]" if "wf_spec s" for s
    using that by (simp add: split_on_concat split_on_append wf_spec_def)
  have "?k s = ?k s'" using assms(3) wf by (simp add: wf_spec_def)
  then have "split_on slash (Host s) @ [Owner s, Repo s] = split_on slash (Host s') @ [Owner s', Repo s']"
    using sp wf by metis
  then have "split_on slash (Host s) = split_on slash (Host s')" "Owner s = Owner s'" "Repo s = Repo s'" by auto
  moreover from this have "Host s = Host s'" by (metis join_split)
  ultimately show ?thesis using wf assms(3) by simp
qed

theorem Normalize_sound_witness: "wf_spec (mkSpec ''h'' ''o'' ''r'')"
proof -
  have "Normalize ''git@h:o/r.git'' = Inr (mkSpec ''h'' ''o'' ''r'')"
    "Normalize ''https://h/o/r'' = Inr (mkSpec ''h'' ''o'' ''r'')" by code_simp+
  from Normalize_sound [OF this refl] show ?thesis by simp
qed



text \<open>
  where host and owner are ordinary path components, the store of a repository lies below the
  pool at host/owner/name.git, and two specifications share a store only if they are equal.
\<close>

theorem StorePath_inside:
  assumes "IsAbs root" and "wf_spec s" and "plain (Host s)" and "plain (Owner s)"
    and "wf_spec s'" and "plain (Host s')" and "plain (Owner s')"
  shows "StorePath root s = abs_path (comps root @ [Host s, Owner s, Repo s @ ''.git''])
    \<and> (StorePath root s = StorePath root s' \<longrightarrow> s = s')"
proof -
  have g: "plain (r @ ''.git'')" if "slash \<notin> set r" for r using that by (cases r) (auto simp: plain_def)
  have p: "plains [Host s, Owner s, Repo s @ ''.git'']" "plains [Host s', Owner s', Repo s' @ ''.git'']"
    using assms g by (simp_all add: wf_spec_def)
  then have "StorePath root s = abs_path (comps root @ [Host s, Owner s, Repo s @ ''.git''])"
    "StorePath root s' = abs_path (comps root @ [Host s', Owner s', Repo s' @ ''.git''])"
    unfolding StorePath_def using pathJoin_abs [OF assms(1)] by simp_all
  moreover have "s = s'" if "Host s = Host s'" "Owner s = Owner s'" "Repo s = Repo s'"
    using that assms(2,5) by (simp add: wf_spec_def)
  ultimately show ?thesis using p by (auto simp: abs_path_inj)
qed

theorem StorePath_inside_witness:
  "StorePath ''/pool'' (mkSpec ''h'' ''o'' ''r'') = abs_path (comps ''/pool'' @ [''h'', ''o'', ''r.git''])"
proof -
  have "IsAbs ''/pool''" "wf_spec (mkSpec ''h'' ''o'' ''r'')" by code_simp+
  moreover have "plain (Host (mkSpec ''h'' ''o'' ''r''))" "plain (Owner (mkSpec ''h'' ''o'' ''r''))" by code_simp+
  ultimately show ?thesis using StorePath_inside [of "''/pool''"] by (simp add: mkSpec_def)
qed


end
