(* ===== verification/Workspace_Risk.thy ===== *)
theory Workspace_Risk
  imports Kra_Paths
begin

text \<open>
  \<open>internal/core/workspacerisk\<close> (risk of a repository and of a workspace) and
  \<open>internal/cli/git_status_snapshot.go\<close> (the parser of \<open>git status --porcelain=v2 --branch\<close> that feeds
  it). Git itself is a parameter of the definitions that run it.
\<close>

subsection \<open>Risk\<close>

record RepoStatus =
  Upstream :: string
  AheadCount :: int
  BehindCount :: int
  Dirty :: bool
  Detached :: bool
  HeadMissing :: bool
  Error :: bool

datatype risk = Clean_risk | Unpushed | Diverged | Dirty_risk | Unknown

text \<open>\<open>RepoState\<close> and \<open>WorkspaceRisk\<close> have the same five values.\<close>

type_synonym RepoState = risk
type_synonym WorkspaceRisk = risk

definition ClassifyRepoStatus :: "RepoStatus \<Rightarrow> RepoState" where
  "ClassifyRepoStatus s =
     (if Error s then Unknown
      else if Dirty s then Dirty_risk
      else if Detached s \<or> HeadMissing s then Unknown
      else if TrimSpace (Upstream s) = [] then Unknown
      else if AheadCount s > 0 \<and> BehindCount s > 0 then Diverged
      else if AheadCount s > 0 then Unpushed
      else Clean_risk)"

record risk_flags =
  hasDirty :: bool
  hasUnknown :: bool
  hasDiverged :: bool
  hasUnpushed :: bool

definition no_flags :: risk_flags where
  "no_flags = \<lparr>hasDirty = False, hasUnknown = False, hasDiverged = False, hasUnpushed = False\<rparr>"

fun flag :: "RepoState \<Rightarrow> risk_flags \<Rightarrow> risk_flags" where
  "flag Unknown f = f\<lparr>hasUnknown := True\<rparr>"
| "flag Dirty_risk f = f\<lparr>hasDirty := True\<rparr>"
| "flag Diverged f = f\<lparr>hasDiverged := True\<rparr>"
| "flag Unpushed f = f\<lparr>hasUnpushed := True\<rparr>"
| "flag Clean_risk f = f"

definition Aggregate :: "RepoState list \<Rightarrow> WorkspaceRisk" where
  "Aggregate repos =
     (let f = fold flag repos no_flags
      in if hasUnknown f then Unknown
         else if hasDirty f then Dirty_risk
         else if hasDiverged f then Diverged
         else if hasUnpushed f then Unpushed
         else Clean_risk)"

definition AggregateForState :: "RepoState list \<Rightarrow> WorkspaceRisk" where
  "AggregateForState repos =
     (let f = fold flag repos no_flags
      in if hasDirty f then Dirty_risk
         else if hasUnknown f then Unknown
         else if hasDiverged f then Diverged
         else if hasUnpushed f then Unpushed
         else Clean_risk)"

text \<open>The order of severity \<open>Aggregate\<close> follows.\<close>

fun severity :: "risk \<Rightarrow> nat" where
  "severity Clean_risk = 0"
| "severity Unpushed = 1"
| "severity Diverged = 2"
| "severity Dirty_risk = 3"
| "severity Unknown = 4"

instantiation risk :: linorder
begin

definition less_eq_risk :: "risk \<Rightarrow> risk \<Rightarrow> bool" where "less_eq_risk a b \<longleftrightarrow> severity a \<le> severity b"
definition less_risk :: "risk \<Rightarrow> risk \<Rightarrow> bool" where "less_risk a b \<longleftrightarrow> severity a < severity b"

instance
proof
  have inj: "severity a = severity b \<Longrightarrow> a = b" for a b by (cases a; cases b) auto
  show "a \<le> b \<Longrightarrow> b \<le> a \<Longrightarrow> a = b" for a b :: risk by (rule inj) (simp add: less_eq_risk_def)
qed (auto simp: less_eq_risk_def less_risk_def)

end

lemma flag_simps:
  "hasUnknown (flag r f) \<longleftrightarrow> hasUnknown f \<or> r = Unknown"
  "hasDirty (flag r f) \<longleftrightarrow> hasDirty f \<or> r = Dirty_risk"
  "hasDiverged (flag r f) \<longleftrightarrow> hasDiverged f \<or> r = Diverged"
  "hasUnpushed (flag r f) \<longleftrightarrow> hasUnpushed f \<or> r = Unpushed"
  by (cases r; simp)+

lemma fold_flag:
  "hasUnknown (fold flag rs f) \<longleftrightarrow> hasUnknown f \<or> Unknown \<in> set rs"
  "hasDirty (fold flag rs f) \<longleftrightarrow> hasDirty f \<or> Dirty_risk \<in> set rs"
  "hasDiverged (fold flag rs f) \<longleftrightarrow> hasDiverged f \<or> Diverged \<in> set rs"
  "hasUnpushed (fold flag rs f) \<longleftrightarrow> hasUnpushed f \<or> Unpushed \<in> set rs"
  by (induction rs arbitrary: f) (auto simp: flag_simps)

lemma Aggregate_cases:
  "Aggregate rs = (if Unknown \<in> set rs then Unknown else if Dirty_risk \<in> set rs then Dirty_risk
     else if Diverged \<in> set rs then Diverged else if Unpushed \<in> set rs then Unpushed else Clean_risk)"
  "AggregateForState rs = (if Dirty_risk \<in> set rs then Dirty_risk else if Unknown \<in> set rs then Unknown
     else if Diverged \<in> set rs then Diverged else if Unpushed \<in> set rs then Unpushed else Clean_risk)"
  by (simp_all add: Aggregate_def AggregateForState_def Let_def fold_flag no_flags_def)

lemma Aggregate_upper: "r \<in> set rs \<Longrightarrow> r \<le> Aggregate rs"
  by (cases r) (simp_all add: Aggregate_cases less_eq_risk_def)

lemma Aggregate_in: "Aggregate rs \<in> insert Clean_risk (set rs)"
  by (simp add: Aggregate_cases)

lemma clean_least: "Clean_risk \<le> r"
  by (simp add: less_eq_risk_def)

lemma Aggregate_clean_iff: "Aggregate rs = Clean_risk \<longleftrightarrow> set rs \<subseteq> {Clean_risk}"
  using Aggregate_upper [of _ rs] Aggregate_in [of rs] clean_least order_antisym by (cases rs) (auto, blast+)

subsection \<open>The status snapshot\<close>

record gitRepoSnapshot =
  Status :: RepoStatus
  Branch :: string
  Staged :: nat
  Unstaged :: nat
  Untracked :: nat
  Files :: "string list"

definition zero_status :: RepoStatus where
  "zero_status = \<lparr>Upstream = [], AheadCount = 0, BehindCount = 0, Dirty = False, Detached = False,
     HeadMissing = False, Error = False\<rparr>"

definition zero_snapshot :: gitRepoSnapshot where
  "zero_snapshot = \<lparr>Status = zero_status, Branch = [], Staged = 0, Unstaged = 0, Untracked = 0, Files = []\<rparr>"

datatype snapshot_error = BadAheadBehind | BadStatusLine | BadXY | MissingPath

definition parsePorcelainV2AheadBehind :: "string \<Rightarrow> snapshot_error + int \<times> int" where
  "parsePorcelainV2AheadBehind raw =
     (case Fields raw of
        [a, b] \<Rightarrow>
          (case Atoi (TrimPrefix a ''+'') of
             None \<Rightarrow> Inl BadAheadBehind
           | Some ahead \<Rightarrow>
               (case Atoi (TrimPrefix b ''-'') of None \<Rightarrow> Inl BadAheadBehind | Some behind \<Rightarrow> Inr (ahead, behind)))
      | _ \<Rightarrow> Inl BadAheadBehind)"

definition upd_status :: "(RepoStatus \<Rightarrow> RepoStatus) \<Rightarrow> gitRepoSnapshot \<Rightarrow> gitRepoSnapshot" where
  "upd_status f s = s\<lparr>Status := f (Status s)\<rparr>"

definition parseBranchHeaderLine :: "string \<Rightarrow> gitRepoSnapshot \<Rightarrow> snapshot_error + gitRepoSnapshot" where
  "parseBranchHeaderLine line s =
     (case splitN2 CHR '' '' (TrimSpace (TrimPrefix line ''#'')) of
        [p0, p1] \<Rightarrow>
          (let key = TrimSpace p0; v = TrimSpace p1
           in if key = ''branch.oid'' then
                Inr (upd_status (HeadMissing_update (\<lambda>_. v = ''(initial)'' \<or> v = ''(unknown)'')) s)
              else if key = ''branch.head'' then
                (if v = ''(detached)'' then Inr ((upd_status (Detached_update (\<lambda>_. True)) s)\<lparr>Branch := []\<rparr>)
                 else if v = ''(unknown)'' then Inr (s\<lparr>Branch := []\<rparr>)
                 else Inr (s\<lparr>Branch := v\<rparr>))
              else if key = ''branch.upstream'' then Inr (upd_status (Upstream_update (\<lambda>_. v)) s)
              else if key = ''branch.ab'' then
                bindR (parsePorcelainV2AheadBehind v) (\<lambda>(ahead, behind).
                  Inr (upd_status (\<lambda>st. st\<lparr>AheadCount := ahead, BehindCount := behind\<rparr>) s))
              else Inr s)
      | _ \<Rightarrow> Inr s)"

definition normalizePorcelainV2XYChar :: "char \<Rightarrow> char" where
  "normalizePorcelainV2XYChar v = (if v = CHR ''.'' then CHR '' '' else v)"

definition arrow :: "string \<Rightarrow> string \<Rightarrow> string" where
  "arrow oldPath newPath = oldPath @ '' -> '' @ newPath"

definition renameByTab :: "string \<Rightarrow> string option" where
  "renameByTab line =
     (case splitN2 (CHR 0x09) line of
        [l, r] \<Rightarrow>
          (let left = Fields (TrimSpace l);
               newPath = (if left = [] then [] else TrimSpace (last left));
               oldPath = TrimSpace r
           in if oldPath \<noteq> [] \<and> newPath \<noteq> [] then Some (arrow oldPath newPath) else None)
      | _ \<Rightarrow> None)"

definition renameByFields :: "string list \<Rightarrow> string option" where
  "renameByFields flds =
     (if length flds \<ge> 11 then
        (let newPath = TrimSpace (flds ! 9); oldPath = TrimSpace (flds ! 10)
         in if oldPath \<noteq> [] \<and> newPath \<noteq> [] then Some (arrow oldPath newPath) else None)
      else None)"

definition extractPorcelainV2Path :: "string \<Rightarrow> string list \<Rightarrow> string" where
  "extractPorcelainV2Path line flds =
     (if flds = [] then []
      else if hd flds = ''2'' then
        (case renameByTab line of
           Some p \<Rightarrow> p
         | None \<Rightarrow> (case renameByFields flds of Some p \<Rightarrow> p | None \<Rightarrow> TrimSpace (last flds)))
      else TrimSpace (last flds))"

text \<open>The line's short form, its two letters and whether it is untracked; \<open>None\<close> is not included.\<close>

definition parsePorcelainV2StatusLine :: "string \<Rightarrow> snapshot_error + (string \<times> char \<times> char \<times> bool) option" where
  "parsePorcelainV2StatusLine line0 =
     (let line = TrimSpace line0
      in if prefix ''? '' line then
           (let path = TrimSpace (TrimPrefix line ''? '')
            in if path = [] then Inr None else Inr (Some (''?? '' @ path, CHR ''?'', CHR ''?'', True)))
         else if prefix ''! '' line then Inr None
         else if prefix ''1 '' line \<or> prefix ''2 '' line \<or> prefix ''u '' line then
           (let flds = Fields line
            in if length flds < 3 then Inl BadStatusLine
               else case TrimSpace (flds ! 1) of
                 [a, b] \<Rightarrow>
                   (let x = normalizePorcelainV2XYChar a; y = normalizePorcelainV2XYChar b;
                        path = extractPorcelainV2Path line flds
                    in if path = [] then Inl MissingPath else Inr (Some (x # y # '' '' @ path, x, y, False)))
               | _ \<Rightarrow> Inl BadXY)
         else Inr None)"

definition addFile :: "string \<times> char \<times> char \<times> bool \<Rightarrow> gitRepoSnapshot \<Rightarrow> gitRepoSnapshot" where
  "addFile i s =
     (case i of (short, x, y, untracked) \<Rightarrow>
        (let s1 = (upd_status (Dirty_update (\<lambda>_. True)) s)\<lparr>Files := Files s @ [short]\<rparr>
         in if untracked then s1\<lparr>Untracked := Untracked s1 + 1\<rparr>
            else s1\<lparr>Staged := Staged s1 + (if x \<noteq> CHR '' '' then 1 else 0),
                    Unstaged := Unstaged s1 + (if y \<noteq> CHR '' '' then 1 else 0)\<rparr>))"

definition snapshotLine :: "string \<Rightarrow> gitRepoSnapshot \<Rightarrow> snapshot_error + gitRepoSnapshot" where
  "snapshotLine line0 s =
     (let line = trimRightByte (CHR 0x0D) line0
      in if TrimSpace line = [] then Inr s
         else if prefix ''# '' line then parseBranchHeaderLine line s
         else bindR (parsePorcelainV2StatusLine line)
           (\<lambda>i. Inr (case i of None \<Rightarrow> s | Some f \<Rightarrow> addFile f s)))"

definition parseGitRepoSnapshot :: "string \<Rightarrow> snapshot_error + gitRepoSnapshot" where
  "parseGitRepoSnapshot raw = foldE snapshotLine (split_on (CHR 0x0A) raw) zero_snapshot"

definition error_snapshot :: gitRepoSnapshot where
  "error_snapshot = upd_status (Error_update (\<lambda>_. True)) zero_snapshot"

text \<open>\<open>status dir\<close> is the output of \<open>git status --porcelain=v2 --branch\<close> in \<open>dir\<close>, \<open>None\<close> when git fails.\<close>

definition inspectGitRepoSnapshot :: "(string \<Rightarrow> string option) \<Rightarrow> world \<Rightarrow> string \<Rightarrow> gitRepoSnapshot" where
  "inspectGitRepoSnapshot status w dir =
     (if fails w (SStat (comps dir)) \<or> files w (comps dir) = None then error_snapshot
      else case status dir of
        None \<Rightarrow> error_snapshot
      | Some out \<Rightarrow> (case parseGitRepoSnapshot out of Inl _ \<Rightarrow> error_snapshot | Inr s \<Rightarrow> s))"

text \<open>A repository of a workspace (\<open>statestore.WorkspaceRepo\<close>); \<open>wr_missing\<close> is \<open>MissingAt.Valid\<close>.\<close>

record WorkspaceRepo =
  wr_uid :: string
  wr_key :: string
  wr_alias :: string
  wr_branch :: string
  wr_base :: string
  wr_missing :: bool

definition repoState :: "(string \<Rightarrow> string option) \<Rightarrow> world \<Rightarrow> string \<Rightarrow> string \<Rightarrow> WorkspaceRepo \<Rightarrow> RepoState" where
  "repoState status w root workspaceID r =
     (if wr_missing r then Unknown
      else ClassifyRepoStatus (Status (inspectGitRepoSnapshot status w
             (pathJoin [root, ''workspaces'', workspaceID, ''repos'', wr_alias r]))))"

definition inspectWorkspaceRepoRisk ::
    "(string \<Rightarrow> string option) \<Rightarrow> world \<Rightarrow> string \<Rightarrow> string \<Rightarrow> WorkspaceRepo list \<Rightarrow> WorkspaceRisk \<times> (string \<times> RepoState) list" where
  "inspectWorkspaceRepoRisk status w root workspaceID repos =
     (Aggregate (map (repoState status w root workspaceID) repos),
      map (\<lambda>r. (wr_alias r, repoState status w root workspaceID r)) repos)"

subsection \<open>What the parser keeps\<close>

text \<open>A line that reports a change, and the invariant of the snapshot while lines are consumed.\<close>

definition change_line :: "string \<Rightarrow> bool" where
  "change_line line \<longleftrightarrow> (let t = TrimSpace (trimRightByte (CHR 0x0D) line)
     in \<not> prefix ''# '' (trimRightByte (CHR 0x0D) line) \<and>
        (prefix ''1 '' t \<or> prefix ''2 '' t \<or> prefix ''u '' t
         \<or> (prefix ''? '' t \<and> TrimSpace (TrimPrefix t ''? '') \<noteq> [])))"

definition snapshot_inv :: "gitRepoSnapshot \<Rightarrow> bool" where
  "snapshot_inv s \<longleftrightarrow> (Dirty (Status s) \<longleftrightarrow> Files s \<noteq> []) \<and> \<not> Error (Status s)
     \<and> Untracked s \<le> length (Files s) \<and> Staged s + Untracked s \<le> length (Files s)
     \<and> Unstaged s + Untracked s \<le> length (Files s)"

lemma snapshot_inv_zero: "snapshot_inv zero_snapshot"
  by (simp add: snapshot_inv_def zero_snapshot_def zero_status_def)

lemma snapshot_inv_header: "parseBranchHeaderLine l s = Inr s' \<Longrightarrow> snapshot_inv s \<Longrightarrow> snapshot_inv s' \<and> Files s' = Files s"
  by (auto simp: parseBranchHeaderLine_def snapshot_inv_def upd_status_def Let_def bindR_Inr_iff
      split: if_splits list.splits)

lemma snapshot_inv_add: "snapshot_inv s \<Longrightarrow> snapshot_inv (addFile i s)"
  by (cases i) (auto simp: addFile_def snapshot_inv_def upd_status_def Let_def)

lemma Files_add: "length (Files (addFile i s)) = Suc (length (Files s))"
  by (cases i) (auto simp: addFile_def upd_status_def Let_def)

text \<open>A line is included exactly if it reports a change.\<close>

lemma status_line_included:
  assumes "parsePorcelainV2StatusLine l = Inr i"
  shows "i \<noteq> None \<longleftrightarrow> prefix ''1 '' (TrimSpace l) \<or> prefix ''2 '' (TrimSpace l) \<or> prefix ''u '' (TrimSpace l)
     \<or> (prefix ''? '' (TrimSpace l) \<and> TrimSpace (TrimPrefix (TrimSpace l) ''? '') \<noteq> [])"
proof -
  show ?thesis
  proof (cases "prefix ''? '' (TrimSpace l)")
    case True
    then obtain u where "TrimSpace l = CHR ''?'' # CHR '' '' # u" by (auto simp: prefix_def)
    with assms show ?thesis by (auto simp: parsePorcelainV2StatusLine_def Let_def split: if_splits)
  next
    case q: False
    show ?thesis
    proof (cases "prefix ''! '' (TrimSpace l)")
      case True
      then obtain u where "TrimSpace l = CHR ''!'' # CHR '' '' # u" by (auto simp: prefix_def)
      with assms show ?thesis by (auto simp: parsePorcelainV2StatusLine_def Let_def)
    next
      case False
      with assms q show ?thesis
        by (auto simp: parsePorcelainV2StatusLine_def Let_def split: if_splits list.splits)
    qed
  qed
qed

lemma snapshotLine_inv:
  assumes "snapshotLine l s = Inr s'" and "snapshot_inv s"
  shows "snapshot_inv s'" and "length (Files s') = length (Files s) + (if change_line l then 1 else 0)"
proof -
  let ?l = "trimRightByte (CHR 0x0D) l"
  consider "TrimSpace ?l = []" | "prefix ''# '' ?l" "TrimSpace ?l \<noteq> []"
    | i where "TrimSpace ?l \<noteq> []" "\<not> prefix ''# '' ?l" "parsePorcelainV2StatusLine ?l = Inr i"
      "s' = (case i of None \<Rightarrow> s | Some f \<Rightarrow> addFile f s)"
    using assms(1) by (auto simp: snapshotLine_def Let_def bindR_Inr_iff split: if_splits)
  then have "snapshot_inv s' \<and> length (Files s') = length (Files s) + (if change_line l then 1 else 0)"
  proof cases
    case 1
    then show ?thesis using assms by (simp add: snapshotLine_def change_line_def)
  next
    case 2
    then show ?thesis using assms snapshot_inv_header [of ?l s s'] by (simp add: snapshotLine_def change_line_def)
  next
    case 3
    then show ?thesis
      using assms(2) status_line_included [OF 3(3)] snapshot_inv_add
      by (cases i) (simp_all add: change_line_def Let_def Files_add)
  qed
  then show "snapshot_inv s'" "length (Files s') = length (Files s) + (if change_line l then 1 else 0)" by simp_all
qed

lemma foldE_snapshot:
  assumes "foldE snapshotLine ls s = Inr s'" and "snapshot_inv s"
  shows "snapshot_inv s' \<and> length (Files s') = length (Files s) + length (filter change_line ls)"
  using assms
proof (induction ls arbitrary: s)
  case (Cons l ls)
  then obtain t where t: "snapshotLine l s = Inr t" "foldE snapshotLine ls t = Inr s'" by (auto simp: bindR_Inr_iff)
  from Cons.IH [OF t(2)] snapshotLine_inv [OF t(1) Cons.prems(2)] show ?case by simp
qed simp

subsection \<open>Properties\<close>

text \<open>
  C36: the risk of a workspace is the worst risk of its repositories, in the order clean, unpushed,
  diverged, dirty, unknown; the variant for display differs only in preferring dirty to unknown. A
  workspace is clean only if every repository is.
\<close>

theorem Aggregate_is_max:
  "Aggregate rs = Max (insert Clean_risk (set rs))
    \<and> AggregateForState rs = (if Dirty_risk \<in> set rs then Dirty_risk else Aggregate rs)
    \<and> (Aggregate rs = Clean_risk \<longleftrightarrow> set rs \<subseteq> {Clean_risk})"
proof (intro conjI)
  show "Aggregate rs = Max (insert Clean_risk (set rs))"
    using Aggregate_upper Aggregate_in clean_least by (intro Max_eqI [symmetric]) auto
  show "AggregateForState rs = (if Dirty_risk \<in> set rs then Dirty_risk else Aggregate rs)"
    by (simp add: Aggregate_cases)
  show "Aggregate rs = Clean_risk \<longleftrightarrow> set rs \<subseteq> {Clean_risk}" by (rule Aggregate_clean_iff)
qed

text \<open>
  the snapshot of a successful parse lists one file per reported change, is dirty exactly if there
  is one, and its counters do not exceed the files.
\<close>

theorem parseGitRepoSnapshot_counts:
  assumes "parseGitRepoSnapshot raw = Inr s"
  shows "length (Files s) = length (filter change_line (split_on (CHR 0x0A) raw)) \<and> snapshot_inv s"
  using foldE_snapshot [of _ zero_snapshot s] assms snapshot_inv_zero
  by (auto simp: parseGitRepoSnapshot_def zero_snapshot_def)

definition demo_status :: string where
  "demo_status = ''# branch.oid abc'' @ [CHR 0x0A] @ ''# branch.upstream origin/main'' @ [CHR 0x0A]
     @ ''# branch.ab +0 -2'' @ [CHR 0x0A] @ ''? new.txt'' @ [CHR 0x0A]"

theorem parseGitRepoSnapshot_counts_witness:
  "\<exists>s. parseGitRepoSnapshot demo_status = Inr s \<and> length (Files s) = 1 \<and> snapshot_inv s"
proof -
  have "isOK (parseGitRepoSnapshot demo_status)" by code_simp
  then obtain s where s: "parseGitRepoSnapshot demo_status = Inr s" by (auto simp: isOK_iff)
  have "length (filter change_line (split_on (CHR 0x0A) demo_status)) = 1" by code_simp
  with parseGitRepoSnapshot_counts [OF s] s show ?thesis by auto
qed

text \<open>
  a repository is taken for clean only if its directory exists, git answered, no line of the
  answer reports a change, there is an upstream and nothing is ahead of it. Everything that goes wrong
  on the way is classified as unknown.
\<close>

theorem clean_is_safe:
  assumes "ClassifyRepoStatus (Status (inspectGitRepoSnapshot status w dir)) = Clean_risk"
  shows "files w (comps dir) \<noteq> None \<and> (\<exists>out s. status dir = Some out \<and> parseGitRepoSnapshot out = Inr s
    \<and> list_all (\<lambda>l. \<not> change_line l) (split_on (CHR 0x0A) out)
    \<and> TrimSpace (Upstream (Status s)) \<noteq> [] \<and> AheadCount (Status s) \<le> 0 \<and> \<not> Detached (Status s))"
proof -
  have err: "ClassifyRepoStatus (Status error_snapshot) = Unknown"
    by (simp add: ClassifyRepoStatus_def error_snapshot_def upd_status_def)
  with assms obtain out s where o: "files w (comps dir) \<noteq> None" "status dir = Some out" "parseGitRepoSnapshot out = Inr s"
      "ClassifyRepoStatus (Status s) = Clean_risk"
    by (auto simp: inspectGitRepoSnapshot_def split: if_splits option.splits sum.splits)
  then have c: "\<not> Dirty (Status s)" "TrimSpace (Upstream (Status s)) \<noteq> []" "AheadCount (Status s) \<le> 0" "\<not> Detached (Status s)"
    by (auto simp: ClassifyRepoStatus_def split: if_splits)
  have "length (Files s) = length (filter change_line (split_on (CHR 0x0A) out))" "snapshot_inv s"
    using foldE_snapshot [of _ zero_snapshot s] o(3) snapshot_inv_zero
    by (auto simp: parseGitRepoSnapshot_def zero_snapshot_def)
  with c(1) have "filter change_line (split_on (CHR 0x0A) out) = []" by (simp add: snapshot_inv_def)
  then have "list_all (\<lambda>l. \<not> change_line l) (split_on (CHR 0x0A) out)"
    by (simp add: list_all_iff filter_empty_conv)
  with o c show ?thesis by blast
qed

definition demo_clean :: "string \<Rightarrow> string option" where
  "demo_clean dir = Some (''# branch.upstream origin/main'' @ [CHR 0x0A] @ ''# branch.ab +0 -2'')"

theorem clean_is_safe_witness: "files demo_world (comps ''/r'') \<noteq> None"
proof -
  have "ClassifyRepoStatus (Status (inspectGitRepoSnapshot demo_clean demo_world ''/r'')) = Clean_risk" by code_simp
  from clean_is_safe [OF this] show ?thesis by simp
qed

text \<open>
  of a changed file whose name has a space, the parser keeps the part after the last space: the
  ordinary-change line puts the path last, and the parser takes the last field.
\<close>

theorem path_with_space_truncated:
  "\<exists>s. parseGitRepoSnapshot ''1 .M N... 100644 100644 100644 a b my file.txt'' = Inr s
     \<and> Files s = ['' M file.txt'']"
proof -
  have "isOK (parseGitRepoSnapshot ''1 .M N... 100644 100644 100644 a b my file.txt'')" by code_simp
  then obtain s where s: "parseGitRepoSnapshot ''1 .M N... 100644 100644 100644 a b my file.txt'' = Inr s"
    by (auto simp: isOK_iff)
  have "(case parseGitRepoSnapshot ''1 .M N... 100644 100644 100644 a b my file.txt'' of
     Inl _ \<Rightarrow> False | Inr s \<Rightarrow> Files s = ['' M file.txt''])" by code_simp
  with s show ?thesis by simp
qed

end
