(* ===== verification/Go_Tree.thy ===== *)
theory Go_Tree
  imports Go_FS
begin

text \<open>
  Directory trees and git. \<open>os.Stat\<close>, \<open>os.Mkdir\<close>, \<open>os.RemoveAll\<close> and \<open>os.Rename\<close> of a directory act
  on a \<open>world\<close>; what the program cannot know of its surroundings is a record \<open>sys\<close> of parameters:
  what git answers and does to the files, and in which order a directory tree is enumerated.
\<close>

subsection \<open>A state monad with errors\<close>

type_synonym ('e, 'a) prog = "world \<Rightarrow> ('e + 'a) \<times> world"

definition ret :: "'a \<Rightarrow> ('e, 'a) prog" where
  "ret v w = (Inr v, w)"

definition throw :: "'e \<Rightarrow> ('e, 'a) prog" where
  "throw e w = (Inl e, w)"

text \<open>\<open>v, err := m(); if err != nil { return err }; f(v)\<close>\<close>

definition bindW :: "('e, 'a) prog \<Rightarrow> ('a \<Rightarrow> ('e, 'b) prog) \<Rightarrow> ('e, 'b) prog" where
  "bindW m f w = (case m w of (Inl e, w') \<Rightarrow> (Inl e, w') | (Inr v, w') \<Rightarrow> f v w')"

text \<open>The same with a handler that runs before the error is returned, or with the error ignored.\<close>

definition onErr :: "('e, 'a) prog \<Rightarrow> ('e \<Rightarrow> ('f, unit) prog) \<Rightarrow> ('e \<Rightarrow> 'f) \<Rightarrow> ('f, 'a) prog" where
  "onErr m h g w = (case m w of (Inl e, w') \<Rightarrow> (Inl (g e), snd (h e w')) | (Inr v, w') \<Rightarrow> (Inr v, w'))"

definition ignore :: "('e, 'a) prog \<Rightarrow> ('f, unit) prog" where
  "ignore m w = (Inr (), snd (m w))"

definition attempt :: "('e, 'a) prog \<Rightarrow> ('f, 'e + 'a) prog" where
  "attempt m w = (case m w of (r, w') \<Rightarrow> (Inr r, w'))"

definition mapErr :: "('e \<Rightarrow> 'f) \<Rightarrow> ('e, 'a) prog \<Rightarrow> ('f, 'a) prog" where
  "mapErr g m w = (case m w of (Inl e, w') \<Rightarrow> (Inl (g e), w') | (Inr v, w') \<Rightarrow> (Inr v, w'))"

text \<open>A read of the world, and a guard.\<close>

definition look :: "(world \<Rightarrow> 'e + 'a) \<Rightarrow> ('e, 'a) prog" where
  "look f w = (f w, w)"

definition guardW :: "bool \<Rightarrow> 'e \<Rightarrow> ('e, unit) prog" where
  "guardW b e = (if b then ret () else throw e)"

fun forW :: "('x \<Rightarrow> ('e, unit) prog) \<Rightarrow> 'x list \<Rightarrow> ('e, unit) prog" where
  "forW f [] = ret ()"
| "forW f (x # xs) = bindW (f x) (\<lambda>_. forW f xs)"

lemmas prog_defs [go_defs] = ret_def throw_def bindW_def onErr_def ignore_def attempt_def mapErr_def
  look_def guardW_def

lemma bindW_Inr: "bindW m f w = (Inr v, w') \<longleftrightarrow> (\<exists>a u. m w = (Inr a, u) \<and> f a u = (Inr v, w'))"
  by (auto simp: bindW_def split: prod.splits sum.splits)

lemma ret_Inr [simp]: "ret v w = (Inr u, w') \<longleftrightarrow> u = v \<and> w' = w" by (auto simp: ret_def)

lemma throw_Inr [simp]: "throw e w \<noteq> (Inr v, w')" by (simp add: throw_def)

lemma guardW_Inr [simp]: "guardW b e w = (Inr u, w') \<longleftrightarrow> b \<and> w' = w"
  by (auto simp: guardW_def)

lemma onErr_Inr [simp]: "onErr m h g w = (Inr v, w') \<longleftrightarrow> m w = (Inr v, w')"
  by (auto simp: onErr_def split: prod.splits sum.splits)

lemma mapErr_Inr [simp]: "mapErr g m w = (Inr v, w') \<longleftrightarrow> m w = (Inr v, w')"
  by (auto simp: mapErr_def split: prod.splits sum.splits)

lemma ignore_Inr [simp]: "ignore m w = (Inr u, w') \<longleftrightarrow> w' = snd (m w)"
  by (auto simp: ignore_def)

lemma look_Inr [simp]: "look f w = (Inr v, w') \<longleftrightarrow> f w = Inr v \<and> w' = w"
  by (auto simp: look_def)

lemma attempt_Inr [simp]: "attempt m w = (Inr r, w') \<longleftrightarrow> m w = (r, w')"
  by (auto simp: attempt_def split: prod.splits)

lemmas prog_Inr = bindW_Inr ret_Inr throw_Inr guardW_Inr onErr_Inr mapErr_Inr ignore_Inr look_Inr attempt_Inr

text \<open>A relation between the world before and after that every step has, the whole run has.\<close>

definition always :: "(world \<Rightarrow> world \<Rightarrow> bool) \<Rightarrow> ('e, 'a) prog \<Rightarrow> bool" where
  "always R m \<longleftrightarrow> (\<forall>w. R w (snd (m w)))"

locale step_relation =
  fixes R :: "world \<Rightarrow> world \<Rightarrow> bool"
  assumes R_refl: "R w w" and R_trans: "R u v \<Longrightarrow> R v w \<Longrightarrow> R u w"
begin

lemma always_ret: "always R (ret v)" by (simp add: always_def ret_def R_refl)

lemma always_throw: "always R (throw e)" by (simp add: always_def throw_def R_refl)

lemma always_look: "always R (look f)" by (simp add: always_def look_def R_refl)

lemma always_guard: "always R (guardW b e)" by (simp add: guardW_def always_ret always_throw)

lemma always_bind:
  assumes "always R m" and "\<And>v. always R (f v)"
  shows "always R (bindW m f)"
proof -
  have "R w (snd (bindW m f w))" for w
  proof (cases "m w")
    case (Pair r w')
    then have "R w w'" using assms(1) by (metis always_def snd_conv)
    then show ?thesis using assms(2) R_trans Pair by (cases r) (auto simp: bindW_def always_def)
  qed
  then show ?thesis by (simp add: always_def)
qed

lemma always_onErr:
  assumes "always R m" and "\<And>e. always R (h e)"
  shows "always R (onErr m h g)"
proof -
  have "R w (snd (onErr m h g w))" for w
  proof (cases "m w")
    case (Pair r w')
    then have "R w w'" using assms(1) by (metis always_def snd_conv)
    then show ?thesis using assms(2) R_trans Pair by (cases r) (auto simp: onErr_def always_def)
  qed
  then show ?thesis by (simp add: always_def)
qed

lemma always_ignore: "always R m \<Longrightarrow> always R (ignore m)" by (simp add: always_def ignore_def)

lemma always_attempt: "always R m \<Longrightarrow> always R (attempt m)"
  by (auto simp: always_def attempt_def split: prod.splits) (metis snd_conv)

lemma always_mapErr: "always R m \<Longrightarrow> always R (mapErr g m)"
  by (auto simp: always_def mapErr_def split: prod.splits sum.splits) (metis snd_conv)+

lemma always_for: "(\<And>x. x \<in> set xs \<Longrightarrow> always R (f x)) \<Longrightarrow> always R (forW f xs)"
  by (induction xs) (auto intro: always_ret always_bind)

lemma always_if: "(b \<Longrightarrow> always R m) \<Longrightarrow> (\<not> b \<Longrightarrow> always R n) \<Longrightarrow> always R (if b then m else n)"
  by simp

lemmas always_intros = always_ret always_throw always_look always_guard always_bind always_onErr
  always_ignore always_attempt always_mapErr always_for always_if

end

subsection \<open>filepath.Rel\<close>

definition rel_comps :: "string \<Rightarrow> string list" where
  "rel_comps p = (if p = ''.'' then [] else filter (\<lambda>c. c \<noteq> []) (split_on slash p))"

fun drop_common :: "string list \<Rightarrow> string list \<Rightarrow> string list \<times> string list" where
  "drop_common (b # bs) (t # ts) = (if b = t then drop_common bs ts else (b # bs, t # ts))"
| "drop_common bs ts = (bs, ts)"

definition Rel :: "string \<Rightarrow> string \<Rightarrow> string option" where
  "Rel basepath targpath =
     (let base = Clean basepath; targ = Clean targpath
      in if base = targ then Some ''.''
         else if IsAbs base \<noteq> IsAbs targ then None
         else case drop_common (rel_comps base) (rel_comps targ) of (bs, ts) \<Rightarrow>
           if bs \<noteq> [] \<and> ts \<noteq> [] \<and> hd bs = ''..'' then None
           else Some (join [slash] (replicate (length bs) ''..'' @ ts)))"

text \<open>The test the program makes of such a relative path: does it leave the base?\<close>

definition outside :: "string \<Rightarrow> bool" where
  "outside rel \<longleftrightarrow> rel = ''..'' \<or> prefix ''../'' rel"

lemma rel_comps_abs:
  assumes "plains cs"
  shows "rel_comps (abs_path cs) = cs"
proof -
  have "filter (\<lambda>c. c \<noteq> []) cs = cs" using assms by (induction cs) (auto simp: plain_def)
  moreover have "abs_path cs \<noteq> ''.''" by (simp add: abs_path_def)
  ultimately show ?thesis by (auto simp: rel_comps_def split_abs_path [OF assms])
qed

lemma drop_common_prefix: "drop_common xs (xs @ ys) = ([], ys)"
  by (induction xs) (cases ys, auto)

lemma drop_common_eq: "drop_common xs ys = (bs, ts) \<Longrightarrow> \<exists>c. xs = c @ bs \<and> ys = c @ ts \<and> (bs = [] \<or> ts = [] \<or> hd bs \<noteq> hd ts)"
proof (induction xs ys rule: drop_common.induct)
  case (1 b bs' t ts')
  show ?case
  proof (cases "b = t")
    case True
    with 1 obtain c where "bs' = c @ bs" "ts' = c @ ts" "bs = [] \<or> ts = [] \<or> hd bs \<noteq> hd ts" by auto
    with True show ?thesis by (intro exI [of _ "b # c"]) auto
  next
    case False
    with 1(2) show ?thesis by auto
  qed
qed auto

text \<open>A directory is inside another exactly if its components extend the other's.\<close>

lemma join_plain_not_outside:
  assumes "plains ts"
  shows "\<not> outside (join [slash] ts)"
proof (cases ts)
  case (Cons t us)
  then have pt: "plain t" using assms by simp
  have eq: "join [slash] ts = t @ (if us = [] then [] else slash # join [slash] us)"
    by (simp add: Cons join_Cons)
  show ?thesis
  proof
    assume "outside (join [slash] ts)"
    then have "prefix ''..'' (join [slash] ts)" by (auto simp: outside_def prefix_def)
    then have "\<exists>c. t = ''..'' @ c" using pt
      unfolding eq by (cases t; cases "tl t") (auto simp: plain_def split: if_splits)
    then obtain c where "t = ''..'' @ c" ..
    with pt \<open>outside (join [slash] ts)\<close> show False
      unfolding eq by (cases c) (auto simp: outside_def plain_def prefix_def split: if_splits)
  qed
qed (simp add: outside_def)

lemma Rel_abs:
  assumes "plains bs" and "plains ts"
  shows "Rel (abs_path bs) (abs_path ts) =
     Some (if bs = ts then ''.'' else case drop_common bs ts of (b, t) \<Rightarrow> join [slash] (replicate (length b) ''..'' @ t))"
proof -
  obtain b t where d: "drop_common bs ts = (b, t)" by fastforce
  then obtain c where "bs = c @ b" using drop_common_eq by blast
  then have "plains b" using assms(1) by simp
  then have "\<not> (b \<noteq> [] \<and> t \<noteq> [] \<and> hd b = ''..'')" by (cases b) (auto simp: plain_def)
  with assms d show ?thesis by (auto simp: Rel_def abs_path_inj rel_comps_abs Let_def)
qed

lemma join_dotdot_outside: "outside (join [slash] (''..'' # xs))"
  by (simp add: outside_def join_Cons)

lemma Rel_inside_iff:
  assumes "plains bs" and "plains ts" and "Rel (abs_path bs) (abs_path ts) = Some r"
  shows "\<not> outside r \<longleftrightarrow> prefix bs ts"
proof -
  obtain b t where d: "drop_common bs ts = (b, t)" by fastforce
  then obtain c where c: "bs = c @ b" "ts = c @ t" "b = [] \<or> t = [] \<or> hd b \<noteq> hd t" using drop_common_eq by blast
  have r: "r = (if bs = ts then ''.'' else join [slash] (replicate (length b) ''..'' @ t))"
    using assms(3) d by (auto simp: Rel_abs [OF assms(1,2)])
  have pre: "prefix bs ts \<longleftrightarrow> b = []" using c by (cases b; cases t) (auto simp: prefix_def)
  show ?thesis
  proof (cases b)
    case Nil
    then show ?thesis using r pre join_plain_not_outside [of t] c assms(2) by (auto simp: outside_def)
  next
    case (Cons x xs)
    then have "bs \<noteq> ts" using pre by auto
    with Cons r pre show ?thesis by (simp add: join_dotdot_outside)
  qed
qed

subsection \<open>Parameters\<close>

text \<open>A cmux command: its standard output, or its output, its standard error and the text of the \<open>exec\<close> error.\<close>

datatype cmux_result = CmuxOK string | CmuxErr string string string

record sys =
  git :: "string \<Rightarrow> string list \<Rightarrow> world \<Rightarrow> git_result \<times> fs"
  git_missing :: "string option"          \<comment> \<open>the error of exec.LookPath("git")\<close>
  tree :: "fs \<Rightarrow> key \<Rightarrow> key list"           \<comment> \<open>what filepath.WalkDir visits below a directory, in its order\<close>
  evalSymlinks :: "world \<Rightarrow> string \<Rightarrow> string option"
  sha256 :: "string \<Rightarrow> string"
  cmux :: "string list \<Rightarrow> world \<Rightarrow> cmux_result \<times> fs"
  action_file :: string                   \<comment> \<open>os.Getenv("KRA_SHELL_ACTION_FILE")\<close>

subsection \<open>Trees\<close>

definition Stat :: "world \<Rightarrow> string \<Rightarrow> read_error + node" where
  "Stat w p =
     (let k = comps p
      in if fails w (SStat k) then Inl ReadFailed
         else case files w k of
           Some n \<Rightarrow> Inr n
         | None \<Rightarrow> if below_file (files w) k then Inl ReadFailed else Inl NotExist)"

definition remove_tree :: "fs \<Rightarrow> key \<Rightarrow> fs" where
  "remove_tree F k = (\<lambda>p. if prefix k p then None else F p)"

definition move_tree :: "fs \<Rightarrow> key \<Rightarrow> key \<Rightarrow> fs" where
  "move_tree F src dst =
     (\<lambda>p. if prefix dst p then F (src @ drop (length dst) p) else if prefix src p then None else F p)"

definition RemoveAll :: "string \<Rightarrow> (unit, unit) prog" where
  "RemoveAll p w =
     (let k = comps p
      in if fails w (SRemoveAll k)
         then (Inl (), w\<lparr>files := (\<lambda>q. if prefix k q \<and> lost w q then None else files w q)\<rparr>)
         else (Inr (), w\<lparr>files := remove_tree (files w) k\<rparr>))"

definition Mkdir :: "string \<Rightarrow> (bool, unit) prog" where
  "Mkdir p w =
     (let k = comps p
      in if fails w (SMkdir k) \<or> files w (butlast k) \<noteq> Some DirN then (Inl False, w)
         else if files w k \<noteq> None then (Inl True, w)
         else (Inr (), w\<lparr>files := (files w)(k \<mapsto> DirN)\<rparr>))"

definition MkdirAllP :: "string \<Rightarrow> (unit, unit) prog" where
  "MkdirAllP p w = (case MkdirAll (comps p) w of (ok, w') \<Rightarrow> (if ok then Inr () else Inl (), w'))"

text \<open>
  \<open>os.Rename\<close> of a directory to a path that does not exist. (Onto an empty directory the system call
  would succeed too; the program renames only to paths it has just found absent.)
\<close>

definition RenameTree :: "string \<Rightarrow> string \<Rightarrow> (unit, unit) prog" where
  "RenameTree src dst w =
     (let s = comps src; d = comps dst
      in if fails w (SRename s d) \<or> files w s = None \<or> files w d \<noteq> None
            \<or> files w (butlast d) \<noteq> Some DirN \<or> prefix s d \<or> prefix d s
         then (Inl (), w)
         else (Inr (), w\<lparr>files := move_tree (files w) s d\<rparr>))"

text \<open>\<open>os.Remove\<close> of a file or an empty directory.\<close>

definition RemoveP :: "sys \<Rightarrow> string \<Rightarrow> (read_error, unit) prog" where
  "RemoveP sy p w =
     (let k = comps p
      in if fails w (SRemove k) then (Inl ReadFailed, w)
         else case files w k of
           None \<Rightarrow> (Inl (if below_file (files w) k then ReadFailed else NotExist), w)
         | Some n \<Rightarrow>
             if n = DirN \<and> tree sy (files w) k \<noteq> [] then (Inl ReadFailed, w)
             else (Inr (), w\<lparr>files := (files w)(k := None)\<rparr>))"

text \<open>\<open>os.ReadDir\<close>: the names in a directory, with whether each is a directory.\<close>

definition ReadDir :: "sys \<Rightarrow> world \<Rightarrow> string \<Rightarrow> read_error + (string \<times> bool) list" where
  "ReadDir sy w p =
     (let k = comps p
      in if fails w (SReadDir k) then Inl ReadFailed
         else case files w k of
           None \<Rightarrow> Inl (if below_file (files w) k then ReadFailed else NotExist)
         | Some (FileN _) \<Rightarrow> Inl ReadFailed
         | Some DirN \<Rightarrow> Inr (map (\<lambda>q. (hd q, files w (k @ q) = Some DirN))
                               (filter (\<lambda>q. length q = 1) (tree sy (files w) k))))"

text \<open>\<open>os.WriteFile\<close>: opening may fail (\<open>SCreateTemp\<close> is any creation of a file), and a failed write leaves a torn file.\<close>

definition WriteFile :: "string \<Rightarrow> string \<Rightarrow> (unit, unit) prog" where
  "WriteFile p b w =
     (let k = comps p
      in if fails w (SCreateTemp k) \<or> files w (butlast k) \<noteq> Some DirN \<or> files w k = Some DirN then (Inl (), w)
         else if fails w (SWrite k) then (Inl (), w\<lparr>files := (files w)(k \<mapsto> FileN (torn w))\<rparr>)
         else (Inr (), w\<lparr>files := (files w)(k \<mapsto> FileN b)\<rparr>))"

lemma move_tree_dst: "move_tree F s d (d @ k) = F (s @ k)"
  by (simp add: move_tree_def)

lemma move_tree_src: "\<not> prefix d (s @ k) \<Longrightarrow> move_tree F s d (s @ k) = None"
  by (simp add: move_tree_def)

lemma move_tree_other: "\<not> prefix d k \<Longrightarrow> \<not> prefix s k \<Longrightarrow> move_tree F s d k = F k"
  by (simp add: move_tree_def)

lemma move_tree_back:
  assumes "\<And>k. F (d @ k) = None" and "\<not> prefix s d" and "\<not> prefix d s"
  shows "move_tree (move_tree F s d) d s = F"
proof
  fix p
  have disj: "\<not> (prefix s p \<and> prefix d p)" using assms(2,3) by (metis prefix_same_cases)
  show "move_tree (move_tree F s d) d s p = F p"
  proof (cases "prefix s p")
    case True
    then show ?thesis by (auto simp: move_tree_def prefix_def)
  next
    case False
    then show ?thesis using assms(1) disj by (auto simp: move_tree_def prefix_def)
  qed
qed

end
