(* ===== verification/Git_Util.thy ===== *)
theory Git_Util
  imports Go_Tree Repo_Spec
begin

text \<open>
  \<open>internal/gitutil/gitutil.go\<close>, \<open>internal/cli/git_allowlist.go\<close> and \<open>internal/cli/ws_git_helpers.go\<close>:
  running git and reading its answers. Every run is recorded in \<open>calls\<close>, with its result.
\<close>

subsection \<open>Running git\<close>

definition gitErrText :: "string list \<Rightarrow> string \<Rightarrow> string \<Rightarrow> string" where
  "gitErrText args err out = ''git '' @ join '' '' args @ '' failed: '' @ err @ '' (output='' @ TrimSpace out @ '')''"

definition exec_git :: "sys \<Rightarrow> string \<Rightarrow> string list \<Rightarrow> world \<Rightarrow> git_result \<times> world" where
  "exec_git sy dir args w =
     (case git sy dir args w of (r, F) \<Rightarrow> (r, w\<lparr>files := F, calls := calls w @ [(dir, args, r)]\<rparr>))"

definition EnsureGitInPath :: "sys \<Rightarrow> (string, unit) prog" where
  "EnsureGitInPath sy w =
     (case git_missing sy of None \<Rightarrow> (Inr (), w) | Some t \<Rightarrow> (Inl (''git not found in PATH: '' @ t), w))"

definition runNow :: "sys \<Rightarrow> string \<Rightarrow> string list \<Rightarrow> (string, string) prog" where
  "runNow sy dir args w =
     (case exec_git sy dir args w of
        (GitOK out, w') \<Rightarrow> (Inr (TrimSpace out), w')
      | (GitErr _ err out, w') \<Rightarrow> (Inl (gitErrText args err out), w'))"

text \<open>A command whose exit status 1 means no.\<close>

definition testNow :: "sys \<Rightarrow> string \<Rightarrow> string list \<Rightarrow> string \<Rightarrow> (string, bool) prog" where
  "testNow sy dir args what w =
     (case exec_git sy dir args w of
        (GitOK out, w') \<Rightarrow> (Inr True, w')
      | (GitErr code err out, w') \<Rightarrow>
          if code = Some 1 then (Inr False, w')
          else (Inl (what @ '' failed: '' @ err @ '' (output='' @ TrimSpace out @ '')''), w'))"

definition Run :: "sys \<Rightarrow> string \<Rightarrow> string list \<Rightarrow> (string, string) prog" where
  "Run sy dir args =
     (if args = [] then throw ''git args are required''
      else bindW (EnsureGitInPath sy) (\<lambda>_. runNow sy dir args))"

definition RunBare :: "sys \<Rightarrow> string \<Rightarrow> string list \<Rightarrow> (string, string) prog" where
  "RunBare sy gitDir args =
     (if TrimSpace gitDir = [] then throw ''git dir is required''
      else Run sy [] ([''--git-dir'', gitDir] @ args))"

definition CheckRefFormat :: "sys \<Rightarrow> string \<Rightarrow> (string, unit) prog" where
  "CheckRefFormat sy refname0 =
     (let refname = TrimSpace refname0
      in if refname = [] then throw ''refname is required''
         else bindW (Run sy [] [''check-ref-format'', refname]) (\<lambda>_. ret ()))"

definition ShowRefExistsBare :: "sys \<Rightarrow> string \<Rightarrow> string \<Rightarrow> (string, bool) prog" where
  "ShowRefExistsBare sy gitDir ref0 =
     (let ref = TrimSpace ref0
      in if ref = [] then throw ''ref is required''
         else bindW (EnsureGitInPath sy) (\<lambda>_.
           testNow sy [] [''--git-dir'', gitDir, ''show-ref'', ''--verify'', ''--quiet'', ref] ''git show-ref --verify''))"

definition IsIgnored :: "sys \<Rightarrow> string \<Rightarrow> string \<Rightarrow> (string, bool) prog" where
  "IsIgnored sy dir path0 =
     (let path = TrimSpace path0
      in if path = [] then throw ''path is required''
         else bindW (EnsureGitInPath sy) (\<lambda>_.
           testNow sy dir [''check-ignore'', ''--quiet'', ''--'', path] (''git check-ignore '' @ path)))"

definition DefaultBranchFromRemote :: "sys \<Rightarrow> string \<Rightarrow> (string, string) prog" where
  "DefaultBranchFromRemote sy remoteURL0 =
     (let remoteURL = TrimSpace remoteURL0
      in if remoteURL = [] then throw ''remote url is required''
         else bindW (Run sy [] [''ls-remote'', ''--symref'', remoteURL, ''HEAD'']) (\<lambda>out.
           let branch = fst (ParseRemoteHeadSymref out)
           in if TrimSpace branch = [] then throw ''failed to detect default branch from remote HEAD''
              else ret branch))"

definition EnsureBareRepoFetched :: "sys \<Rightarrow> string \<Rightarrow> string \<Rightarrow> string \<Rightarrow> (string, string) prog" where
  "EnsureBareRepoFetched sy remoteURL0 barePath0 fallback0 =
     (let remoteURL = TrimSpace remoteURL0; barePath = TrimSpace barePath0
      in bindW (guardW (remoteURL \<noteq> []) ''remote url is required'') (\<lambda>_.
         bindW (guardW (barePath \<noteq> []) ''bare path is required'') (\<lambda>_.
         bindW (\<lambda>w. case Stat w barePath of
                  Inr _ \<Rightarrow> (Inr (), w)
                | Inl ReadFailed \<Rightarrow> (Inl ''stat bare repo'', w)
                | Inl NotExist \<Rightarrow> bindW (Run sy [] [''clone'', ''--bare'', remoteURL, barePath]) (\<lambda>_. ret ()) w) (\<lambda>_.
         bindW (ignore (RunBare sy barePath [''config'', ''remote.origin.fetch'', ''+refs/heads/*:refs/remotes/origin/*''])) (\<lambda>_.
         bindW (ignore (RunBare sy barePath [''remote'', ''set-head'', ''origin'', ''-a''])) (\<lambda>_.
         bindW (RunBare sy barePath [''fetch'', ''origin'', ''--prune'']) (\<lambda>_.
         bindW (attempt (RunBare sy barePath [''symbolic-ref'', ''--quiet'', ''refs/remotes/origin/HEAD''])) (\<lambda>r.
           let head = (case r of Inr ref \<Rightarrow> ParseOriginHeadRef ref | Inl _ \<Rightarrow> None);
               fallback = TrimSpace fallback0
           in case head of
                Some b \<Rightarrow> ret (''origin/'' @ b)
              | None \<Rightarrow> if fallback \<noteq> [] then ret (''origin/'' @ fallback)
                        else throw ''failed to detect default base ref (origin/HEAD missing)''))))))))"

subsection \<open>Helpers of the commands\<close>

text \<open>\<open>filepath.EvalSymlinks\<close> followed by \<open>Clean\<close>, the path itself when it fails.\<close>

definition resolveLinks :: "sys \<Rightarrow> world \<Rightarrow> string \<Rightarrow> string" where
  "resolveLinks sy w p = (case evalSymlinks sy w p of None \<Rightarrow> p | Some r \<Rightarrow> Clean r)"

definition toGitTopLevelPath :: "sys \<Rightarrow> string \<Rightarrow> string \<Rightarrow> (string, string) prog" where
  "toGitTopLevelPath sy root0 rootRelativePath =
     bindW (Run sy root0 [''rev-parse'', ''--show-toplevel'']) (\<lambda>topRaw w.
       let top = resolveLinks sy w (Clean (TrimSpace topRaw));
           root = resolveLinks sy w (Clean root0);
           relRoot = (case Rel top root of
                        None \<Rightarrow> ''.''
                      | Some r \<Rightarrow> if outside (Clean r) then ''.'' else Clean r);
           p = Clean rootRelativePath
       in (Inr (if relRoot = ''.'' then p else Clean (pathJoin [relRoot, p])), w))"

definition ensureRootGitWorktree :: "sys \<Rightarrow> string \<Rightarrow> (string, unit) prog" where
  "ensureRootGitWorktree sy root =
     bindW (mapErr (\<lambda>e. ''KRA_ROOT must be a git working tree: '' @ e) (Run sy root [''rev-parse'', ''--show-toplevel'']))
       (\<lambda>out w.
         let ev = (\<lambda>p. case evalSymlinks sy w p of None \<Rightarrow> p | Some r \<Rightarrow> r);
             got = ev (Clean (TrimSpace out)); want = ev (Clean root)
         in case Rel got want of
              None \<Rightarrow> (Inl ''KRA_ROOT must be inside the git worktree'', w)
            | Some rel \<Rightarrow> if outside rel then (Inl ''KRA_ROOT must be inside the git worktree'', w) else (Inr (), w))"

definition ensureNoStagedChanges :: "sys \<Rightarrow> string \<Rightarrow> (string, unit) prog" where
  "ensureNoStagedChanges sy root =
     bindW (Run sy root [''diff'', ''--cached'', ''--name-only'']) (\<lambda>out.
       guardW (TrimSpace out = []) ''git index has staged changes; commit or unstage them before running ws purge'')"

definition detectOriginHeadBaseRef :: "sys \<Rightarrow> string \<Rightarrow> (string, string) prog" where
  "detectOriginHeadBaseRef sy worktreePath =
     bindW (attempt (Run sy worktreePath [''symbolic-ref'', ''--quiet'', ''refs/remotes/origin/HEAD''])) (\<lambda>r.
       case r of
         Inl _ \<Rightarrow> ret []
       | Inr out \<Rightarrow>
           (let ref = TrimSpace out; branch = TrimSpace (TrimPrefix ref ''refs/remotes/origin/'')
            in if \<not> prefix ''refs/remotes/origin/'' ref then ret []
               else if branch = [] then ret [] else ret (''origin/'' @ branch)))"

definition isPathInside :: "sys \<Rightarrow> world \<Rightarrow> string \<Rightarrow> string \<Rightarrow> bool" where
  "isPathInside sy w base target =
     (if TrimSpace base = [] \<or> TrimSpace target = [] then False
      else case Rel (resolveLinks sy w (Clean base)) (resolveLinks sy w (Clean target)) of
        None \<Rightarrow> False
      | Some rel \<Rightarrow> \<not> outside (Clean rel))"

subsection \<open>What the runs leave behind\<close>

text \<open>Git runs only extend the record of calls.\<close>

definition calls_all :: "(git_call \<Rightarrow> bool) \<Rightarrow> world \<Rightarrow> world \<Rightarrow> bool" where
  "calls_all P w w' \<longleftrightarrow> (\<exists>cs. calls w' = calls w @ cs \<and> list_all P cs)"

interpretation git_log: step_relation "calls_all P" for P
  by unfold_locales (auto simp: calls_all_def)

lemma calls_all_mono: "(\<And>c. P c \<Longrightarrow> Q c) \<Longrightarrow> calls_all P w w' \<Longrightarrow> calls_all Q w w'"
  by (auto simp: calls_all_def list_all_iff)

lemma exec_git_log: "calls_all (\<lambda>c. fst c = dir \<and> fst (snd c) = args) w (snd (exec_git sy dir args w))"
  by (auto simp: calls_all_def exec_git_def split: prod.splits)

lemma EnsureGitInPath_log: "always (calls_all P) (EnsureGitInPath sy)"
  by (auto simp: always_def EnsureGitInPath_def calls_all_def split: option.splits)

lemma runNow_log:
  assumes "\<And>r. P (dir, args, r)"
  shows "always (calls_all P) (runNow sy dir args)" and "always (calls_all P) (testNow sy dir args what)"
proof -
  have "calls_all P w (snd (exec_git sy dir args w))" for w
    using calls_all_mono [OF _ exec_git_log, of dir args P] assms by fastforce
  then show "always (calls_all P) (runNow sy dir args)" "always (calls_all P) (testNow sy dir args what)"
    by (auto simp: always_def runNow_def testNow_def split: prod.splits git_result.splits) (metis snd_conv)+
qed

lemma Run_log:
  assumes "\<And>r. P (dir, args, r)"
  shows "always (calls_all P) (Run sy dir args)"
  unfolding Run_def
  by (intro git_log.always_intros EnsureGitInPath_log runNow_log assms)

lemma RunBare_log:
  assumes "\<And>r. P ([], [''--git-dir'', gitDir] @ args, r)"
  shows "always (calls_all P) (RunBare sy gitDir args)"
  unfolding RunBare_def by (intro git_log.always_intros Run_log assms)

lemma IsIgnored_log:
  assumes "\<And>p r. P (dir, [''check-ignore'', ''--quiet'', ''--'', p], r)"
  shows "always (calls_all P) (IsIgnored sy dir path)"
  unfolding IsIgnored_def Let_def by (intro git_log.always_intros EnsureGitInPath_log runNow_log assms)

lemma toGitTopLevelPath_log:
  assumes "\<And>r. P (root, [''rev-parse'', ''--show-toplevel''], r)"
  shows "always (calls_all P) (toGitTopLevelPath sy root p)"
  unfolding toGitTopLevelPath_def Let_def
  by (intro git_log.always_bind Run_log assms) (simp add: always_def git_log.R_refl)

lemma Run_result:
  assumes "Run sy dir args w = (Inr out, w')"
  shows "\<exists>raw. calls w' = calls w @ [(dir, args, GitOK raw)] \<and> out = TrimSpace raw"
  using assms
  by (auto simp: Run_def EnsureGitInPath_def bindW_def runNow_def exec_git_def
      split: if_splits option.splits prod.splits git_result.splits)

end
