(* ===== verification/Ws_Commit.thy ===== *)
theory Ws_Commit
  imports Git_Util
begin

text \<open>
  The commits the workspace commands make in the root's repository: \<open>commitClosePreSnapshot\<close> and
  \<open>commitArchiveChange\<close> (\<open>ws_close.go\<close>), \<open>commitReopenPreSnapshot\<close> and \<open>commitReopenChange\<close>
  (\<open>ws_reopen.go\<close>), \<open>commitPurgePreSnapshot\<close> and \<open>commitPurgeChange\<close> (\<open>ws_purge.go\<close>) and
  \<open>commitCreateWorkspace\<close> (\<open>ws_create.go\<close>). Each stages its paths, lists what is staged, refuses
  anything outside its allowlist, commits with \<open>--only\<close> and unstages.
\<close>

datatype commit_error = GitError string | UnexpectedStaged string | IgnoredFiles string

subsection \<open>Shared steps\<close>

definition workspacesArg :: "string \<Rightarrow> string" where "workspacesArg wid = pathJoin [''workspaces'', wid]"
definition archiveArg :: "string \<Rightarrow> string" where "archiveArg wid = pathJoin [''archive'', wid]"
definition baselineArg :: "string \<Rightarrow> string" where
  "baselineArg wid = pathJoin [''.kra'', ''state'', ''workspace-baselines'', wid @ ''.json'']"
definition workStateArg :: string where
  "workStateArg = pathJoin [''.kra'', ''state'', ''workspace-workstate.json'']"

definition didNotMatch :: "string \<Rightarrow> bool" where
  "didNotMatch e \<longleftrightarrow> Contains e ''did not match any files'' \<or> Contains e ''did not match any file''"

definition topPath :: "sys \<Rightarrow> string \<Rightarrow> string \<Rightarrow> (commit_error, string) prog" where
  "topPath sy root p = mapErr GitError (toGitTopLevelPath sy root p)"

definition resetPaths :: "sys \<Rightarrow> string \<Rightarrow> string list \<Rightarrow> (commit_error, unit) prog" where
  "resetPaths sy root args = ignore (Run sy root ([''reset'', ''-q'', ''--''] @ args))"

definition addArg :: "sys \<Rightarrow> string \<Rightarrow> string \<Rightarrow> (string, string) prog" where
  "addArg sy root arg = Run sy root [''add'', ''-A'', ''--'', arg]"

text \<open>\<open>git add\<close> that tolerates a path git does not know, and runs \<open>reset\<close> on any other error.\<close>

definition addOrReset ::
    "sys \<Rightarrow> string \<Rightarrow> (commit_error, unit) prog \<Rightarrow> string \<Rightarrow> (commit_error, unit) prog" where
  "addOrReset sy root reset arg =
     bindW (attempt (addArg sy root arg)) (\<lambda>r.
       case r of
         Inr _ \<Rightarrow> ret ()
       | Inl e \<Rightarrow> if didNotMatch e then ret () else bindW reset (\<lambda>_. throw (GitError e)))"

definition diffCached ::
    "sys \<Rightarrow> string \<Rightarrow> (commit_error, unit) prog \<Rightarrow> string list \<Rightarrow> (commit_error, string) prog" where
  "diffCached sy root reset args =
     onErr (Run sy root ([''diff'', ''--cached'', ''--name-only'', ''--''] @ args)) (\<lambda>_. reset) GitError"

definition stagedPaths :: "string \<Rightarrow> string list" where
  "stagedPaths out = map Clean (Fields out)"

definition commitOnly ::
    "sys \<Rightarrow> string \<Rightarrow> (commit_error, unit) prog \<Rightarrow> string list \<Rightarrow> (commit_error, string) prog" where
  "commitOnly sy root reset cargs =
     bindW (onErr (Run sy root (''commit'' # cargs)) (\<lambda>_. reset) GitError) (\<lambda>_.
     bindW reset (\<lambda>_.
     bindW (mapErr GitError (Run sy root [''rev-parse'', ''HEAD''])) (\<lambda>sha. ret (TrimSpace sha))))"

text \<open>The first staged path that is not allowed ends the routine.\<close>

definition checkStaged ::
    "(string \<Rightarrow> bool) \<Rightarrow> (commit_error, unit) prog \<Rightarrow> string list \<Rightarrow> (commit_error, 'a) prog \<Rightarrow> (commit_error, 'a) prog" where
  "checkStaged allow reset staged k =
     (case find (\<lambda>p. \<not> allow p) staged of
        Some p \<Rightarrow> bindW reset (\<lambda>_. throw (UnexpectedStaged p))
      | None \<Rightarrow> k)"

definition opt_arg :: "bool \<Rightarrow> string \<Rightarrow> string list" where
  "opt_arg b a = (if b then [a] else [])"

subsection \<open>Snapshot before the change\<close>

text \<open>The three routines differ in the directory and in the message.\<close>

definition commitPre :: "string \<Rightarrow> sys \<Rightarrow> string \<Rightarrow> string \<Rightarrow> (commit_error, string) prog" where
  "commitPre msg sy root arg =
     bindW (topPath sy root arg) (\<lambda>top.
       let pre = top @ ''/''; reset = resetPaths sy root [arg]
       in bindW (mapErr GitError (addArg sy root arg)) (\<lambda>_.
          bindW (diffCached sy root reset [arg]) (\<lambda>out.
          checkStaged (\<lambda>p. prefix pre p) reset (stagedPaths out)
            (commitOnly sy root reset [''--allow-empty'', ''--only'', ''-m'', msg, ''--'', arg]))))"

definition commitClosePreSnapshot :: "sys \<Rightarrow> string \<Rightarrow> string \<Rightarrow> (commit_error, string) prog" where
  "commitClosePreSnapshot sy root wid = commitPre (''close-pre: '' @ wid) sy root (workspacesArg wid)"

definition commitReopenPreSnapshot :: "sys \<Rightarrow> string \<Rightarrow> string \<Rightarrow> (commit_error, string) prog" where
  "commitReopenPreSnapshot sy root wid = commitPre (''reopen-pre: '' @ wid) sy root (archiveArg wid)"

definition commitPurgePreSnapshot :: "sys \<Rightarrow> string \<Rightarrow> string \<Rightarrow> (commit_error, string) prog" where
  "commitPurgePreSnapshot sy root wid = commitPre (''purge-pre: '' @ wid) sy root (archiveArg wid)"

subsection \<open>Archive\<close>

definition isGitIgnoredRelativeToRoot :: "sys \<Rightarrow> string \<Rightarrow> string \<Rightarrow> (string, bool) prog" where
  "isGitIgnoredRelativeToRoot sy root relPath = IsIgnored sy root (Clean relPath)"

definition expectArchived ::
    "sys \<Rightarrow> string \<Rightarrow> string \<Rightarrow> (commit_error, unit) prog \<Rightarrow> string list \<Rightarrow> string \<Rightarrow> (commit_error, unit) prog" where
  "expectArchived sy root wid reset staged rel =
     bindW (onErr (toGitTopLevelPath sy root (pathJoin [''archive'', wid, rel]))
              (\<lambda>_. resetPaths sy root [archiveArg wid, workspacesArg wid]) GitError) (\<lambda>candidate.
       if candidate \<in> set staged then ret ()
       else bindW (onErr (isGitIgnoredRelativeToRoot sy root (pathJoin [''archive'', wid, rel])) (\<lambda>_. reset) GitError)
         (\<lambda>ignored. if ignored then ret () else bindW reset (\<lambda>_. throw (IgnoredFiles rel))))"

definition archiveAllow :: "string \<Rightarrow> string \<Rightarrow> string \<Rightarrow> string \<Rightarrow> string \<Rightarrow> bool" where
  "archiveAllow ap wp bp sp p \<longleftrightarrow> prefix (ap @ ''/'') p \<or> prefix (wp @ ''/'') p \<or> p = bp \<or> p = sp"

definition commitArchiveChange :: "sys \<Rightarrow> string \<Rightarrow> string \<Rightarrow> string list \<Rightarrow> (commit_error, string) prog" where
  "commitArchiveChange sy root wid expectedArchiveFiles =
     bindW (topPath sy root (archiveArg wid)) (\<lambda>ap.
     bindW (topPath sy root (workspacesArg wid)) (\<lambda>wp.
     bindW (topPath sy root (baselineArg wid)) (\<lambda>bp.
     bindW (topPath sy root workStateArg) (\<lambda>sp.
       let reset = resetPaths sy root [archiveArg wid, workspacesArg wid, baselineArg wid, workStateArg]
       in bindW (mapErr GitError (addArg sy root (archiveArg wid))) (\<lambda>_.
          bindW (addOrReset sy root reset (workspacesArg wid)) (\<lambda>_.
          bindW (forW (addOrReset sy root reset) [baselineArg wid, workStateArg]) (\<lambda>_.
          bindW (diffCached sy root reset [archiveArg wid, workspacesArg wid, baselineArg wid, workStateArg]) (\<lambda>out.
          bindW (diffCached sy root reset [workspacesArg wid]) (\<lambda>workspacesOut.
            let staged = stagedPaths out
            in bindW (forW (expectArchived sy root wid reset staged) expectedArchiveFiles) (\<lambda>_.
               checkStaged (archiveAllow ap wp bp sp) reset staged
                 (commitOnly sy root reset ([''--only'', ''-m'', ''archive: '' @ wid, ''--'', archiveArg wid]
                    @ opt_arg (TrimSpace workspacesOut \<noteq> []) (workspacesArg wid)
                    @ opt_arg (bp \<in> set staged) (baselineArg wid)
                    @ opt_arg (sp \<in> set staged) workStateArg))))))))))))"

subsection \<open>Reopen, purge and create\<close>

text \<open>Whether the loop over the staged paths meets the baseline and the work-state file.\<close>

definition baselineStage :: "(string \<Rightarrow> bool) \<Rightarrow> string \<Rightarrow> string list \<Rightarrow> bool" where
  "baselineStage inside bp staged = list_ex (\<lambda>p. \<not> inside p \<and> p = bp) staged"

definition workStateStage :: "(string \<Rightarrow> bool) \<Rightarrow> string \<Rightarrow> string \<Rightarrow> string list \<Rightarrow> bool" where
  "workStateStage inside bp sp staged = list_ex (\<lambda>p. \<not> inside p \<and> p \<noteq> bp \<and> p = sp) staged"

definition commitReopenChange :: "sys \<Rightarrow> string \<Rightarrow> string \<Rightarrow> (commit_error, string) prog" where
  "commitReopenChange sy root wid =
     bindW (topPath sy root (workspacesArg wid)) (\<lambda>wp.
     bindW (topPath sy root (archiveArg wid)) (\<lambda>ap.
     bindW (topPath sy root (baselineArg wid)) (\<lambda>bp.
     bindW (topPath sy root workStateArg) (\<lambda>sp.
       let reset = resetPaths sy root [workspacesArg wid, archiveArg wid, baselineArg wid, workStateArg];
           inside = (\<lambda>p. prefix (wp @ ''/'') p \<or> prefix (ap @ ''/'') p)
       in bindW (mapErr GitError (addArg sy root (workspacesArg wid))) (\<lambda>_.
          bindW (addOrReset sy root reset (archiveArg wid)) (\<lambda>_.
          bindW (forW (addOrReset sy root reset) [baselineArg wid, workStateArg]) (\<lambda>_.
          bindW (diffCached sy root reset [workspacesArg wid, archiveArg wid, baselineArg wid, workStateArg]) (\<lambda>out.
            let staged = stagedPaths out
            in checkStaged (archiveAllow ap wp bp sp) reset staged
                 (commitOnly sy root reset
                    ([''--only'', ''-m'', ''reopen: '' @ wid, ''--'', workspacesArg wid, archiveArg wid]
                     @ opt_arg (baselineStage inside bp staged) (baselineArg wid)
                     @ opt_arg (workStateStage inside bp sp staged) workStateArg))))))))))"

definition commitPurgeChange :: "sys \<Rightarrow> string \<Rightarrow> string \<Rightarrow> (commit_error, string) prog" where
  "commitPurgeChange sy root wid =
     bindW (topPath sy root (archiveArg wid)) (\<lambda>ap.
     bindW (topPath sy root (workspacesArg wid)) (\<lambda>wp.
     bindW (topPath sy root (baselineArg wid)) (\<lambda>bp.
     bindW (topPath sy root workStateArg) (\<lambda>sp.
       let reset = resetPaths sy root [archiveArg wid, workspacesArg wid, baselineArg wid, workStateArg];
           inside = (\<lambda>p. prefix (ap @ ''/'') p \<or> prefix (wp @ ''/'') p)
       in bindW (addOrReset sy root (ret ()) (archiveArg wid)) (\<lambda>_.
          bindW (addOrReset sy root reset (workspacesArg wid)) (\<lambda>_.
          bindW (forW (addOrReset sy root reset) [baselineArg wid, workStateArg]) (\<lambda>_.
          bindW (diffCached sy root reset [archiveArg wid, workspacesArg wid, baselineArg wid, workStateArg]) (\<lambda>out.
          bindW (diffCached sy root reset [workspacesArg wid]) (\<lambda>workspacesOut.
            let staged = stagedPaths out
            in checkStaged (archiveAllow ap wp bp sp) reset staged
                 (commitOnly sy root reset
                    ([''--allow-empty'', ''--only'', ''-m'', ''purge: '' @ wid, ''--'', archiveArg wid]
                     @ opt_arg (TrimSpace workspacesOut \<noteq> []) (workspacesArg wid)
                     @ opt_arg (baselineStage inside bp staged) (baselineArg wid)
                     @ opt_arg (workStateStage inside bp sp staged) workStateArg)))))))))))"

definition resetCreateStaging :: "sys \<Rightarrow> string \<Rightarrow> string list \<Rightarrow> (commit_error, unit) prog" where
  "resetCreateStaging sy root args =
     forW (\<lambda>arg. if TrimSpace arg = [] then ret () else resetPaths sy root [arg]) args"

definition createAllow :: "string \<Rightarrow> string \<Rightarrow> string \<Rightarrow> string \<Rightarrow> bool" where
  "createAllow wp bp sp p \<longleftrightarrow> prefix (wp @ ''/'') p \<or> p = bp \<or> p = sp"

definition commitCreateWorkspace :: "sys \<Rightarrow> string \<Rightarrow> string \<Rightarrow> (commit_error, string) prog" where
  "commitCreateWorkspace sy root wid =
     bindW (mapErr GitError (ensureRootGitWorktree sy root)) (\<lambda>_.
     bindW (topPath sy root (workspacesArg wid)) (\<lambda>wp.
     bindW (topPath sy root (baselineArg wid)) (\<lambda>bp.
     bindW (topPath sy root workStateArg) (\<lambda>sp.
       let args = [workspacesArg wid, baselineArg wid, workStateArg];
           reset = resetCreateStaging sy root args;
           inside = (\<lambda>p. prefix (wp @ ''/'') p)
       in bindW (forW (addOrReset sy root reset) args) (\<lambda>_.
          bindW (diffCached sy root reset args) (\<lambda>out.
            let staged = stagedPaths out
            in checkStaged (createAllow wp bp sp) reset staged
                 (commitOnly sy root reset
                    ([''--only'', ''-m'', ''create: '' @ wid, ''--'', workspacesArg wid]
                     @ opt_arg (baselineStage inside bp staged) (baselineArg wid)
                     @ opt_arg (workStateStage inside bp sp staged) workStateArg))))))))"

subsection \<open>Reasoning about the calls\<close>

definition is_commit :: "git_call \<Rightarrow> bool" where
  "is_commit c \<longleftrightarrow> (case c of (dir, args, r) \<Rightarrow> args \<noteq> [] \<and> hd args = ''commit'')"

text \<open>No commit before the first call with \<open>good\<close>.\<close>

fun preceded :: "(git_call \<Rightarrow> bool) \<Rightarrow> git_call list \<Rightarrow> bool" where
  "preceded good [] = True"
| "preceded good (c # cs) = (\<not> is_commit c \<and> (good c \<or> preceded good cs))"

lemma preceded_append: "list_all (\<lambda>c. \<not> is_commit c) as \<Longrightarrow> preceded good bs \<Longrightarrow> preceded good (as @ bs)"
  by (induction as) auto

lemma preceded_none: "list_all (\<lambda>c. \<not> is_commit c) cs \<Longrightarrow> preceded good cs"
  using preceded_append [of cs good "[]"] by simp

lemma preceded_commit:
  assumes "preceded good (xs @ c # ys)" and "is_commit c"
  shows "\<exists>d\<in>set xs. good d"
  using assms by (induction xs) auto

abbreviation nocommit :: "('e, 'a) prog \<Rightarrow> bool" where
  "nocommit m \<equiv> always (calls_all (\<lambda>c. \<not> is_commit c)) m"

abbreviation logs :: "('e, 'a) prog \<Rightarrow> bool" where
  "logs m \<equiv> always (calls_all (\<lambda>c. True)) m"

definition guarded :: "(git_call \<Rightarrow> bool) \<Rightarrow> ('e, 'a) prog \<Rightarrow> bool" where
  "guarded good m \<longleftrightarrow> (\<forall>w. \<exists>cs. calls (snd (m w)) = calls w @ cs \<and> preceded good cs)"

lemma calls_logD: "always (calls_all P) m \<Longrightarrow> m w = (r, w') \<Longrightarrow> \<exists>cs. calls w' = calls w @ cs \<and> list_all P cs"
  by (metis always_def calls_all_def snd_conv)

lemma guarded_nocommit: "nocommit m \<Longrightarrow> guarded good m"
  unfolding guarded_def by (metis always_def calls_all_def preceded_none)

lemma guarded_bind:
  assumes "nocommit m" and "\<And>v w w'. m w = (Inr v, w') \<Longrightarrow> guarded good (f v)"
  shows "guarded good (bindW m f)"
  unfolding guarded_def
proof
  fix w
  obtain r w' where m: "m w = (r, w')" by fastforce
  obtain as where as: "calls w' = calls w @ as" "list_all (\<lambda>c. \<not> is_commit c) as"
    using calls_logD [OF assms(1) m] by blast
  show "\<exists>cs. calls (snd (bindW m f w)) = calls w @ cs \<and> preceded good cs"
  proof (cases r)
    case (Inl e)
    with m as preceded_none [OF as(2)] show ?thesis by (simp add: bindW_def)
  next
    case (Inr v)
    with assms(2) m obtain bs where bs: "calls (snd (f v w')) = calls w' @ bs" "preceded good bs"
      unfolding guarded_def by blast
    with Inr m as preceded_append [OF as(2)] show ?thesis by (intro exI [of _ "as @ bs"]) (simp add: bindW_def)
  qed
qed

definition diffArgs :: "string list \<Rightarrow> string list" where
  "diffArgs args = [''diff'', ''--cached'', ''--name-only'', ''--''] @ args"

lemma diffCached_nocommit:
  "nocommit reset \<Longrightarrow> nocommit (diffCached sy root reset args)"
  unfolding diffCached_def by (intro git_log.always_intros Run_log) (simp_all add: is_commit_def)

lemma guarded_diff:
  assumes "nocommit reset" and "\<And>out. logs (f out)"
    and "\<And>raw. \<not> good (root, diffArgs args, GitOK raw) \<Longrightarrow> nocommit (f (TrimSpace raw))"
  shows "guarded good (bindW (diffCached sy root reset args) f)"
  unfolding guarded_def
proof
  fix w
  obtain r w' where d: "diffCached sy root reset args w = (r, w')" by fastforce
  show "\<exists>cs. calls (snd (bindW (diffCached sy root reset args) f w)) = calls w @ cs \<and> preceded good cs"
  proof (cases r)
    case (Inl e)
    with d calls_logD [OF diffCached_nocommit [OF assms(1)] d] preceded_none show ?thesis
      by (fastforce simp: bindW_def)
  next
    case (Inr out)
    then have "Run sy root (diffArgs args) w = (Inr out, w')" using d by (simp add: diffCached_def diffArgs_def)
    then obtain raw where raw: "calls w' = calls w @ [(root, diffArgs args, GitOK raw)]" "out = TrimSpace raw"
      using Run_result by blast
    let ?d = "(root, diffArgs args, GitOK raw)"
    have nd: "\<not> is_commit ?d" by (simp add: is_commit_def diffArgs_def)
    obtain q w2 where f: "f out w' = (q, w2)" by fastforce
    have "\<exists>bs. calls w2 = calls w' @ bs \<and> (good ?d \<or> preceded good bs)"
      using calls_logD [OF assms(2) f] calls_logD [OF assms(3) f [unfolded raw(2)]] preceded_none by blast
    then obtain bs where "calls w2 = calls w @ ?d # bs" "good ?d \<or> preceded good bs" using raw(1) by auto
    with Inr d f nd show ?thesis by (intro exI [of _ "?d # bs"]) (simp add: bindW_def)
  qed
qed

subsection \<open>Scope of the routines\<close>

text \<open>The paths after \<open>--\<close>; \<open>add\<close>, \<open>reset\<close> and \<open>commit\<close> change the index or the history.\<close>

definition pathspec :: "string list \<Rightarrow> string list" where
  "pathspec args = tl (dropWhile (\<lambda>a. a \<noteq> ''--'') args)"

definition in_scope :: "string \<Rightarrow> string list \<Rightarrow> git_call \<Rightarrow> bool" where
  "in_scope root scope c \<longleftrightarrow> (case c of (dir, args, r) \<Rightarrow>
     args \<noteq> [] \<and> hd args \<in> {''add'', ''reset'', ''commit''} \<longrightarrow>
       dir = root \<and> ''--'' \<in> set args \<and> set (pathspec args) \<subseteq> set scope)"

datatype commit_op = ClosePre | Archive "string list" | ReopenPre | Reopen | PurgePre | Purge | Create

fun runCommit :: "commit_op \<Rightarrow> sys \<Rightarrow> string \<Rightarrow> string \<Rightarrow> (commit_error, string) prog" where
  "runCommit ClosePre sy root wid = commitClosePreSnapshot sy root wid"
| "runCommit (Archive expected) sy root wid = commitArchiveChange sy root wid expected"
| "runCommit ReopenPre sy root wid = commitReopenPreSnapshot sy root wid"
| "runCommit Reopen sy root wid = commitReopenChange sy root wid"
| "runCommit PurgePre sy root wid = commitPurgePreSnapshot sy root wid"
| "runCommit Purge sy root wid = commitPurgeChange sy root wid"
| "runCommit Create sy root wid = commitCreateWorkspace sy root wid"

text \<open>The paths a routine may stage and commit.\<close>

fun opScope :: "commit_op \<Rightarrow> string \<Rightarrow> string list" where
  "opScope ClosePre wid = [workspacesArg wid]"
| "opScope (Archive _) wid = [archiveArg wid, workspacesArg wid, baselineArg wid, workStateArg]"
| "opScope ReopenPre wid = [archiveArg wid]"
| "opScope Reopen wid = [workspacesArg wid, archiveArg wid, baselineArg wid, workStateArg]"
| "opScope PurgePre wid = [archiveArg wid]"
| "opScope Purge wid = [archiveArg wid, workspacesArg wid, baselineArg wid, workStateArg]"
| "opScope Create wid = [workspacesArg wid, baselineArg wid, workStateArg]"

text \<open>
  A policy on git calls that admits everything the routines do short of committing. The steps keep
  every such policy; the routines are then judged by the policy on their commit alone.
\<close>

locale call_policy =
  fixes P :: "git_call \<Rightarrow> bool" and root :: string and scope :: "string list"
  assumes p_rev: "P (root, [''rev-parse'', x], r)"
    and p_reset: "set args \<subseteq> set scope \<Longrightarrow> P (root, [''reset'', ''-q'', ''--''] @ args, r)"
    and p_add: "a \<in> set scope \<Longrightarrow> P (root, [''add'', ''-A'', ''--'', a], r)"
    and p_diff: "P (root, [''diff'', ''--cached'', ''--name-only'', ''--''] @ args, r)"
    and p_ignore: "P (root, [''check-ignore'', ''--quiet'', ''--'', q], r)"
begin

lemma topPath_step: "always (calls_all P) (topPath sy root p)"
  unfolding topPath_def by (intro git_log.always_intros toGitTopLevelPath_log p_rev)

lemma reset_step: "set args \<subseteq> set scope \<Longrightarrow> always (calls_all P) (resetPaths sy root args)"
  unfolding resetPaths_def by (intro git_log.always_intros Run_log p_reset)

lemma resetCreate_step: "set args \<subseteq> set scope \<Longrightarrow> always (calls_all P) (resetCreateStaging sy root args)"
  unfolding resetCreateStaging_def by (intro git_log.always_intros reset_step) auto

lemma add_step: "a \<in> set scope \<Longrightarrow> always (calls_all P) (addArg sy root a)"
  unfolding addArg_def by (intro Run_log p_add)

lemma addOrReset_step:
  "a \<in> set scope \<Longrightarrow> always (calls_all P) reset \<Longrightarrow> always (calls_all P) (addOrReset sy root reset a)"
  unfolding addOrReset_def
  by (intro git_log.always_bind git_log.always_attempt add_step)
    (auto intro!: git_log.always_intros split: sum.splits)

lemma diff_step: "always (calls_all P) reset \<Longrightarrow> always (calls_all P) (diffCached sy root reset args)"
  unfolding diffCached_def by (intro git_log.always_intros Run_log p_diff)

lemma check_step:
  "always (calls_all P) reset \<Longrightarrow> (list_all allow staged \<Longrightarrow> always (calls_all P) k) \<Longrightarrow>
     always (calls_all P) (checkStaged allow reset staged k)"
  by (auto simp: checkStaged_def find_None_iff list_all_iff split: option.splits intro!: git_log.always_intros)

lemma expect_step:
  assumes "always (calls_all P) reset" and "{archiveArg wid, workspacesArg wid} \<subseteq> set scope"
  shows "always (calls_all P) (expectArchived sy root wid reset staged rel)"
  unfolding expectArchived_def isGitIgnoredRelativeToRoot_def
  using assms by (intro git_log.always_intros toGitTopLevelPath_log IsIgnored_log reset_step p_rev p_ignore) auto

lemma commit_step:
  "always (calls_all P) reset \<Longrightarrow> (\<And>r. P (root, ''commit'' # cargs, r)) \<Longrightarrow>
     always (calls_all P) (commitOnly sy root reset cargs)"
  unfolding commitOnly_def by (intro git_log.always_intros Run_log p_rev)

lemma ensureRoot_step: "always (calls_all P) (ensureRootGitWorktree sy root)"
  unfolding ensureRootGitWorktree_def
  by (intro git_log.always_bind git_log.always_mapErr Run_log p_rev)
    (auto simp: always_def Let_def git_log.R_refl split: option.splits)

lemmas steps = topPath_step reset_step resetCreate_step add_step addOrReset_step diff_step check_step
  expect_step commit_step ensureRoot_step

text \<open>The routines, given the policy on their commits.\<close>

lemmas routine_intros = git_log.always_bind git_log.always_mapErr git_log.always_for git_log.always_ret steps

lemma commitPre_step:
  assumes "arg \<in> set scope" and "\<And>r. P (root, [''commit'', ''--allow-empty'', ''--only'', ''-m'', msg, ''--'', arg], r)"
  shows "always (calls_all P) (commitPre msg sy root arg)"
  unfolding commitPre_def Let_def by (intro routine_intros) (simp_all add: assms)

lemma archive_step:
  assumes "scope = opScope (Archive expected) wid"
    and "\<And>cargs r. \<lbrakk>''--'' \<in> set cargs; set (pathspec (''commit'' # cargs)) \<subseteq> set scope\<rbrakk> \<Longrightarrow> P (root, ''commit'' # cargs, r)"
  shows "always (calls_all P) (commitArchiveChange sy root wid expected)"
  unfolding commitArchiveChange_def Let_def
  by (intro routine_intros assms(2)) (auto simp: pathspec_def opt_arg_def assms(1))

lemma reopen_step:
  assumes "scope = opScope Reopen wid"
    and "\<And>cargs r. \<lbrakk>''--'' \<in> set cargs; set (pathspec (''commit'' # cargs)) \<subseteq> set scope\<rbrakk> \<Longrightarrow> P (root, ''commit'' # cargs, r)"
  shows "always (calls_all P) (commitReopenChange sy root wid)"
  unfolding commitReopenChange_def Let_def
  by (intro routine_intros assms(2)) (auto simp: pathspec_def opt_arg_def assms(1))

lemma purge_step:
  assumes "scope = opScope Purge wid"
    and "\<And>cargs r. \<lbrakk>''--'' \<in> set cargs; set (pathspec (''commit'' # cargs)) \<subseteq> set scope\<rbrakk> \<Longrightarrow> P (root, ''commit'' # cargs, r)"
  shows "always (calls_all P) (commitPurgeChange sy root wid)"
  unfolding commitPurgeChange_def Let_def
  by (intro routine_intros assms(2)) (auto simp: pathspec_def opt_arg_def assms(1))

lemma create_step:
  assumes "scope = opScope Create wid"
    and "\<And>cargs r. \<lbrakk>''--'' \<in> set cargs; set (pathspec (''commit'' # cargs)) \<subseteq> set scope\<rbrakk> \<Longrightarrow> P (root, ''commit'' # cargs, r)"
  shows "always (calls_all P) (commitCreateWorkspace sy root wid)"
  unfolding commitCreateWorkspace_def Let_def
  by (intro routine_intros assms(2)) (auto simp: pathspec_def opt_arg_def assms(1))

lemma runCommit_step:
  assumes "scope = opScope op wid"
    and "\<And>cargs r. \<lbrakk>''--'' \<in> set cargs; set (pathspec (''commit'' # cargs)) \<subseteq> set scope\<rbrakk> \<Longrightarrow> P (root, ''commit'' # cargs, r)"
  shows "always (calls_all P) (runCommit op sy root wid)"
proof -
  have pre: "always (calls_all P) (commitPre msg sy root arg)" if "scope = [arg]" "msg \<noteq> ''--''" for msg arg
    using that by (intro commitPre_step assms(2)) (auto simp: pathspec_def)
  show ?thesis
  proof (cases op)
    case (Archive x)
    show ?thesis unfolding Archive runCommit.simps by (rule archive_step) (use assms Archive in auto)
  next
    case Reopen
    show ?thesis unfolding Reopen runCommit.simps by (rule reopen_step) (use assms Reopen in auto)
  next
    case Purge
    show ?thesis unfolding Purge runCommit.simps by (rule purge_step) (use assms Purge in auto)
  next
    case Create
    show ?thesis unfolding Create runCommit.simps by (rule create_step) (use assms Create in auto)
  qed (use assms(1) pre in \<open>simp_all add: commitClosePreSnapshot_def commitReopenPreSnapshot_def commitPurgePreSnapshot_def\<close>)
qed

end

interpretation scope_policy: call_policy "in_scope root scope" root scope for root scope
  by unfold_locales (auto simp: in_scope_def pathspec_def)

interpretation nocommit_policy: call_policy "\<lambda>c. \<not> is_commit c" root scope for root scope
  by unfold_locales (simp_all add: is_commit_def)

interpretation log_policy: call_policy "\<lambda>c. True" root scope for root scope
  by unfold_locales simp_all

subsection \<open>Commits follow an approved listing\<close>

text \<open>
  \<open>tp\<close> is the path \<open>arg\<close> of the root as git names it, from its top level: \<open>arg\<close> itself, or \<open>arg\<close> below
  the root's own place in the repository.
\<close>

definition is_top :: "string \<Rightarrow> string \<Rightarrow> bool" where
  "is_top arg tp \<longleftrightarrow> tp = Clean arg \<or> (\<exists>r. tp = Clean (pathJoin [r, Clean arg]))"

definition approves :: "string \<Rightarrow> commit_op \<Rightarrow> string \<Rightarrow> git_call \<Rightarrow> bool" where
  "approves root op wid c \<longleftrightarrow> (\<exists>raw ap wp bp sp. c = (root, diffArgs (opScope op wid), GitOK raw)
     \<and> is_top (archiveArg wid) ap \<and> is_top (workspacesArg wid) wp \<and> is_top (baselineArg wid) bp \<and> is_top workStateArg sp
     \<and> list_all (archiveAllow ap wp bp sp) (stagedPaths (TrimSpace raw)))"

lemma topPath_is_top: "topPath sy root arg w = (Inr tp, w') \<Longrightarrow> is_top arg tp"
  by (auto simp: topPath_def toGitTopLevelPath_def bindW_Inr Let_def is_top_def split: if_splits)

lemma is_top_self: "is_top arg (Clean arg)" by (simp add: is_top_def)

lemma not_approved:
  assumes "\<not> approves root op wid (root, diffArgs (opScope op wid), GitOK raw)"
    and "is_top (archiveArg wid) ap" "is_top (workspacesArg wid) wp" "is_top (baselineArg wid) bp" "is_top workStateArg sp"
  shows "\<not> list_all (archiveAllow ap wp bp sp) (stagedPaths (TrimSpace raw))"
  using assms by (auto simp: approves_def)

lemmas no_steps = nocommit_policy.routine_intros
lemmas log_steps = log_policy.routine_intros

lemma list_all_weaken: "\<not> list_all Q xs \<Longrightarrow> (\<And>x. P x \<Longrightarrow> Q x) \<Longrightarrow> \<not> list_all P xs"
  by (auto simp: list_all_iff)

text \<open>The refused listing ends a routine without a commit.\<close>

lemma check_refused:
  "nocommit reset \<Longrightarrow> \<not> list_all allow staged \<Longrightarrow> nocommit (checkStaged allow reset staged k)"
  using nocommit_policy.check_step by blast

lemma commitPre_guarded:
  assumes "opScope op wid = [arg]" and "arg = workspacesArg wid \<or> arg = archiveArg wid"
  shows "guarded (approves root op wid) (commitPre msg sy root arg)"
proof -
  have "\<not> list_all (\<lambda>p. prefix (tp @ ''/'') p) (stagedPaths (TrimSpace raw))"
    if "is_top arg tp" "\<not> approves root op wid (root, diffArgs [arg], GitOK raw)" for tp raw
    using assms(2)
  proof
    assume a: "arg = workspacesArg wid"
    have "\<not> list_all (archiveAllow (Clean (archiveArg wid)) tp (Clean (baselineArg wid)) (Clean workStateArg))
        (stagedPaths (TrimSpace raw))"
      using that a assms(1) is_top_self by (intro not_approved [of root op]) simp_all
    then show ?thesis by (rule list_all_weaken) (simp add: archiveAllow_def)
  next
    assume a: "arg = archiveArg wid"
    have "\<not> list_all (archiveAllow tp (Clean (workspacesArg wid)) (Clean (baselineArg wid)) (Clean workStateArg))
        (stagedPaths (TrimSpace raw))"
      using that a assms(1) is_top_self by (intro not_approved [of root op]) simp_all
    then show ?thesis by (rule list_all_weaken) (simp add: archiveAllow_def)
  qed
  then show ?thesis
    unfolding commitPre_def Let_def
    by (intro guarded_bind guarded_diff nocommit_policy.steps log_policy.steps log_policy.check_step check_refused
        git_log.always_mapErr nocommit_policy.reset_step [of _ "[arg]"] log_policy.reset_step [of _ "[arg]"]
        nocommit_policy.add_step [of _ "[arg]"]) (auto dest: topPath_is_top)
qed

lemma guarded_top:
  "(\<And>tp. is_top arg tp \<Longrightarrow> guarded good (f tp)) \<Longrightarrow> guarded good (bindW (topPath sy root arg) f)"
  by (rule guarded_bind [OF nocommit_policy.topPath_step]) (blast dest: topPath_is_top)

lemma guarded_seq: "nocommit m \<Longrightarrow> (\<And>v. guarded good (f v)) \<Longrightarrow> guarded good (bindW m f)"
  by (rule guarded_bind)

lemma nocommit_helpers:
  "nocommit (resetPaths sy root args)" "nocommit (resetCreateStaging sy root args)" "nocommit (addArg sy root a)"
  using nocommit_policy.reset_step [of args args] nocommit_policy.resetCreate_step [of args args]
    nocommit_policy.add_step [of a "[a]"] by simp_all

lemma nocommit_addOrReset: "nocommit reset \<Longrightarrow> nocommit (addOrReset sy root reset a)"
  using nocommit_policy.addOrReset_step [of a "[a]"] by simp

lemma nocommit_expect: "nocommit reset \<Longrightarrow> nocommit (expectArchived sy root wid reset staged rel)"
  using nocommit_policy.expect_step [of reset wid "[archiveArg wid, workspacesArg wid]"] by simp

lemmas nocommit_rules = git_log.always_mapErr git_log.always_for git_log.always_bind git_log.always_ret
  nocommit_helpers nocommit_addOrReset nocommit_expect diffCached_nocommit

lemma logs_helpers:
  "logs (resetPaths sy root args)" "logs (resetCreateStaging sy root args)"
  "logs reset \<Longrightarrow> logs (diffCached sy root reset args)"
  "logs reset \<Longrightarrow> logs (commitOnly sy root reset cargs)"
  "logs reset \<Longrightarrow> logs k \<Longrightarrow> logs (checkStaged allow reset staged k)"
  "logs reset \<Longrightarrow> logs (expectArchived sy root wid reset staged rel)"
  using log_policy.reset_step [of args args] log_policy.resetCreate_step [of args args] log_policy.diff_step
    log_policy.commit_step [of reset] log_policy.check_step [of reset allow staged k]
    log_policy.expect_step [of reset wid "[archiveArg wid, workspacesArg wid]"] by simp_all

lemmas logs_rules = git_log.always_for git_log.always_bind logs_helpers

text \<open>Three staging steps, the listing, and the rest.\<close>

lemma guarded_staged:
  assumes "nocommit m1" "nocommit m2" "nocommit m3" and "nocommit reset" and "\<And>out. logs (f out)"
    and "\<And>raw. \<not> good (root, diffArgs args, GitOK raw) \<Longrightarrow> nocommit (f (TrimSpace raw))"
  shows "guarded good (bindW m1 (\<lambda>_. bindW m2 (\<lambda>_. bindW m3 (\<lambda>_. bindW (diffCached sy root reset args) f))))"
  by (rule guarded_seq [OF assms(1)], rule guarded_seq [OF assms(2)], rule guarded_seq [OF assms(3)])
    (rule guarded_diff; fact assms)

lemma archive_guarded: "guarded (approves root (Archive ex) wid) (commitArchiveChange sy root wid ex)"
  unfolding commitArchiveChange_def Let_def
proof (intro guarded_top, goal_cases)
  case (1 ap wp bp sp)
  show ?case
    using not_approved [OF _ 1, of root "Archive ex"]
    by (intro guarded_staged nocommit_rules logs_rules check_refused) auto
qed

lemma reopen_guarded: "guarded (approves root Reopen wid) (commitReopenChange sy root wid)"
  unfolding commitReopenChange_def Let_def
proof (intro guarded_top, goal_cases)
  case (1 wp ap bp sp)
  show ?case
    using not_approved [OF _ 1(2,1,3,4), of root Reopen]
    by (intro guarded_staged nocommit_rules logs_rules check_refused) auto
qed

lemma purge_guarded: "guarded (approves root Purge wid) (commitPurgeChange sy root wid)"
  unfolding commitPurgeChange_def Let_def
proof (intro guarded_top, goal_cases)
  case (1 ap wp bp sp)
  show ?case
    using not_approved [OF _ 1, of root Purge]
    by (intro guarded_staged nocommit_rules logs_rules check_refused) auto
qed

lemma create_guarded: "guarded (approves root Create wid) (commitCreateWorkspace sy root wid)"
  unfolding commitCreateWorkspace_def Let_def
proof (rule guarded_seq, goal_cases)
  case 1
  show ?case by (intro git_log.always_mapErr nocommit_policy.ensureRoot_step)
next
  case (2 v)
  show ?case
  proof (intro guarded_top, goal_cases)
    case (1 wp bp sp)
    have "\<not> list_all (createAllow wp bp sp) (stagedPaths (TrimSpace raw))"
      if "\<not> approves root Create wid (root, diffArgs (opScope Create wid), GitOK raw)" for raw
      using not_approved [OF that is_top_self 1] by (rule list_all_weaken) (simp add: createAllow_def archiveAllow_def)
    then show ?case
      by (intro guarded_seq [OF git_log.always_for] guarded_diff nocommit_rules logs_rules check_refused) auto
  qed
qed

lemma runCommit_guarded: "guarded (approves root op wid) (runCommit op sy root wid)"
  by (cases op) (simp_all add: archive_guarded reopen_guarded purge_guarded create_guarded commitPre_guarded
      commitClosePreSnapshot_def commitReopenPreSnapshot_def commitPurgePreSnapshot_def)

subsection \<open>Properties\<close>


text \<open>
  C37: the listing is split at white space, so a workspace file whose name has a space is taken for two
  paths, the second outside the allowlist: the pre-close commit is refused although git lists only a
  file of the workspace.
\<close>

definition space_git :: "string \<Rightarrow> string list \<Rightarrow> world \<Rightarrow> git_result \<times> fs" where
  "space_git dir args w =
     (GitOK (if args = [''rev-parse'', ''--show-toplevel''] then ''/r''
             else if hd args = ''diff'' then ''workspaces/a/my file.txt'' else []), files w)"

definition space_sys :: sys where
  "space_sys = \<lparr>git = space_git, git_missing = None, tree = (\<lambda>_ _. []), evalSymlinks = (\<lambda>_ p. Some p),
     sha256 = (\<lambda>s. s), cmux = (\<lambda>_ w. (CmuxOK [], files w)), action_file = []\<rparr>"


end
