(* ===== verification/Go_Json_Struct.thy ===== *)
theory Go_Json_Struct
  imports Go_Json "HOL-Library.AList"
begin

text \<open>
  \<open>encoding/json\<close> on maps, nested structs and pointers. A Go map is an association list with distinct keys,
  written with the keys sorted; a JSON object is decoded into it member by member, a later member with
  the same key replacing the value.
\<close>

subsection \<open>Writing and reading\<close>

definition json_map :: "('a \<Rightarrow> json) \<Rightarrow> (string \<times> 'a) list \<Rightarrow> json" where
  "json_map f m = JObj (map (\<lambda>(k, v). (k, f v)) (sort_key fst m))"

definition map_member :: "string \<Rightarrow> ('a \<Rightarrow> json) \<Rightarrow> (string \<times> 'a) list \<Rightarrow> (string \<times> json) list" where
  "map_member k f m = (if m = [] then [] else [(k, json_map f m)])"

definition int_member :: "string \<Rightarrow> int \<Rightarrow> (string \<times> json) list" where
  "int_member k n = (if n = 0 then [] else [(k, JNum n)])"

definition txt_member :: "string \<Rightarrow> string \<Rightarrow> (string \<times> json) list" where
  "txt_member k s = (if s = [] then [] else [(k, JStr s)])"

fun decode_map :: "(json \<Rightarrow> 'a option) \<Rightarrow> (string \<times> json) list \<Rightarrow> (string \<times> 'a) list \<Rightarrow> (string \<times> 'a) list option" where
  "decode_map d [] m = Some m"
| "decode_map d ((k, v) # ms) m = Option.bind (d v) (\<lambda>x. decode_map d ms (AList.update k x m))"

definition into_map :: "((string \<times> 'a) list \<Rightarrow> 'r \<Rightarrow> 'r) \<Rightarrow> ('r \<Rightarrow> (string \<times> 'a) list) \<Rightarrow> (json \<Rightarrow> 'a option) \<Rightarrow> json \<Rightarrow> 'r \<Rightarrow> 'r option" where
  "into_map upd get d v r =
     (case v of JObj ms \<Rightarrow> map_option (\<lambda>m. upd m r) (decode_map d ms (get r)) | JNull \<Rightarrow> Some (upd [] r) | _ \<Rightarrow> None)"

definition into_bool_ptr :: "(bool option \<Rightarrow> 'r \<Rightarrow> 'r) \<Rightarrow> json \<Rightarrow> 'r \<Rightarrow> 'r option" where
  "into_bool_ptr upd v r =
     (case v of JBool b \<Rightarrow> Some (upd (Some b) r) | JNull \<Rightarrow> Some (upd None r) | _ \<Rightarrow> None)"

definition into_struct :: "('a \<Rightarrow> 'r \<Rightarrow> 'r) \<Rightarrow> ('r \<Rightarrow> 'a) \<Rightarrow> 'a field list \<Rightarrow> json \<Rightarrow> 'r \<Rightarrow> 'r option" where
  "into_struct upd get fs v r = map_option (\<lambda>x. upd x r) (decode_struct fs v (get r))"

subsection \<open>Laws\<close>

lemma decode_struct_obj: "decode_struct fs (JObj ms) r = decode_members fs ms r"
  by (simp add: decode_struct_def)

lemma decode_map_append:
  assumes "distinct (map fst (m @ kvs))" and "\<And>k v. (k, v) \<in> set kvs \<Longrightarrow> d (f v) = Some v"
  shows "decode_map d (map (\<lambda>(k, v). (k, f v)) kvs) m = Some (m @ kvs)"
  using assms
proof (induction kvs arbitrary: m)
  case (Cons kv kvs)
  obtain k v where kv: "kv = (k, v)" by fastforce
  have "AList.update k v m = m @ [(k, v)]"
    using Cons.prems(1) kv by (induction m) auto
  moreover have "d (f v) = Some v" using Cons.prems(2) [of k v] kv by simp
  moreover have "decode_map d (map (\<lambda>(k, v). (k, f v)) kvs) (m @ [(k, v)]) = Some ((m @ [(k, v)]) @ kvs)"
    using Cons.prems kv by (intro Cons.IH) auto
  ultimately show ?case using kv by simp
qed simp

lemma decode_json_map:
  assumes "distinct (map fst m)" and "\<And>k v. (k, v) \<in> set m \<Longrightarrow> d (f v) = Some v" and "get r = []"
  shows "into_map upd get d (json_map f m) r = Some (upd (sort_key fst m) r)"
proof -
  have "distinct (map fst ([] @ sort_key fst m))" using assms(1) distinct_map_mset [of "sort_key fst m" m fst] by simp
  then show ?thesis using decode_map_append [of "[]" "sort_key fst m" d f] assms(2,3) by (simp add: into_map_def json_map_def)
qed

lemma wf_json_map:
  assumes "list_all (\<lambda>(k, v). valid_utf8 k \<and> wf_json (f v)) m"
  shows "wf_json (json_map f m)"
proof -
  have "wf_members (map (\<lambda>(k, v). (k, f v)) kvs)" if "list_all (\<lambda>(k, v). valid_utf8 k \<and> wf_json (f v)) kvs" for kvs
    using that by (induction kvs) auto
  moreover have "list_all (\<lambda>(k, v). valid_utf8 k \<and> wf_json (f v)) (sort_key fst m)"
    using assms by (simp add: list_all_iff)
  ultimately show ?thesis by (simp add: json_map_def)
qed

lemma into_map_member:
  assumes "distinct (map fst m)" and "\<And>k v. (k, v) \<in> set m \<Longrightarrow> d (f v) = Some v" and "get r = []"
    and "find (\<lambda>x. fold_name (fst x) = fold_name name) fs = Some (nm, into_map upd get d)" and "upd [] r = r"
  shows "decode_members fs (map_member name f m @ ms) r = decode_members fs ms (upd (sort_key fst m) r)"
proof (cases "m = []")
  case True
  then show ?thesis by (simp add: map_member_def assms(5))
next
  case False
  then show ?thesis using decode_json_map [of m d f get r upd] assms(1-3) by (simp add: map_member_def assms(4))
qed

lemma decode_members_inv:
  assumes "decode_members fs ms r = Some r'" and "P r"
    and "\<And>nm d v a b. (nm, d) \<in> set fs \<Longrightarrow> d v a = Some b \<Longrightarrow> P a \<Longrightarrow> P b"
  shows "P r'"
  using assms(1,2)
proof (induction ms arbitrary: r)
  case (Cons kv ms)
  obtain k v where kv: "kv = (k, v)" by fastforce
  show ?case
  proof (cases "find (\<lambda>f. fold_name (fst f) = fold_name k) fs")
    case None
    then show ?thesis using Cons kv by simp
  next
    case (Some f)
    then have "f \<in> set fs" by (auto simp: find_Some_iff)
    then show ?thesis using Cons Some kv assms(3) [of "fst f" "snd f" v r]
      by (auto simp: bind_eq_Some_conv)
  qed
qed simp

lemma decode_map_distinct: "decode_map d ms m = Some m' \<Longrightarrow> distinct (map fst m) \<Longrightarrow> distinct (map fst m')"
  by (induction d ms m rule: decode_map.induct) (auto simp: bind_eq_Some_conv distinct_update)

lemma into_map_distinct:
  assumes "into_map upd get d v a = Some b" and "distinct (map fst (get a))"
  obtains m where "b = upd m a" and "distinct (map fst m)"
  using assms decode_map_distinct [of d _ "get a"]
  by (auto simp: into_map_def split: json.splits)

lemma map_of_sorted: "distinct (map fst m) \<Longrightarrow> map_of (sort_key fst m) = map_of m"
  by (rule ext) (metis distinct_map_mset map_of_eqI map_of_eq_Some_iff mset_sort set_sort option.exhaust)

end
