(* ===== verification/Workspace_Meta.thy ===== *)
theory Workspace_Meta
  imports Go_Json_Struct Go_Tree Kra_Paths
begin

text \<open>
  \<open>internal/cli/ws_meta_json.go\<close> and \<open>internal/cli/ws_lock.go\<close>: the metadata file of a workspace, the
  list of repositories to restore in it, and the purge guard.
\<close>

subsection \<open>Data\<close>

record meta_workspace =
  ID :: string
  Title :: string
  SourceURL :: string
  wsStatus :: string
  CreatedAt :: int
  UpdatedAt :: int

record meta_restore =
  RepoUID :: string
  restoreKey :: string
  RemoteURL :: string
  Alias :: string
  restoreBranch :: string
  BaseRef :: string

record purge_guard =
  Enabled :: "bool option"       \<comment> \<open>a pointer\<close>
  GuardUpdatedAt :: int

record meta_file =
  SchemaVersion :: int
  Workspace :: meta_workspace
  ReposRestore :: "meta_restore list"
  PurgeGuard :: purge_guard

datatype meta_error =
    WsPathRequired | MetaReadErr read_error | MetaParseErr | UnsupportedSchema int | MetaIDRequired
  | RestoreAliasRequired | MetaWriteErr replace_error

definition newWorkspaceMetaFileForCreate :: "string \<Rightarrow> string \<Rightarrow> string \<Rightarrow> int \<Rightarrow> meta_file" where
  "newWorkspaceMetaFileForCreate wid title sourceURL now =
     \<lparr>SchemaVersion = 1,
      Workspace = \<lparr>ID = wid, Title = title, SourceURL = sourceURL, wsStatus = ''active'', CreatedAt = now, UpdatedAt = now\<rparr>,
      ReposRestore = [],
      PurgeGuard = \<lparr>Enabled = Some True, GuardUpdatedAt = now\<rparr>\<rparr>"

subsection \<open>File format\<close>

definition restoreJson :: "meta_restore \<Rightarrow> json" where
  "restoreJson r = JObj [(''repo_uid'', JStr (RepoUID r)), (''repo_key'', JStr (restoreKey r)),
     (''remote_url'', JStr (RemoteURL r)), (''alias'', JStr (Alias r)), (''branch'', JStr (restoreBranch r)),
     (''base_ref'', JStr (BaseRef r))]"

definition workspaceJson :: "meta_workspace \<Rightarrow> json" where
  "workspaceJson m = JObj [(''id'', JStr (ID m)), (''title'', JStr (Title m)), (''source_url'', JStr (SourceURL m)),
     (''status'', JStr (wsStatus m)), (''created_at'', JNum (CreatedAt m)), (''updated_at'', JNum (UpdatedAt m))]"

text \<open>\<open>omitempty\<close> drops a nil pointer and a zero time; the structs themselves are never omitted.\<close>

definition guardJson :: "purge_guard \<Rightarrow> json" where
  "guardJson g = JObj ((case Enabled g of None \<Rightarrow> [] | Some b \<Rightarrow> [(''enabled'', JBool b)])
     @ (if GuardUpdatedAt g = 0 then [] else [(''updated_at'', JNum (GuardUpdatedAt g))]))"

definition metaJson :: "meta_file \<Rightarrow> json" where
  "metaJson m = JObj [(''schema_version'', JNum (SchemaVersion m)), (''workspace'', workspaceJson (Workspace m)),
     (''repos_restore'', JArr (map restoreJson (ReposRestore m))),
     (''protection'', JObj [(''purge_guard'', guardJson (PurgeGuard m))])]"

definition renderMeta :: "meta_file \<Rightarrow> string" where
  "renderMeta m = print_json 0 (metaJson m) @ [CHR 0x0A]"

definition zero_workspace :: meta_workspace where
  "zero_workspace = \<lparr>ID = [], Title = [], SourceURL = [], wsStatus = [], CreatedAt = 0, UpdatedAt = 0\<rparr>"

definition zero_restore :: meta_restore where
  "zero_restore = \<lparr>RepoUID = [], restoreKey = [], RemoteURL = [], Alias = [], restoreBranch = [], BaseRef = []\<rparr>"

definition zero_guard :: purge_guard where
  "zero_guard = \<lparr>Enabled = None, GuardUpdatedAt = 0\<rparr>"

definition zero_meta :: meta_file where
  "zero_meta = \<lparr>SchemaVersion = 0, Workspace = zero_workspace, ReposRestore = [], PurgeGuard = zero_guard\<rparr>"



definition restoreFields :: "meta_restore field list" where
  "restoreFields =
     [(''repo_uid'', into_string (\<lambda>s. RepoUID_update (\<lambda>_. s))), (''repo_key'', into_string (\<lambda>s. restoreKey_update (\<lambda>_. s))),
      (''remote_url'', into_string (\<lambda>s. RemoteURL_update (\<lambda>_. s))), (''alias'', into_string (\<lambda>s. Alias_update (\<lambda>_. s))),
      (''branch'', into_string (\<lambda>s. restoreBranch_update (\<lambda>_. s))), (''base_ref'', into_string (\<lambda>s. BaseRef_update (\<lambda>_. s)))]"

definition workspaceFields :: "meta_workspace field list" where
  "workspaceFields =
     [(''id'', into_string (\<lambda>s. ID_update (\<lambda>_. s))), (''title'', into_string (\<lambda>s. Title_update (\<lambda>_. s))),
      (''source_url'', into_string (\<lambda>s. SourceURL_update (\<lambda>_. s))), (''status'', into_string (\<lambda>s. wsStatus_update (\<lambda>_. s))),
      (''created_at'', into_int (\<lambda>n. CreatedAt_update (\<lambda>_. n))), (''updated_at'', into_int (\<lambda>n. UpdatedAt_update (\<lambda>_. n)))]"

definition guardFields :: "purge_guard field list" where
  "guardFields =
     [(''enabled'', into_bool_ptr (\<lambda>b. Enabled_update (\<lambda>_. b))), (''updated_at'', into_int (\<lambda>n. GuardUpdatedAt_update (\<lambda>_. n)))]"

definition metaFields :: "meta_file field list" where
  "metaFields =
     [(''schema_version'', into_int (\<lambda>n. SchemaVersion_update (\<lambda>_. n))),
      (''workspace'', into_struct (\<lambda>x. Workspace_update (\<lambda>_. x)) Workspace workspaceFields),
      (''repos_restore'', into_slice (\<lambda>xs. ReposRestore_update (\<lambda>_. xs)) (\<lambda>v. decode_struct restoreFields v zero_restore)),
      (''protection'', into_struct (\<lambda>x. PurgeGuard_update (\<lambda>_. x)) PurgeGuard
         [(''purge_guard'', into_struct (\<lambda>x _. x) (\<lambda>g. g) guardFields)])]"

definition parseMeta :: "string \<Rightarrow> meta_file option" where
  "parseMeta b = Option.bind (parse_json b) (\<lambda>v. decode_struct metaFields v zero_meta)"

subsection \<open>Operations\<close>

definition metaPath :: "string \<Rightarrow> string" where
  "metaPath wsPath = pathJoin [wsPath, ''.kra.meta.json'']"

text \<open>The deferred removal of the temporary is part of \<open>writeAndSwap\<close>: after the rename it finds nothing.\<close>

definition writeWorkspaceMetaFile :: "string \<Rightarrow> meta_file \<Rightarrow> (meta_error, unit) prog" where
  "writeWorkspaceMetaFile wsPath meta w =
     (if TrimSpace wsPath = [] then (Inl WsPathRequired, w)
      else case atomicReplace False ''.kra-meta-'' ''.tmp'' (comps wsPath) (comps (metaPath wsPath)) (renderMeta meta) w of
        (None, w') \<Rightarrow> (Inr (), w')
      | (Some e, w') \<Rightarrow> (Inl (MetaWriteErr e), w'))"

definition loadWorkspaceMetaFile :: "string \<Rightarrow> world \<Rightarrow> meta_error + meta_file" where
  "loadWorkspaceMetaFile wsPath w =
     (if TrimSpace wsPath = [] then Inl WsPathRequired
      else case ReadFile w (metaPath wsPath) of
        Inl e \<Rightarrow> Inl (MetaReadErr e)
      | Inr b \<Rightarrow>
          (case parseMeta b of
             None \<Rightarrow> Inl MetaParseErr
           | Some meta \<Rightarrow>
               if SchemaVersion meta \<noteq> 1 then Inl (UnsupportedSchema (SchemaVersion meta))
               else if TrimSpace (ID (Workspace meta)) = [] then Inl MetaIDRequired
               else Inr meta))"

text \<open>\<open>byAlias[alias] = r\<close> for each entry: a map, listed by its sorted keys.\<close>

definition putAlias :: "meta_restore \<Rightarrow> (string \<times> meta_restore) list \<Rightarrow> meta_error + (string \<times> meta_restore) list" where
  "putAlias r m =
     (let alias = TrimSpace (Alias r)
      in if alias = [] then Inl RestoreAliasRequired else Inr (AList.update alias r m))"

definition mergeRestore :: "meta_restore list \<Rightarrow> meta_restore list \<Rightarrow> meta_error + meta_restore list" where
  "mergeRestore old new =
     bindR (foldE putAlias (old @ new) []) (\<lambda>m. Inr (map snd (sort_key fst m)))"

definition touchUpdated :: "int \<Rightarrow> meta_file \<Rightarrow> meta_file" where
  "touchUpdated now meta = (if now > 0 then meta\<lparr>Workspace := (Workspace meta)\<lparr>UpdatedAt := now\<rparr>\<rparr> else meta)"

definition upsertWorkspaceMetaReposRestore :: "string \<Rightarrow> meta_restore list \<Rightarrow> int \<Rightarrow> (meta_error, unit) prog" where
  "upsertWorkspaceMetaReposRestore wsPath repos now =
     bindW (look (loadWorkspaceMetaFile wsPath)) (\<lambda>meta.
     bindW (look (\<lambda>_. mergeRestore (ReposRestore meta) repos)) (\<lambda>merged.
       writeWorkspaceMetaFile wsPath (touchUpdated now (meta\<lparr>ReposRestore := merged\<rparr>))))"

definition workspaceMetaPurgeGuardEnabled :: "meta_file \<Rightarrow> bool" where
  "workspaceMetaPurgeGuardEnabled meta = (case Enabled (PurgeGuard meta) of None \<Rightarrow> True | Some b \<Rightarrow> b)"

definition setWorkspaceMetaPurgeGuard :: "bool \<Rightarrow> int \<Rightarrow> meta_file \<Rightarrow> meta_file" where
  "setWorkspaceMetaPurgeGuard enabled now meta =
     (let g = (PurgeGuard meta)\<lparr>Enabled := Some enabled\<rparr>
      in meta\<lparr>PurgeGuard := (if now > 0 then g\<lparr>GuardUpdatedAt := now\<rparr> else g)\<rparr>)"

definition removeWorkspaceMetaReposRestoreByAlias :: "string \<Rightarrow> string list \<Rightarrow> int \<Rightarrow> (meta_error, unit) prog" where
  "removeWorkspaceMetaReposRestoreByAlias wsPath aliases now =
     bindW (look (loadWorkspaceMetaFile wsPath)) (\<lambda>meta.
       let toDelete = filter (\<lambda>a. a \<noteq> []) (map TrimSpace aliases)
       in if toDelete = [] then ret ()
          else writeWorkspaceMetaFile wsPath (touchUpdated now
            (meta\<lparr>ReposRestore := filter (\<lambda>r. TrimSpace (Alias r) \<notin> set toDelete) (ReposRestore meta)\<rparr>)))"

subsection \<open>Round trip\<close>

definition wf_workspace :: "meta_workspace \<Rightarrow> bool" where
  "wf_workspace m \<longleftrightarrow> valid_utf8 (ID m) \<and> valid_utf8 (Title m) \<and> valid_utf8 (SourceURL m) \<and> valid_utf8 (wsStatus m)
     \<and> in_int64 (CreatedAt m) \<and> in_int64 (UpdatedAt m)"

definition wf_restore :: "meta_restore \<Rightarrow> bool" where
  "wf_restore r \<longleftrightarrow> valid_utf8 (RepoUID r) \<and> valid_utf8 (restoreKey r) \<and> valid_utf8 (RemoteURL r)
     \<and> valid_utf8 (Alias r) \<and> valid_utf8 (restoreBranch r) \<and> valid_utf8 (BaseRef r)"

text \<open>What survives the file and is accepted when read.\<close>

definition wf_meta :: "meta_file \<Rightarrow> bool" where
  "wf_meta m \<longleftrightarrow> SchemaVersion m = 1 \<and> TrimSpace (ID (Workspace m)) \<noteq> [] \<and> wf_workspace (Workspace m)
     \<and> list_all wf_restore (ReposRestore m) \<and> in_int64 (GuardUpdatedAt (PurgeGuard m))"

lemma fold_meta_names:
  "fold_name ''repo_uid'' = ''REPO_UID''" "fold_name ''repo_key'' = ''REPO_KEY''"
  "fold_name ''remote_url'' = ''REMOTE_URL''" "fold_name ''alias'' = ''ALIAS''" "fold_name ''branch'' = ''BRANCH''"
  "fold_name ''base_ref'' = ''BASE_REF''" "fold_name ''id'' = ''ID''" "fold_name ''title'' = ''TITLE''"
  "fold_name ''source_url'' = ''SOURCE_URL''" "fold_name ''status'' = ''STATUS''" "fold_name ''created_at'' = ''CREATED_AT''"
  "fold_name ''updated_at'' = ''UPDATED_AT''" "fold_name ''enabled'' = ''ENABLED''"
  "fold_name ''schema_version'' = ''SCHEMA_VERSION''" "fold_name ''workspace'' = ''WORKSPACE''"
  "fold_name ''repos_restore'' = ''REPOS_RESTORE''" "fold_name ''protection'' = ''PROTECTION''"
  "fold_name ''purge_guard'' = ''PURGE_GUARD''"
  by code_simp+

lemma utf8_meta_names:
  "valid_utf8 ''repo_uid''" "valid_utf8 ''repo_key''" "valid_utf8 ''remote_url''" "valid_utf8 ''alias''"
  "valid_utf8 ''branch''" "valid_utf8 ''base_ref''" "valid_utf8 ''id''" "valid_utf8 ''title''" "valid_utf8 ''source_url''"
  "valid_utf8 ''status''" "valid_utf8 ''created_at''" "valid_utf8 ''updated_at''" "valid_utf8 ''enabled''"
  "valid_utf8 ''schema_version''" "valid_utf8 ''workspace''" "valid_utf8 ''repos_restore''"
  "valid_utf8 ''protection''" "valid_utf8 ''purge_guard''"
  by code_simp+

lemma decode_restore: "wf_restore r \<Longrightarrow> decode_struct restoreFields (restoreJson r) zero_restore = Some r"
  by (cases r) (simp add: decode_struct_def restoreJson_def restoreFields_def fold_meta_names zero_restore_def)

lemma decode_workspace: "wf_workspace m \<Longrightarrow> decode_struct workspaceFields (workspaceJson m) zero_workspace = Some m"
  by (cases m)
    (simp add: decode_struct_def workspaceJson_def workspaceFields_def fold_meta_names zero_workspace_def wf_workspace_def)

lemma decode_guard: "in_int64 (GuardUpdatedAt g) \<Longrightarrow> decode_struct guardFields (guardJson g) zero_guard = Some g"
  by (cases g; cases "Enabled g")
    (auto simp: decode_struct_def guardJson_def guardFields_def fold_meta_names zero_guard_def into_bool_ptr_def)

lemma decode_meta:
  assumes "wf_meta m"
  shows "decode_struct metaFields (metaJson m) zero_meta = Some m"
proof -
  have "decode_list (\<lambda>v. decode_struct restoreFields v zero_restore) (map restoreJson (ReposRestore m)) = Some (map id (ReposRestore m))"
    using assms by (intro decode_list_map) (simp add: decode_restore wf_meta_def list_all_iff)
  then show ?thesis
    using assms decode_workspace [of "Workspace m"] decode_guard [of "PurgeGuard m"]
    by (cases m) (simp add: decode_struct_obj metaJson_def metaFields_def
        fold_meta_names zero_meta_def into_struct_def wf_meta_def in_int64_def)
qed

lemma wf_metaJson: "wf_meta m \<Longrightarrow> wf_json (metaJson m)"
  by (auto simp: wf_meta_def metaJson_def workspaceJson_def restoreJson_def guardJson_def wf_workspace_def wf_restore_def
      wf_json_arr wf_members_append utf8_meta_names list_all_iff in_int64_def split: option.splits)

lemma parse_renderMeta: "wf_meta m \<Longrightarrow> parseMeta (renderMeta m) = Some m"
  using wf_metaJson [of m] decode_meta [of m]
  by (simp add: parseMeta_def renderMeta_def parse_print_json del: print_json.simps)

interpretation meta_path: atomic_file
  "atomicReplace False ''.kra-meta-'' ''.tmp'' d (d @ [''.kra.meta.json''])" "d @ [''.kra.meta.json'']" for d
  by (rule atomic_fileI) simp

lemma comps_metaPath:
  assumes "IsAbs wsPath"
  shows "comps (metaPath wsPath) = comps wsPath @ [''.kra.meta.json'']"
proof -
  have "plain ''.kra.meta.json''" by (simp add: plain_def)
  then show ?thesis using pathJoin_abs [OF assms, of "[''.kra.meta.json'']"] by (simp add: metaPath_def)
qed

text \<open>Writing stores the file or leaves it alone; a later load finds what was stored.\<close>

lemma write_meta_put:
  assumes "writeWorkspaceMetaFile p m w = (r, w')" and "IsAbs p" and "TrimSpace p \<noteq> []"
  obtains e where "atomicReplace False ''.kra-meta-'' ''.tmp'' (comps p) (comps p @ [''.kra.meta.json'']) (renderMeta m) w = (e, w')"
    and "r = (case e of None \<Rightarrow> Inr () | Some x \<Rightarrow> Inl (MetaWriteErr x))"
  using assms comps_metaPath [OF assms(2)]
  by (auto simp: writeWorkspaceMetaFile_def split: prod.splits option.splits)

lemma write_load_meta:
  assumes "writeWorkspaceMetaFile p m w = (Inr (), w')" and "IsAbs p" and "TrimSpace p \<noteq> []" and "wf_meta m"
    and "\<not> fails w (SRead (comps (metaPath p)))"
  shows "loadWorkspaceMetaFile p w' = Inr m"
proof -
  obtain e where put: "atomicReplace False ''.kra-meta-'' ''.tmp'' (comps p) (comps p @ [''.kra.meta.json'']) (renderMeta m) w = (e, w')"
    and "Inr () = (case e of None \<Rightarrow> Inr () | Some x \<Rightarrow> Inl (MetaWriteErr x))"
    using write_meta_put [OF assms(1-3)] .
  then have "e = None" by (auto split: option.splits)
  with put have "ReadFile w' (metaPath p) = Inr (renderMeta m)"
    using meta_path.read_after_put [of "comps p" "renderMeta m" w w' "metaPath p"] comps_metaPath [OF assms(2)] assms(5) by simp
  then show ?thesis
    using assms(3,4) parse_renderMeta [OF assms(4)] by (simp add: loadWorkspaceMetaFile_def wf_meta_def)
qed

subsection \<open>The list of repositories to restore\<close>

lemma putAlias_keys:
  assumes "putAlias r m = Inr m'" and "distinct (map fst m)"
  shows "distinct (map fst m')" and "map_of m' = (map_of m)(TrimSpace (Alias r) \<mapsto> r)"
  using assms by (auto simp: putAlias_def Let_def distinct_update update_conv' split: if_splits)

lemma foldE_putAlias:
  assumes "foldE putAlias rs m = Inr m'" and "distinct (map fst m)"
  shows "distinct (map fst m') \<and> map_of m' = map_of m ++ map_of (rev (map (\<lambda>r. (TrimSpace (Alias r), r)) rs))"
  using assms
proof (induction rs arbitrary: m)
  case (Cons r rs)
  then obtain m1 where m1: "putAlias r m = Inr m1" "foldE putAlias rs m1 = Inr m'" by (auto simp: bindR_Inr_iff)
  note k = putAlias_keys [OF m1(1) Cons.prems(2)]
  from Cons.IH [OF m1(2) k(1)] k(2) show ?case by (auto simp: map_add_def split: option.splits)
qed simp

lemma foldE_putAlias_error:
  "foldE putAlias rs m = Inl e \<longleftrightarrow> e = RestoreAliasRequired \<and> (\<exists>r\<in>set rs. TrimSpace (Alias r) = [])"
  by (induction rs arbitrary: m) (auto simp: putAlias_def Let_def bindR_def split: sum.splits if_splits)

definition aliasOf :: "meta_restore list \<Rightarrow> string \<Rightarrow> meta_restore option" where
  "aliasOf rs a = find (\<lambda>r. TrimSpace (Alias r) = a) rs"

lemma aliasOf_map: "aliasOf rs a = map_of (map (\<lambda>r. (TrimSpace (Alias r), r)) rs) a"
  by (induction rs) (auto simp: aliasOf_def)

text \<open>The keys kept are the trimmed aliases of the entries.\<close>

lemma alist_update_mem: "x \<in> set (AList.update k v m) \<Longrightarrow> x = (k, v) \<or> x \<in> set m"
  by (induction m) (auto split: if_splits)

lemma foldE_putAlias_key:
  "foldE putAlias rs m = Inr m' \<Longrightarrow> \<forall>(a, r)\<in>set m. a = TrimSpace (Alias r) \<Longrightarrow> \<forall>(a, r)\<in>set m'. a = TrimSpace (Alias r)"
  by (erule foldE_induct [where P = "\<lambda>m. \<forall>(a, r)\<in>set m. a = TrimSpace (Alias r)"])
    (auto simp: putAlias_def Let_def split: if_splits dest!: alist_update_mem)

lemma mergeRestore_spec:
  assumes "mergeRestore old new = Inr merged"
  shows "sorted (map (\<lambda>r. TrimSpace (Alias r)) merged)" and "distinct (map (\<lambda>r. TrimSpace (Alias r)) merged)"
    and "aliasOf merged a = (case aliasOf (rev new) a of Some r \<Rightarrow> Some r | None \<Rightarrow> aliasOf (rev old) a)"
proof -
  from assms obtain m where m: "foldE putAlias (old @ new) [] = Inr m" and merged: "merged = map snd (sort_key fst m)"
    by (auto simp: mergeRestore_def bindR_Inr_iff)
  have d: "distinct (map fst m)" and mo: "map_of m = map_of (rev (map (\<lambda>r. (TrimSpace (Alias r), r)) (old @ new)))"
    using foldE_putAlias [OF m] by auto
  have k: "\<forall>x\<in>set (sort_key fst m). fst x = TrimSpace (Alias (snd x))"
    using foldE_putAlias_key [OF m] by auto
  then have mf: "map (\<lambda>r. TrimSpace (Alias r)) merged = map fst (sort_key fst m)" by (simp add: merged)
  show "sorted (map (\<lambda>r. TrimSpace (Alias r)) merged)" unfolding mf by simp
  show "distinct (map (\<lambda>r. TrimSpace (Alias r)) merged)" unfolding mf using d distinct_map_mset by (metis mset_sort)
  have "map (\<lambda>r. (TrimSpace (Alias r), r)) merged = sort_key fst m"
    unfolding merged map_map using k by (intro map_idI) (auto simp: prod_eq_iff)
  then have "aliasOf merged a = map_of m a" by (simp add: aliasOf_map map_of_sorted [OF d])
  also have "\<dots> = (case aliasOf (rev new) a of Some r \<Rightarrow> Some r | None \<Rightarrow> aliasOf (rev old) a)"
    by (simp add: mo aliasOf_map [of "rev new"] aliasOf_map [of "rev old"] rev_map map_add_def split: option.split)
  finally show "aliasOf merged a = (case aliasOf (rev new) a of Some r \<Rightarrow> Some r | None \<Rightarrow> aliasOf (rev old) a)" .
qed

lemma mergeRestore_error:
  "mergeRestore old new = Inl e \<longleftrightarrow> e = RestoreAliasRequired \<and> (\<exists>r\<in>set (old @ new). TrimSpace (Alias r) = [])"
  using foldE_putAlias_error [of "old @ new"] by (auto simp: mergeRestore_def bindR_Inl_iff)

lemma mergeRestore_wf:
  assumes "mergeRestore old new = Inr merged" and "list_all wf_restore old" and "list_all wf_restore new"
  shows "list_all wf_restore merged"
proof -
  from assms(1) obtain m where m: "foldE putAlias (old @ new) [] = Inr m" and merged: "merged = map snd (sort_key fst m)"
    by (auto simp: mergeRestore_def bindR_Inr_iff)
  have "\<forall>x\<in>set m. wf_restore (snd x)"
    using m by (rule foldE_induct [where P = "\<lambda>m. \<forall>x\<in>set m. wf_restore (snd x)"])
      (use assms(2,3) in \<open>auto simp: putAlias_def Let_def list_all_iff split: if_splits dest!: alist_update_mem\<close>)
  then show ?thesis by (auto simp: merged list_all_iff)
qed

subsection \<open>ws lock and ws unlock\<close>

text \<open>Exit codes of the commands, and the identifier check of \<open>ws_create.go\<close>.\<close>

datatype exit_code = ExitOK | ExitNotImplemented | ExitUsage | ExitError

definition validateWorkspaceID :: "string \<Rightarrow> bool" where
  "validateWorkspaceID wid \<longleftrightarrow> TrimSpace wid \<noteq> [] \<and> CHR ''/'' \<notin> set wid \<and> CHR 0x5C \<notin> set wid"

fun parseLockFlags :: "string list \<Rightarrow> string \<Rightarrow> exit_code + string \<times> string list" where
  "parseLockFlags [] fmt = Inr (fmt, [])"
| "parseLockFlags (a # as) fmt =
     (if \<not> prefix ''-'' a then Inr (fmt, a # as)
      else if a = ''-h'' \<or> a = ''--help'' \<or> a = ''help'' then Inl ExitOK
      else if a = ''--format'' then (case as of [] \<Rightarrow> Inl ExitUsage | v # as' \<Rightarrow> parseLockFlags as' (TrimSpace v))
      else if prefix ''--format='' a then parseLockFlags as (TrimSpace (TrimPrefix a ''--format=''))
      else Inl ExitUsage)"

text \<open>
  \<open>os.Getwd\<close> and \<open>paths.ResolveExistingRoot\<close>. The walk to the root always ends (\<open>findRootLoop_total\<close>), so
  the last case does not arise.
\<close>

definition resolveRoot :: "world \<Rightarrow> exit_code + string" where
  "resolveRoot w =
     (case getwd w of
        None \<Rightarrow> Inl ExitError
      | Some wd \<Rightarrow>
          (case ResolveExistingRoot w wd of
             Some (Inr root) \<Rightarrow> Inr root
           | Some (Inl e) \<Rightarrow> Inl ExitError
           | None \<Rightarrow> Inl ExitError))"

definition resolveWorkspacePathByID :: "string \<Rightarrow> string \<Rightarrow> world \<Rightarrow> unit + string option" where
  "resolveWorkspacePathByID root workspaceID w =
     (let activePath = pathJoin [root, ''workspaces'', workspaceID];
          archivePath = pathJoin [root, ''archive'', workspaceID];
          inArchive = (case Stat w archivePath of
                         Inr DirN \<Rightarrow> Inr (Some archivePath)
                       | Inl ReadFailed \<Rightarrow> Inl ()
                       | _ \<Rightarrow> Inr None)
      in case Stat w activePath of
           Inr DirN \<Rightarrow> Inr (Some activePath)
         | Inl ReadFailed \<Rightarrow> Inl ()
         | _ \<Rightarrow> inArchive)"

definition runWSPurgeGuardSet :: "string list \<Rightarrow> bool \<Rightarrow> world \<Rightarrow> exit_code \<times> world" where
  "runWSPurgeGuardSet args0 enabled w =
     (case parseLockFlags args0 ''human'' of
        Inl c \<Rightarrow> (c, w)
      | Inr (fmt, args) \<Rightarrow>
     if fmt \<noteq> ''human'' \<and> fmt \<noteq> ''json'' then (ExitUsage, w)
     else case args of
       [arg] \<Rightarrow>
         (let workspaceID = TrimSpace arg
          in if \<not> validateWorkspaceID workspaceID then (ExitUsage, w)
             else case resolveRoot w of
               Inl c \<Rightarrow> (c, w)
             | Inr root \<Rightarrow>
            (case resolveWorkspacePathByID root workspaceID w of
               Inl _ \<Rightarrow> (ExitError, w)
             | Inr None \<Rightarrow> (ExitError, w)
             | Inr (Some wsPath) \<Rightarrow>
            (case loadWorkspaceMetaFile wsPath w of
               Inl _ \<Rightarrow> (ExitError, w)
             | Inr meta \<Rightarrow>
            (case writeWorkspaceMetaFile wsPath (setWorkspaceMetaPurgeGuard enabled (clock w) meta) w of
               (Inl _, w') \<Rightarrow> (ExitError, w')
             | (Inr _, w') \<Rightarrow> (ExitOK, w')))))
     | _ \<Rightarrow> (ExitUsage, w))"

definition runWSLock :: "string list \<Rightarrow> world \<Rightarrow> exit_code \<times> world" where
  "runWSLock args w = runWSPurgeGuardSet args True w"

definition runWSUnlock :: "string list \<Rightarrow> world \<Rightarrow> exit_code \<times> world" where
  "runWSUnlock args w = runWSPurgeGuardSet args False w"

lemma wf_setGuard: "wf_meta m \<Longrightarrow> in_int64 now \<Longrightarrow> wf_meta (setWorkspaceMetaPurgeGuard b now m)"
  by (simp add: wf_meta_def setWorkspaceMetaPurgeGuard_def Let_def)

lemma guard_after_set [simp]: "workspaceMetaPurgeGuardEnabled (setWorkspaceMetaPurgeGuard b now m) = b"
  by (simp add: workspaceMetaPurgeGuardEnabled_def setWorkspaceMetaPurgeGuard_def Let_def)

subsection \<open>Properties\<close>

text \<open>
  C20: loading a workspace's metadata returns what was written, field by field, for every metadata whose
  texts are valid UTF-8 and whose numbers fit in 64 bits.
\<close>

theorem meta_write_load:
  assumes "writeWorkspaceMetaFile p m w = (Inr (), w')" and "IsAbs p" and "TrimSpace p \<noteq> []" and "wf_meta m"
    and "\<not> fails w (SRead (comps (metaPath p)))"
  shows "loadWorkspaceMetaFile p w' = Inr m"
  using assms by (rule write_load_meta)

definition demo_meta :: meta_file where
  "demo_meta = newWorkspaceMetaFileForCreate ''T-1'' ''title'' [] 7"

theorem meta_write_load_witness:
  "loadWorkspaceMetaFile ''/r'' (snd (writeWorkspaceMetaFile ''/r'' demo_meta demo_world)) = Inr demo_meta"
proof -
  have "fst (writeWorkspaceMetaFile ''/r'' demo_meta demo_world) = Inr ()" by code_simp
  then have "writeWorkspaceMetaFile ''/r'' demo_meta demo_world
      = (Inr (), snd (writeWorkspaceMetaFile ''/r'' demo_meta demo_world))" by (metis prod.collapse)
  moreover have "IsAbs ''/r''" "TrimSpace ''/r'' \<noteq> []" "wf_meta demo_meta" by code_simp+
  moreover have "\<not> fails demo_world (SRead (comps (metaPath ''/r'')))" by (simp add: demo_world_def)
  ultimately show ?thesis by (rule meta_write_load)
qed

text \<open>
  merging into the restore list keeps one entry per alias, sorted; a new entry replaces the old one
  of its alias, every other old entry is kept, and an entry without alias is an error.
\<close>

theorem merge_restore:
  "case mergeRestore old new of
     Inl e \<Rightarrow> e = RestoreAliasRequired \<and> list_ex (\<lambda>r. TrimSpace (Alias r) = []) (old @ new)
   | Inr merged \<Rightarrow>
       sorted (map (\<lambda>r. TrimSpace (Alias r)) merged) \<and> distinct (map (\<lambda>r. TrimSpace (Alias r)) merged)
       \<and> (\<forall>a. aliasOf merged a = (case aliasOf (rev new) a of Some r \<Rightarrow> Some r | None \<Rightarrow> aliasOf (rev old) a))"
proof (cases "mergeRestore old new")
  case (Inl e)
  then show ?thesis using mergeRestore_error [of old new e] by (auto simp: list_ex_iff)
next
  case (Inr merged)
  then show ?thesis using mergeRestore_spec [OF Inr] by simp
qed

end
