(* ===== verification/Work_State.thy ===== *)
theory Work_State
  imports Workspace_Meta Workspace_Risk Git_Util
begin

text \<open>
  \<open>internal/cli/workspace_workstate.go\<close> and the repository listing of \<open>internal/cli/ws_list.go\<close>: whether
  work in a workspace has begun, decided against a baseline of repository heads and file hashes, and
  remembered in a cache file.
\<close>

subsection \<open>Data and files\<close>

datatype work_state = Todo | InProgress

definition stateText :: "work_state \<Rightarrow> string" where
  "stateText s = (case s of Todo \<Rightarrow> ''todo'' | InProgress \<Rightarrow> ''in-progress'')"

record cache_entry =
  State :: string
  FirstDerivedAt :: int
  DerivedFrom :: string

record ws_cache =
  cacheVersion :: int
  cacheWorkspaces :: "(string \<times> cache_entry) list"

record baseline =
  blVersion :: int
  blWorkspaceID :: string
  blCreatedAt :: int
  blRepos :: "(string \<times> string) list"     \<comment> \<open>alias and baseline head\<close>
  blFS :: "(string \<times> string) list"        \<comment> \<open>path and hash\<close>

definition cacheEntryJson :: "cache_entry \<Rightarrow> json" where
  "cacheEntryJson e = JObj ((''state'', JStr (State e)) # int_member ''first_derived_at'' (FirstDerivedAt e)
     @ txt_member ''derived_from'' (DerivedFrom e))"

definition renderCache :: "ws_cache \<Rightarrow> string" where
  "renderCache c = print_json 0 (JObj ((''version'', JNum (cacheVersion c))
     # map_member ''workspaces'' cacheEntryJson (cacheWorkspaces c))) @ [CHR 0x0A]"

definition renderBaseline :: "baseline \<Rightarrow> string" where
  "renderBaseline b = print_json 0 (JObj ([(''version'', JNum (blVersion b)), (''workspace_id'', JStr (blWorkspaceID b)),
      (''created_at'', JNum (blCreatedAt b))]
     @ map_member ''repos'' (\<lambda>h. JObj (txt_member ''baseline_head'' h)) (blRepos b)
     @ map_member ''fs'' JStr (blFS b))) @ [CHR 0x0A]"

definition cacheEntryFields :: "cache_entry field list" where
  "cacheEntryFields =
     [(''state'', into_string (\<lambda>s. State_update (\<lambda>_. s))),
      (''first_derived_at'', into_int (\<lambda>n. FirstDerivedAt_update (\<lambda>_. n))),
      (''derived_from'', into_string (\<lambda>s. DerivedFrom_update (\<lambda>_. s)))]"

definition parseCache :: "string \<Rightarrow> ws_cache option" where
  "parseCache b = Option.bind (parse_json b) (\<lambda>v. decode_struct
     [(''version'', into_int (\<lambda>n. cacheVersion_update (\<lambda>_. n))),
      (''workspaces'', into_map (\<lambda>m. cacheWorkspaces_update (\<lambda>_. m)) cacheWorkspaces
         (\<lambda>v. decode_struct cacheEntryFields v \<lparr>State = [], FirstDerivedAt = 0, DerivedFrom = []\<rparr>))]
     v \<lparr>cacheVersion = 0, cacheWorkspaces = []\<rparr>)"

definition baselineFields :: "baseline field list" where
  "baselineFields =
     [(''version'', into_int (\<lambda>n. blVersion_update (\<lambda>_. n))),
      (''workspace_id'', into_string (\<lambda>s. blWorkspaceID_update (\<lambda>_. s))),
      (''created_at'', into_int (\<lambda>n. blCreatedAt_update (\<lambda>_. n))),
      (''repos'', into_map (\<lambda>m. blRepos_update (\<lambda>_. m)) blRepos
         (\<lambda>v. decode_struct [(''baseline_head'', into_string (\<lambda>s _. s))] v [])),
      (''fs'', into_map (\<lambda>m. blFS_update (\<lambda>_. m)) blFS (\<lambda>v. into_string (\<lambda>s _. s) v []))]"

definition parseBaseline :: "string \<Rightarrow> baseline option" where
  "parseBaseline b = Option.bind (parse_json b) (\<lambda>v. decode_struct baselineFields
     v \<lparr>blVersion = 0, blWorkspaceID = [], blCreatedAt = 0, blRepos = [], blFS = []\<rparr>)"

datatype state_error = StateReadErr read_error | StateParseErr | StateWriteErr replace_error | StateRemoveErr
  | StateListErr | StateWalkErr

definition stateDir :: "string \<Rightarrow> string" where
  "stateDir root = pathJoin [root, ''.kra'', ''state'']"

definition workspaceBaselinePath :: "string \<Rightarrow> string \<Rightarrow> string" where
  "workspaceBaselinePath root workspaceID = pathJoin [root, ''.kra'', ''state'', ''workspace-baselines'', workspaceID @ ''.json'']"

definition emptyCache :: ws_cache where
  "emptyCache = \<lparr>cacheVersion = 1, cacheWorkspaces = []\<rparr>"

definition loadWorkspaceWorkStateCache :: "string \<Rightarrow> world \<Rightarrow> state_error + ws_cache" where
  "loadWorkspaceWorkStateCache root w =
     (case ReadFile w (pathJoin [root, ''.kra'', ''state'', ''workspace-workstate.json'']) of
        Inl NotExist \<Rightarrow> Inr emptyCache
      | Inl ReadFailed \<Rightarrow> Inl (StateReadErr ReadFailed)
      | Inr b \<Rightarrow>
          if TrimSpace b = [] then Inr emptyCache
          else (case parseCache b of
                  None \<Rightarrow> Inl StateParseErr
                | Some c \<Rightarrow> Inr (if cacheVersion c \<le> 0 then c\<lparr>cacheVersion := 1\<rparr> else c)))"

definition saveStateFile :: "string \<Rightarrow> string \<Rightarrow> string \<Rightarrow> string \<Rightarrow> (state_error, unit) prog" where
  "saveStateFile pre dir path b w =
     (case atomicReplace True pre ''.tmp'' (comps dir) (comps path) b w of
        (None, w') \<Rightarrow> (Inr (), w')
      | (Some e, w') \<Rightarrow> (Inl (StateWriteErr e), w'))"

definition saveWorkspaceWorkStateCache :: "string \<Rightarrow> ws_cache \<Rightarrow> (state_error, unit) prog" where
  "saveWorkspaceWorkStateCache root cache =
     (let c = (if cacheVersion cache \<le> 0 then cache\<lparr>cacheVersion := 1\<rparr> else cache)
      in saveStateFile ''.workspace-workstate-'' (stateDir root) (pathJoin [stateDir root, ''workspace-workstate.json''])
           (renderCache c))"

definition loadWorkspaceBaseline :: "string \<Rightarrow> string \<Rightarrow> world \<Rightarrow> state_error + baseline" where
  "loadWorkspaceBaseline root workspaceID w =
     (case ReadFile w (workspaceBaselinePath root workspaceID) of
        Inl e \<Rightarrow> Inl (StateReadErr e)
      | Inr b \<Rightarrow>
          (case parseBaseline b of
             None \<Rightarrow> Inl StateParseErr
           | Some bl \<Rightarrow>
               (let b1 = (if blVersion bl \<le> 0 then bl\<lparr>blVersion := 1\<rparr> else bl)
                in Inr (if blWorkspaceID b1 = [] then b1\<lparr>blWorkspaceID := workspaceID\<rparr> else b1))))"

definition saveWorkspaceBaseline :: "string \<Rightarrow> string \<Rightarrow> baseline \<Rightarrow> (state_error, unit) prog" where
  "saveWorkspaceBaseline root workspaceID bl =
     (let b1 = (if blVersion bl \<le> 0 then bl\<lparr>blVersion := 1\<rparr> else bl)
      in saveStateFile ''.workspace-baseline-'' (pathJoin [root, ''.kra'', ''state'', ''workspace-baselines''])
           (workspaceBaselinePath root workspaceID) (renderBaseline (b1\<lparr>blWorkspaceID := workspaceID\<rparr>)))"

definition clearWorkspaceWorkStateCacheEntry :: "string \<Rightarrow> string \<Rightarrow> (state_error, unit) prog" where
  "clearWorkspaceWorkStateCacheEntry root workspaceID w =
     (case loadWorkspaceWorkStateCache root w of
        Inl (StateReadErr NotExist) \<Rightarrow> (Inr (), w)
      | Inl e \<Rightarrow> (Inl e, w)
      | Inr cache \<Rightarrow>
          (case map_of (cacheWorkspaces cache) workspaceID of
             None \<Rightarrow> (Inr (), w)
           | Some _ \<Rightarrow> saveWorkspaceWorkStateCache root
                         (cache\<lparr>cacheWorkspaces := AList.delete workspaceID (cacheWorkspaces cache)\<rparr>) w))"

definition removeWorkspaceBaselineAndWorkState :: "sys \<Rightarrow> string \<Rightarrow> string \<Rightarrow> (state_error, unit) prog" where
  "removeWorkspaceBaselineAndWorkState sy root workspaceID w =
     (case RemoveP sy (workspaceBaselinePath root workspaceID) w of
        (Inl ReadFailed, w') \<Rightarrow> (Inl StateRemoveErr, w')
      | (_, w') \<Rightarrow> clearWorkspaceWorkStateCacheEntry root workspaceID w')"

subsection \<open>Files outside the repositories\<close>

text \<open>
  \<open>filepath.WalkDir\<close> over the workspace without \<open>repos\<close>: the relative paths of the regular files. It fails
  when the workspace is missing or a directory cannot be read.
\<close>

definition walkFiles :: "sys \<Rightarrow> world \<Rightarrow> string \<Rightarrow> unit + key list" where
  "walkFiles sy w wsPath =
     (let k = comps wsPath
      in case files w k of
           None \<Rightarrow> Inl ()
         | Some (FileN _) \<Rightarrow> Inr []
         | Some DirN \<Rightarrow>
             (let qs = filter (\<lambda>q. q \<noteq> [] \<and> hd q \<noteq> ''repos'') (tree sy (files w) k)
              in if fails w (SReadDir k) \<or> list_ex (\<lambda>q. files w (k @ q) = Some DirN \<and> fails w (SReadDir (k @ q))) qs
                 then Inl ()
                 else Inr (filter (\<lambda>q. case files w (k @ q) of Some (FileN _) \<Rightarrow> True | _ \<Rightarrow> False) qs)))"

definition listWorkspaceNonRepoFiles :: "sys \<Rightarrow> world \<Rightarrow> string \<Rightarrow> unit + string list" where
  "listWorkspaceNonRepoFiles sy w wsPath = bindR (walkFiles sy w wsPath) (\<lambda>qs. Inr (map (join [slash]) qs))"

definition hashWorkspaceFile :: "sys \<Rightarrow> world \<Rightarrow> key \<Rightarrow> unit + string" where
  "hashWorkspaceFile sy w k =
     (if fails w (SRead k) then Inl ()
      else case files w k of Some (FileN b) \<Rightarrow> Inr (''sha256:'' @ sha256 sy b) | _ \<Rightarrow> Inl ())"

definition collectWorkspaceNonRepoFileHashes :: "sys \<Rightarrow> world \<Rightarrow> string \<Rightarrow> unit + (string \<times> string) list" where
  "collectWorkspaceNonRepoFileHashes sy w wsPath =
     bindR (walkFiles sy w wsPath) (\<lambda>qs.
       foldE (\<lambda>q m. bindR (hashWorkspaceFile sy w (comps wsPath @ q)) (\<lambda>h. Inr (AList.update (join [slash] q) h m)))
         (filter (\<lambda>q. q \<noteq> [''.kra.meta.json'']) qs) [])"

subsection \<open>Repositories of a workspace\<close>

definition firstNonEmpty :: "string list \<Rightarrow> string" where
  "firstNonEmpty vs = (case find (\<lambda>v. v \<noteq> []) (map TrimSpace vs) of Some v \<Rightarrow> v | None \<Rightarrow> [])"

definition restoreByAlias :: "meta_restore list \<Rightarrow> (string \<times> meta_restore) list" where
  "restoreByAlias rs =
     fold (\<lambda>r m. if TrimSpace (Alias r) = [] then m else AList.update (TrimSpace (Alias r)) r m) rs []"

definition restoreRepo :: "meta_restore \<Rightarrow> string \<Rightarrow> string \<Rightarrow> bool \<Rightarrow> WorkspaceRepo" where
  "restoreRepo r alias branch missing =
     \<lparr>wr_uid = TrimSpace (RepoUID r), wr_key = [], wr_alias = alias, wr_branch = branch,
      wr_base = TrimSpace (BaseRef r), wr_missing = missing\<rparr>"

text \<open>One directory below \<open>repos\<close>: its branch as git has it, the rest from the metadata.\<close>

definition presentRepo :: "sys \<Rightarrow> string \<Rightarrow> (string \<times> meta_restore) list \<Rightarrow> string \<Rightarrow> ('e, WorkspaceRepo) prog" where
  "presentRepo sy reposDir restores alias =
     bindW (attempt (Run sy (pathJoin [reposDir, alias]) [''rev-parse'', ''--abbrev-ref'', ''HEAD''])) (\<lambda>r.
       let branch = (case r of Inr out \<Rightarrow> TrimSpace out | Inl _ \<Rightarrow> []);
           restore = (case map_of restores alias of Some x \<Rightarrow> x | None \<Rightarrow> zero_restore)
       in ret (restoreRepo restore alias (firstNonEmpty [branch, TrimSpace (restoreBranch restore)]) False))"

fun mapW :: "('x \<Rightarrow> ('e, 'y) prog) \<Rightarrow> 'x list \<Rightarrow> ('e, 'y list) prog" where
  "mapW f [] = ret []"
| "mapW f (x # xs) = bindW (f x) (\<lambda>y. bindW (mapW f xs) (\<lambda>ys. ret (y # ys)))"

definition listWorkspaceReposFromFilesystem ::
    "sys \<Rightarrow> string \<Rightarrow> bool \<Rightarrow> string \<Rightarrow> meta_file \<Rightarrow> (state_error, WorkspaceRepo list) prog" where
  "listWorkspaceReposFromFilesystem sy root archived workspaceID meta w =
     (let wsBase = pathJoin [root, if archived then ''archive'' else ''workspaces'', workspaceID];
          reposDir = pathJoin [wsBase, ''repos'']
      in case ReadDir sy w reposDir of
           Inl ReadFailed \<Rightarrow> (Inl StateListErr, w)
         | rd \<Rightarrow>
             (let entries = (case rd of Inr es \<Rightarrow> es | Inl _ \<Rightarrow> []);
                  restores = restoreByAlias (ReposRestore meta);
                  aliases = filter (\<lambda>a. a \<noteq> []) (map (\<lambda>(n, d). TrimSpace n) (filter snd entries))
              in bindW (mapW (presentRepo sy reposDir restores) aliases) (\<lambda>present.
                   let absent = map (\<lambda>(a, r). restoreRepo r a (TrimSpace (restoreBranch r)) (\<not> archived))
                                  (filter (\<lambda>(a, r). a \<notin> set aliases) restores)
                   in ret (sort_key wr_alias (present @ absent))) w))"

definition listWorkspaceReposForClose :: "sys \<Rightarrow> string \<Rightarrow> string \<Rightarrow> (state_error, WorkspaceRepo list) prog" where
  "listWorkspaceReposForClose sy root workspaceID w =
     (let meta = (case loadWorkspaceMetaFile (pathJoin [root, ''workspaces'', workspaceID]) w of
                    Inr m \<Rightarrow> m | Inl _ \<Rightarrow> zero_meta)
      in listWorkspaceReposFromFilesystem sy root False workspaceID meta w)"

subsection \<open>Baseline\<close>

definition baselineRepos :: "sys \<Rightarrow> string \<Rightarrow> WorkspaceRepo list \<Rightarrow> ('e, (string \<times> string) list) prog" where
  "baselineRepos sy wsPath repos =
     bindW (mapW (\<lambda>r.
       let alias = TrimSpace (wr_alias r)
       in if alias = [] \<or> wr_missing r then ret None
          else bindW (attempt (Run sy (pathJoin [wsPath, ''repos'', alias]) [''rev-parse'', ''HEAD''])) (\<lambda>h.
            ret (case h of Inl _ \<Rightarrow> None | Inr out \<Rightarrow> if TrimSpace out = [] then None else Some (alias, TrimSpace out)))) repos)
       (\<lambda>hs. ret (fold (\<lambda>h m. case h of None \<Rightarrow> m | Some (a, s) \<Rightarrow> AList.update a s m) hs []))"

definition createOrRefreshWorkspaceBaseline :: "sys \<Rightarrow> string \<Rightarrow> string \<Rightarrow> int \<Rightarrow> (state_error, unit) prog" where
  "createOrRefreshWorkspaceBaseline sy root workspaceID now =
     (let wsPath = pathJoin [root, ''workspaces'', workspaceID]
      in bindW (listWorkspaceReposForClose sy root workspaceID) (\<lambda>repos.
         bindW (look (\<lambda>w. case collectWorkspaceNonRepoFileHashes sy w wsPath of Inl _ \<Rightarrow> Inl StateWalkErr | Inr m \<Rightarrow> Inr m)) (\<lambda>fsHashes.
         bindW (baselineRepos sy wsPath repos) (\<lambda>repoBaseline.
         bindW (saveWorkspaceBaseline root workspaceID
                  \<lparr>blVersion = 1, blWorkspaceID = workspaceID, blCreatedAt = now, blRepos = repoBaseline, blFS = fsHashes\<rparr>) (\<lambda>_.
           clearWorkspaceWorkStateCacheEntry root workspaceID)))))"

subsection \<open>Deriving the state\<close>

definition inspectSnapshotP :: "sys \<Rightarrow> string \<Rightarrow> ('e, gitRepoSnapshot) prog" where
  "inspectSnapshotP sy dir w =
     (if fails w (SStat (comps dir)) \<or> files w (comps dir) = None then (Inr error_snapshot, w)
      else case Run sy dir [''status'', ''--porcelain=v2'', ''--branch''] w of
        (r, w') \<Rightarrow> (Inr (inspectGitRepoSnapshot (\<lambda>_. case r of Inr out \<Rightarrow> Some out | Inl _ \<Rightarrow> None) w dir), w'))"

definition riskP :: "sys \<Rightarrow> string \<Rightarrow> string \<Rightarrow> WorkspaceRepo list \<Rightarrow> ('e, RepoState list) prog" where
  "riskP sy root workspaceID =
     mapW (\<lambda>r. if wr_missing r then ret Unknown
               else bindW (inspectSnapshotP sy (pathJoin [root, ''workspaces'', workspaceID, ''repos'', wr_alias r]))
                      (\<lambda>s. ret (ClassifyRepoStatus (Status s))))"

definition deriveWorkspaceWorkStateFromLegacyRisk :: "sys \<Rightarrow> string \<Rightarrow> string \<Rightarrow> WorkspaceRepo list \<Rightarrow> ('e, work_state) prog" where
  "deriveWorkspaceWorkStateFromLegacyRisk sy root workspaceID repos =
     bindW (riskP sy root workspaceID repos) (\<lambda>states.
       ret (if Aggregate states = Clean_risk then Todo else InProgress))"

text \<open>
  One repository: does it show progress? Where the head differs from the baseline the code asks git for
  the number of commits and returns true on every answer.
\<close>

definition headSignal :: "sys \<Rightarrow> string \<Rightarrow> string option \<Rightarrow> string + string \<Rightarrow> (state_error, bool) prog" where
  "headSignal sy worktreePath base head =
     (case (head, base) of
        (Inr out, Some b) \<Rightarrow>
          if TrimSpace b = [] then ret True
          else if TrimSpace out = TrimSpace b then ret False
          else bindW (attempt (Run sy worktreePath
                 [''rev-list'', ''--count'', TrimSpace b @ ''..'' @ TrimSpace out])) (\<lambda>_. ret True)
      | _ \<Rightarrow> ret True)"

definition repoSignal :: "sys \<Rightarrow> string \<Rightarrow> string \<Rightarrow> baseline \<Rightarrow> WorkspaceRepo \<Rightarrow> (state_error, bool) prog" where
  "repoSignal sy root workspaceID bl repo =
     (let alias = TrimSpace (wr_alias repo);
          worktreePath = pathJoin [root, ''workspaces'', workspaceID, ''repos'', alias]
      in if alias = [] then ret False
         else if wr_missing repo then ret True
         else bindW (inspectSnapshotP sy worktreePath) (\<lambda>snapshot.
           if Error (Status snapshot) \<or> Dirty (Status snapshot) then ret True
           else bindW (attempt (Run sy worktreePath [''rev-parse'', ''HEAD''])) (headSignal sy worktreePath (map_of (blRepos bl) alias))))"

fun anySignal :: "sys \<Rightarrow> string \<Rightarrow> string \<Rightarrow> baseline \<Rightarrow> WorkspaceRepo list \<Rightarrow> (state_error, bool) prog" where
  "anySignal sy root workspaceID bl [] = ret False"
| "anySignal sy root workspaceID bl (r # rs) =
     bindW (repoSignal sy root workspaceID bl r) (\<lambda>b. if b then ret True else anySignal sy root workspaceID bl rs)"

definition hasRepoSignalsChanged :: "sys \<Rightarrow> string \<Rightarrow> string \<Rightarrow> WorkspaceRepo list \<Rightarrow> baseline \<Rightarrow> (state_error, bool) prog" where
  "hasRepoSignalsChanged sy root workspaceID repos bl =
     bindW (anySignal sy root workspaceID bl repos) (\<lambda>b.
       ret (b \<or> list_ex (\<lambda>(alias, h). alias \<notin> set (map (\<lambda>r. TrimSpace (wr_alias r)) repos) \<or> alias = []) (blRepos bl)))"

definition fsDiffers :: "(string \<times> string) list \<Rightarrow> (string \<times> string) list \<Rightarrow> bool" where
  "fsDiffers current base \<longleftrightarrow> length current \<noteq> length base \<or>
     list_ex (\<lambda>(path, h). (case map_of current path of Some x \<Rightarrow> x | None \<Rightarrow> []) \<noteq> h) base"

definition hasWorkspaceFSChanged :: "sys \<Rightarrow> string \<Rightarrow> string \<Rightarrow> baseline \<Rightarrow> world \<Rightarrow> unit + bool" where
  "hasWorkspaceFSChanged sy root workspaceID bl w =
     bindR (collectWorkspaceNonRepoFileHashes sy w (pathJoin [root, ''workspaces'', workspaceID]))
       (\<lambda>current. Inr (fsDiffers current (blFS bl)))"

text \<open>\<open>None\<close> is the error result, which the caller treats as in progress.\<close>

definition deriveWorkspaceWorkStateFromBaseline ::
    "sys \<Rightarrow> string \<Rightarrow> string \<Rightarrow> WorkspaceRepo list \<Rightarrow> (state_error, work_state) prog" where
  "deriveWorkspaceWorkStateFromBaseline sy root workspaceID repos w =
     (case loadWorkspaceBaseline root workspaceID w of
        Inl (StateReadErr NotExist) \<Rightarrow> deriveWorkspaceWorkStateFromLegacyRisk sy root workspaceID repos w
      | Inl e \<Rightarrow> (Inl e, w)
      | Inr bl \<Rightarrow>
          bindW (hasRepoSignalsChanged sy root workspaceID repos bl) (\<lambda>changed.
            if changed then ret InProgress
            else bindW (look (\<lambda>w. case hasWorkspaceFSChanged sy root workspaceID bl w of
                                    Inl _ \<Rightarrow> Inl StateWalkErr | Inr b \<Rightarrow> Inr b)) (\<lambda>fsChanged.
              ret (if fsChanged then InProgress else Todo))) w)"

text \<open>The cache is \<open>None\<close> for a nil pointer; the flag says whether the cache was changed.\<close>

definition resolveWorkspaceWorkState ::
    "sys \<Rightarrow> string \<Rightarrow> string \<Rightarrow> string \<Rightarrow> WorkspaceRepo list \<Rightarrow> ws_cache option \<Rightarrow> int \<Rightarrow> world
      \<Rightarrow> (work_state \<times> bool \<times> ws_cache option) \<times> world" where
  "resolveWorkspaceWorkState sy root scope workspaceID repos cache now w =
     (if scope \<noteq> ''active'' then ((Todo, False, cache), w)
      else if (case cache of None \<Rightarrow> False | Some c \<Rightarrow>
                (case map_of (cacheWorkspaces c) workspaceID of None \<Rightarrow> False | Some e \<Rightarrow> State e = ''in-progress''))
      then ((InProgress, False, cache), w)
      else case deriveWorkspaceWorkStateFromBaseline sy root workspaceID repos w of
        (r, w') \<Rightarrow>
          (let state = (case r of Inr s \<Rightarrow> s | Inl _ \<Rightarrow> InProgress)
           in case cache of
                None \<Rightarrow> ((state, False, cache), w')
              | Some c \<Rightarrow>
                  if state \<noteq> InProgress then ((state, False, cache), w')
                  else ((InProgress, True, Some (c\<lparr>cacheWorkspaces := AList.update workspaceID
                          \<lparr>State = ''in-progress'', FirstDerivedAt = now, DerivedFrom = ''hybrid-baseline''\<rparr>
                          (cacheWorkspaces c)\<rparr>)), w')))"

definition workStateSortPriority :: "string \<Rightarrow> nat" where
  "workStateSortPriority s = (if s = ''in-progress'' then 0 else 1)"

definition normalizeWorkspaceWorkState :: "string \<Rightarrow> work_state" where
  "normalizeWorkspaceWorkState s = (if s = ''in-progress'' then InProgress else Todo)"

subsection \<open>Laws\<close>

lemma foldE_update_distinct:
  assumes "foldE (\<lambda>q m. bindR (h q) (\<lambda>v. Inr (AList.update (k q) v m))) qs m = Inr m'" and "distinct (map fst m)"
  shows "distinct (map fst m')"
  by (rule foldE_induct [where P = "\<lambda>m. distinct (map fst m)", OF assms]) (auto simp: bindR_Inr_iff distinct_update)

lemma collect_distinct:
  "collectWorkspaceNonRepoFileHashes sy w p = Inr m \<Longrightarrow> distinct (map fst m)"
  by (auto simp: collectWorkspaceNonRepoFileHashes_def bindR_Inr_iff intro: foldE_update_distinct)

text \<open>The comparison by length and by the entries of one side decides equality of the maps.\<close>

lemma fsDiffers_iff:
  assumes "distinct (map fst cur)" and "distinct (map fst base)" and "\<forall>(p, h)\<in>set base. h \<noteq> []"
  shows "fsDiffers cur base \<longleftrightarrow> map_of cur \<noteq> map_of base"
proof -
  have len: "length m = card (dom (map_of m))" if "distinct (map fst m)" for m :: "(string \<times> string) list"
    using that by (metis distinct_card dom_map_of_conv_image_fst length_map set_map)
  have same: "(\<forall>(p, h)\<in>set base. (case map_of cur p of Some x \<Rightarrow> x | None \<Rightarrow> []) = h) \<longleftrightarrow> map_of base \<subseteq>\<^sub>m map_of cur"
  proof
    assume l: "\<forall>(p, h)\<in>set base. (case map_of cur p of Some x \<Rightarrow> x | None \<Rightarrow> []) = h"
    show "map_of base \<subseteq>\<^sub>m map_of cur"
      unfolding map_le_def
    proof
      fix p assume "p \<in> dom (map_of base)"
      then obtain h where h: "map_of base p = Some h" by auto
      then have "(p, h) \<in> set base" by (rule map_of_SomeD)
      with l assms(3) have "(case map_of cur p of Some x \<Rightarrow> x | None \<Rightarrow> []) = h" "h \<noteq> []" by auto
      with h show "map_of base p = map_of cur p" by (cases "map_of cur p") auto
    qed
  next
    assume "map_of base \<subseteq>\<^sub>m map_of cur"
    then show "\<forall>(p, h)\<in>set base. (case map_of cur p of Some x \<Rightarrow> x | None \<Rightarrow> []) = h"
      using map_of_is_SomeI [OF assms(2)] by (fastforce simp: map_le_def dom_def split: option.splits)
  qed
  have "map_of cur = map_of base" if "map_of base \<subseteq>\<^sub>m map_of cur" "length cur = length base"
  proof -
    have "dom (map_of base) = dom (map_of cur)"
      using that len [OF assms(1)] len [OF assms(2)] by (intro card_subset_eq) (auto simp: finite_dom_map_of map_le_implies_dom_le)
    with that(1) show ?thesis by (metis map_le_antisym map_le_def)
  qed
  moreover have "length cur = length base" if "map_of cur = map_of base"
    using that len [OF assms(1)] len [OF assms(2)] by simp
  ultimately show ?thesis
    unfolding fsDiffers_def using same by (auto simp: list_ex_iff)
qed

subsection \<open>The baseline file\<close>

definition wf_baseline :: "baseline \<Rightarrow> bool" where
  "wf_baseline b \<longleftrightarrow> blVersion b = 1 \<and> in_int64 (blCreatedAt b) \<and> valid_utf8 (blWorkspaceID b) \<and> blWorkspaceID b \<noteq> []
     \<and> distinct (map fst (blRepos b)) \<and> distinct (map fst (blFS b))
     \<and> list_all (\<lambda>(k, v). valid_utf8 k \<and> valid_utf8 v) (blRepos b @ blFS b)"

definition sortedBaseline :: "baseline \<Rightarrow> baseline" where
  "sortedBaseline b = b\<lparr>blRepos := sort_key fst (blRepos b), blFS := sort_key fst (blFS b)\<rparr>"

lemma fold_baseline_names:
  "fold_name ''version'' = ''VERSION''" "fold_name ''workspace_id'' = ''WORKSPACE_ID''"
  "fold_name ''created_at'' = ''CREATED_AT''" "fold_name ''repos'' = ''REPOS''" "fold_name ''fs'' = ''FS''"
  "fold_name ''baseline_head'' = ''BASELINE_HEAD''"
  by code_simp+

lemma utf8_baseline_names:
  "valid_utf8 ''version''" "valid_utf8 ''workspace_id''" "valid_utf8 ''created_at''" "valid_utf8 ''repos''"
  "valid_utf8 ''fs''" "valid_utf8 ''baseline_head''"
  by code_simp+

lemma decode_head: "decode_struct [(''baseline_head'', into_string (\<lambda>s _. s))] (JObj (txt_member ''baseline_head'' h)) [] = Some h"
  by (simp add: decode_struct_def txt_member_def)

lemma baseline_members:
  assumes "distinct (map fst m)"
  shows "blRepos r = [] \<Longrightarrow> decode_members baselineFields (map_member ''repos'' (\<lambda>h. JObj (txt_member ''baseline_head'' h)) m @ ms) r
      = decode_members baselineFields ms (r\<lparr>blRepos := sort_key fst m\<rparr>)"
    and "blFS r = [] \<Longrightarrow> decode_members baselineFields (map_member ''fs'' JStr m @ ms) r
      = decode_members baselineFields ms (r\<lparr>blFS := sort_key fst m\<rparr>)"
proof -
  assume "blRepos r = []"
  with assms show "decode_members baselineFields (map_member ''repos'' (\<lambda>h. JObj (txt_member ''baseline_head'' h)) m @ ms) r
      = decode_members baselineFields ms (r\<lparr>blRepos := sort_key fst m\<rparr>)"
    by (intro into_map_member [where get = blRepos and upd = "\<lambda>m. blRepos_update (\<lambda>_. m)" and nm = "''repos''"
          and d = "\<lambda>v. decode_struct [(''baseline_head'', into_string (\<lambda>s _. s))] v []"])
      (simp_all add: baselineFields_def fold_baseline_names decode_head)
next
  assume "blFS r = []"
  with assms show "decode_members baselineFields (map_member ''fs'' JStr m @ ms) r
      = decode_members baselineFields ms (r\<lparr>blFS := sort_key fst m\<rparr>)"
    by (intro into_map_member [where get = blFS and upd = "\<lambda>m. blFS_update (\<lambda>_. m)" and nm = "''fs''"
          and d = "\<lambda>v. into_string (\<lambda>s _. s) v []"])
      (simp_all add: baselineFields_def fold_baseline_names)
qed

lemma parse_renderBaseline:
  assumes "wf_baseline b"
  shows "parseBaseline (renderBaseline b) = Some (sortedBaseline b)"
proof -
  note wf = assms [unfolded wf_baseline_def list_all_iff]
  have "wf_json (JObj ([(''version'', JNum (blVersion b)), (''workspace_id'', JStr (blWorkspaceID b)),
      (''created_at'', JNum (blCreatedAt b))]
     @ map_member ''repos'' (\<lambda>h. JObj (txt_member ''baseline_head'' h)) (blRepos b) @ map_member ''fs'' JStr (blFS b)))"
  proof -
    have "wf_json (json_map (\<lambda>h. JObj (txt_member ''baseline_head'' h)) (blRepos b))" "wf_json (json_map JStr (blFS b))"
      using wf by (fastforce intro!: wf_json_map simp: list_all_iff txt_member_def utf8_baseline_names)+
    then show ?thesis using wf by (simp add: wf_members_append map_member_def utf8_baseline_names in_int64_def)
  qed
  moreover have "decode_members baselineFields
     (map_member ''repos'' (\<lambda>h. JObj (txt_member ''baseline_head'' h)) (blRepos b) @ map_member ''fs'' JStr (blFS b) @ [])
     \<lparr>blVersion = 1, blWorkspaceID = blWorkspaceID b, blCreatedAt = blCreatedAt b, blRepos = [], blFS = []\<rparr> = Some (sortedBaseline b)"
    using wf by (subst baseline_members(1), simp, simp, subst baseline_members(2)) (simp_all add: sortedBaseline_def)
  ultimately show ?thesis
    using wf
    by (simp add: parseBaseline_def renderBaseline_def parse_print_json decode_struct_obj fold_baseline_names in_int64_def
        baselineFields_def del: print_json.simps)
qed

interpretation baseline_file: atomic_file
  "atomicReplace True ''.workspace-baseline-'' ''.tmp'' d (d @ [wid @ ''.json''])" "d @ [wid @ ''.json'']" for d wid
proof (rule atomic_fileI)
  fix n
  have "last (''.workspace-baseline-'' @ nat_digits n @ ''.tmp'') \<noteq> last (wid @ ''.json'')" by simp
  then show "''.workspace-baseline-'' @ nat_digits n @ ''.tmp'' \<noteq> wid @ ''.json''" by metis
qed

lemma comps_baselinePath:
  assumes "IsAbs root" and "CHR ''/'' \<notin> set wid"
  shows "comps (workspaceBaselinePath root wid) = comps (pathJoin [root, ''.kra'', ''state'', ''workspace-baselines'']) @ [wid @ ''.json'']"
proof -
  have "plain (wid @ ''.json'')" "plains [''.kra'', ''state'', ''workspace-baselines'']"
    using assms(2) by (auto simp: plain_def append_eq_Cons_conv)
  then show ?thesis
    using pathJoin_abs [OF assms(1), of "[''.kra'', ''state'', ''workspace-baselines'']"]
      pathJoin_abs [OF assms(1), of "[''.kra'', ''state'', ''workspace-baselines'', wid @ ''.json'']"]
    by (simp add: workspaceBaselinePath_def)
qed

lemma baseline_save_load:
  assumes "saveWorkspaceBaseline root wid bl w = (Inr (), w')" and "IsAbs root" and "CHR ''/'' \<notin> set wid"
    and "wf_baseline (bl\<lparr>blWorkspaceID := wid\<rparr>)"
    and "\<not> fails w (SRead (comps (workspaceBaselinePath root wid)))"
  shows "loadWorkspaceBaseline root wid w' = Inr (sortedBaseline (bl\<lparr>blWorkspaceID := wid\<rparr>))"
proof -
  let ?d = "comps (pathJoin [root, ''.kra'', ''state'', ''workspace-baselines''])"
  have v: "blVersion bl = 1" "wid \<noteq> []" using assms(4) by (auto simp: wf_baseline_def)
  have "atomicReplace True ''.workspace-baseline-'' ''.tmp'' ?d (?d @ [wid @ ''.json'']) (renderBaseline (bl\<lparr>blWorkspaceID := wid\<rparr>)) w = (None, w')"
    using assms(1) comps_baselinePath [OF assms(2,3)] v
    by (auto simp: saveWorkspaceBaseline_def saveStateFile_def split: prod.splits option.splits)
  then have "ReadFile w' (workspaceBaselinePath root wid) = Inr (renderBaseline (bl\<lparr>blWorkspaceID := wid\<rparr>))"
    using assms(5) comps_baselinePath [OF assms(2,3)] by (intro baseline_file.read_after_put) auto
  then show ?thesis
    using parse_renderBaseline [OF assms(4)] v by (simp add: loadWorkspaceBaseline_def sortedBaseline_def Let_def)
qed

subsection \<open>What todo means\<close>

text \<open>A repository is quiet when git reported a clean status and the head the baseline recorded.\<close>

definition quietRepo :: "string \<Rightarrow> string \<Rightarrow> baseline \<Rightarrow> git_call list \<Rightarrow> WorkspaceRepo \<Rightarrow> bool" where
  "quietRepo root wid bl cs r \<longleftrightarrow>
     (let alias = TrimSpace (wr_alias r); dir = pathJoin [root, ''workspaces'', wid, ''repos'', alias]
      in \<not> wr_missing r \<and>
         (\<exists>base raw. map_of (blRepos bl) alias = Some base \<and> (dir, [''rev-parse'', ''HEAD''], GitOK raw) \<in> set cs
            \<and> TrimSpace raw = TrimSpace base) \<and>
         (\<exists>out s. (dir, [''status'', ''--porcelain=v2'', ''--branch''], GitOK out) \<in> set cs
            \<and> parseGitRepoSnapshot (TrimSpace out) = Inr s \<and> \<not> Dirty (Status s)))"

lemma quietRepo_mono: "quietRepo root wid bl cs r \<Longrightarrow> set cs \<subseteq> set ds \<Longrightarrow> quietRepo root wid bl ds r"
  by (auto simp: quietRepo_def Let_def)

lemma inspectSnapshotP_clean:
  assumes "inspectSnapshotP sy dir w = (Inr s, w')" and "\<not> Error (Status s)"
  shows "\<exists>out. calls w' = calls w @ [(dir, [''status'', ''--porcelain=v2'', ''--branch''], GitOK out)]
    \<and> parseGitRepoSnapshot (TrimSpace out) = Inr s"
proof -
  obtain r where r: "Run sy dir [''status'', ''--porcelain=v2'', ''--branch''] w = (r, w')"
    and s: "s = inspectGitRepoSnapshot (\<lambda>_. case r of Inr out \<Rightarrow> Some out | Inl _ \<Rightarrow> None) w dir"
    using assms by (auto simp: inspectSnapshotP_def error_snapshot_def upd_status_def split: if_splits prod.splits)
  show ?thesis
  proof (cases r)
    case (Inl e)
    then show ?thesis using s assms(2) by (simp add: inspectGitRepoSnapshot_def error_snapshot_def upd_status_def split: if_splits)
  next
    case (Inr o1)
    then show ?thesis
      using Run_result [of sy dir _ w o1 w'] r s assms(2)
      by (fastforce simp: inspectGitRepoSnapshot_def error_snapshot_def upd_status_def split: if_splits sum.splits)
  qed
qed

lemma repoSignal_quiet:
  assumes "repoSignal sy root wid bl r w = (Inr False, w')"
  shows "\<exists>cs. calls w' = calls w @ cs \<and> (TrimSpace (wr_alias r) \<noteq> [] \<longrightarrow> quietRepo root wid bl cs r)"
proof (cases "TrimSpace (wr_alias r) = []")
  case True
  then show ?thesis using assms by (simp add: repoSignal_def)
next
  case False
  let ?dir = "pathJoin [root, ''workspaces'', wid, ''repos'', TrimSpace (wr_alias r)]"
  have miss: "\<not> wr_missing r" using assms False by (auto simp: repoSignal_def Let_def split: if_splits)
  obtain s u h v where s: "inspectSnapshotP sy ?dir w = (Inr s :: state_error + gitRepoSnapshot, u)"
      "\<not> Error (Status s)" "\<not> Dirty (Status s)"
    and h: "Run sy ?dir [''rev-parse'', ''HEAD''] u = (h, v)"
    and k: "headSignal sy ?dir (map_of (blRepos bl) (TrimSpace (wr_alias r))) h v = (Inr False, w')"
    using assms False miss by (auto simp: repoSignal_def Let_def bindW_Inr split: if_splits)
  from k obtain out base where o: "h = Inr out" "map_of (blRepos bl) (TrimSpace (wr_alias r)) = Some base"
    "TrimSpace out = TrimSpace base" "w' = v"
    by (auto simp: headSignal_def bindW_Inr split: sum.splits option.splits if_splits)
  obtain raw where raw: "calls v = calls u @ [(?dir, [''rev-parse'', ''HEAD''], GitOK raw)]" "out = TrimSpace raw"
    using Run_result [of sy ?dir _ u out v] h o(1) by blast
  obtain st where "calls u = calls w @ [(?dir, [''status'', ''--porcelain=v2'', ''--branch''], GitOK st)]"
    "parseGitRepoSnapshot (TrimSpace st) = Inr s"
    using inspectSnapshotP_clean [OF s(1,2)] by blast
  with raw o s(3) miss show ?thesis by (auto simp: quietRepo_def Let_def)
qed

lemma anySignal_quiet:
  "anySignal sy root wid bl rs w = (Inr False, w') \<Longrightarrow>
   \<exists>cs. calls w' = calls w @ cs \<and> (\<forall>r\<in>set rs. TrimSpace (wr_alias r) \<noteq> [] \<longrightarrow> quietRepo root wid bl cs r)"
proof (induction rs arbitrary: w)
  case (Cons r rs)
  then obtain u where u: "repoSignal sy root wid bl r w = (Inr False, u)" "anySignal sy root wid bl rs u = (Inr False, w')"
    by (auto simp: bindW_Inr split: if_splits)
  obtain cs where cs: "calls u = calls w @ cs" "TrimSpace (wr_alias r) \<noteq> [] \<longrightarrow> quietRepo root wid bl cs r"
    using repoSignal_quiet [OF u(1)] by blast
  obtain ds where ds: "calls w' = calls u @ ds" "\<forall>r\<in>set rs. TrimSpace (wr_alias r) \<noteq> [] \<longrightarrow> quietRepo root wid bl ds r"
    using Cons.IH [OF u(2)] by blast
  have "\<forall>q\<in>set (r # rs). TrimSpace (wr_alias q) \<noteq> [] \<longrightarrow> quietRepo root wid bl (cs @ ds) q"
    using cs ds quietRepo_mono [of root wid bl cs _ "cs @ ds"] quietRepo_mono [of root wid bl ds _ "cs @ ds"] by auto
  with cs ds show ?case by (intro exI [of _ "cs @ ds"]) simp
qed simp

definition distinctMaps :: "baseline \<Rightarrow> bool" where
  "distinctMaps b \<longleftrightarrow> distinct (map fst (blRepos b)) \<and> distinct (map fst (blFS b))"

lemma into_scalar_distinct:
  assumes "into_int f v a = Some b \<or> into_string g v a = Some b" and "distinctMaps a"
    and "\<And>n. distinctMaps (f n a)" and "\<And>s. distinctMaps (g s a)"
  shows "distinctMaps b"
  using assms by (auto simp: into_int_def into_string_def split: json.splits if_splits)

lemma baselineFields_distinct:
  assumes "(nm, d) \<in> set baselineFields" and "d v a = Some b" and "distinctMaps a"
  shows "distinctMaps b"
proof -
  have scalar: "distinctMaps b" if "into_int f v a = Some b \<or> into_string g v a = Some b"
    "\<And>n. blRepos (f n a) = blRepos a \<and> blFS (f n a) = blFS a" "\<And>s. blRepos (g s a) = blRepos a \<and> blFS (g s a) = blFS a" for f g
    using that assms(3) into_scalar_distinct [of f v a b g] by (simp add: distinctMaps_def)
  have repos: "distinctMaps b" if "into_map (\<lambda>m. blRepos_update (\<lambda>_. m)) blRepos e v a = Some b" for e
    using that assms(3) by (elim into_map_distinct) (simp_all add: distinctMaps_def)
  have fs: "distinctMaps b" if "into_map (\<lambda>m. blFS_update (\<lambda>_. m)) blFS e v a = Some b" for e
    using that assms(3) by (elim into_map_distinct) (simp_all add: distinctMaps_def)
  consider "d = into_int (\<lambda>n. blVersion_update (\<lambda>_. n))" | "d = into_string (\<lambda>s. blWorkspaceID_update (\<lambda>_. s))"
    | "d = into_int (\<lambda>n. blCreatedAt_update (\<lambda>_. n))" | e where "d = into_map (\<lambda>m. blRepos_update (\<lambda>_. m)) blRepos e"
    | e where "d = into_map (\<lambda>m. blFS_update (\<lambda>_. m)) blFS e"
    using assms(1) unfolding baselineFields_def by auto
  then show ?thesis
  proof cases
    case 1
    then show ?thesis using assms(2) by (intro scalar [of "\<lambda>n. blVersion_update (\<lambda>_. n)" "\<lambda>_ x. x"]) simp_all
  next
    case 2
    then show ?thesis using assms(2) by (intro scalar [of "\<lambda>_ x. x" "\<lambda>s. blWorkspaceID_update (\<lambda>_. s)"]) simp_all
  next
    case 3
    then show ?thesis using assms(2) by (intro scalar [of "\<lambda>n. blCreatedAt_update (\<lambda>_. n)" "\<lambda>_ x. x"]) simp_all
  qed (use assms(2) repos fs in simp_all)
qed

lemma load_baseline_distinct:
  assumes "loadWorkspaceBaseline root wid w = Inr bl"
  shows "distinct (map fst (blRepos bl)) \<and> distinct (map fst (blFS bl))"
proof -
  have "distinctMaps b" if b: "parseBaseline t = Some b" for t b
  proof -
    obtain v where "decode_struct baselineFields v \<lparr>blVersion = 0, blWorkspaceID = [], blCreatedAt = 0, blRepos = [], blFS = []\<rparr> = Some b"
      using b by (auto simp: parseBaseline_def bind_eq_Some_conv)
    then show ?thesis
      by (cases v) (auto simp: decode_struct_def distinctMaps_def
          elim!: decode_members_inv [where P = distinctMaps, unfolded distinctMaps_def]
          dest: baselineFields_distinct [unfolded distinctMaps_def])
  qed
  then show ?thesis using assms
    by (auto simp: loadWorkspaceBaseline_def Let_def distinctMaps_def split: sum.splits option.splits if_splits)
qed

lemma quiet_signals:
  assumes "hasRepoSignalsChanged sy root wid repos bl w = (Inr False, w')"
  shows "(\<forall>r\<in>set repos. TrimSpace (wr_alias r) \<noteq> [] \<longrightarrow> quietRepo root wid bl (drop (length (calls w)) (calls w')) r)
    \<and> fst ` set (blRepos bl) \<subseteq> (\<lambda>r. TrimSpace (wr_alias r)) ` set repos"
proof -
  have "anySignal sy root wid bl repos w = (Inr False, w')"
    using assms by (auto simp: hasRepoSignalsChanged_def bindW_Inr)
  from anySignal_quiet [OF this] obtain cs where "calls w' = calls w @ cs"
    "\<forall>r\<in>set repos. TrimSpace (wr_alias r) \<noteq> [] \<longrightarrow> quietRepo root wid bl cs r" by blast
  moreover have "fst ` set (blRepos bl) \<subseteq> (\<lambda>r. TrimSpace (wr_alias r)) ` set repos"
    using assms by (auto simp: hasRepoSignalsChanged_def bindW_Inr list_ex_iff)
  ultimately show ?thesis by simp
qed

subsection \<open>Properties\<close>

text \<open>
  C10: a workspace with a baseline is reported as todo only when nothing happened in it: every repository
  is present, git reported its status clean and its head equal to the recorded one, no recorded
  repository has disappeared, and the files outside the repositories have exactly the recorded hashes.
\<close>

theorem todo_means_untouched:
  assumes "deriveWorkspaceWorkStateFromBaseline sy root wid repos w = (Inr Todo, w')"
    and "loadWorkspaceBaseline root wid w = Inr bl" and "\<forall>(p, h)\<in>set (blFS bl). h \<noteq> []"
  shows "(\<forall>r\<in>set repos. TrimSpace (wr_alias r) \<noteq> [] \<longrightarrow> quietRepo root wid bl (drop (length (calls w)) (calls w')) r)
    \<and> fst ` set (blRepos bl) \<subseteq> (\<lambda>r. TrimSpace (wr_alias r)) ` set repos
    \<and> (\<exists>current. collectWorkspaceNonRepoFileHashes sy w' (pathJoin [root, ''workspaces'', wid]) = Inr current
         \<and> map_of current = map_of (blFS bl))"
proof -
  have lookE: "\<And>u b. (case hasWorkspaceFSChanged sy root wid bl u of Inl _ \<Rightarrow> Inl StateWalkErr | Inr b \<Rightarrow> Inr b) = Inr b
      \<Longrightarrow> hasWorkspaceFSChanged sy root wid bl u = Inr b" by (auto split: sum.splits)
  have sig: "hasRepoSignalsChanged sy root wid repos bl w = (Inr False, w')"
    and fs: "hasWorkspaceFSChanged sy root wid bl w' = Inr False"
    using assms(1,2) lookE by (auto simp: deriveWorkspaceWorkStateFromBaseline_def bindW_Inr split: if_splits)
  from fs obtain current where "collectWorkspaceNonRepoFileHashes sy w' (pathJoin [root, ''workspaces'', wid]) = Inr current"
    "\<not> fsDiffers current (blFS bl)" by (auto simp: hasWorkspaceFSChanged_def bindR_Inr_iff)
  with quiet_signals [OF sig] show ?thesis
    using fsDiffers_iff [OF collect_distinct _ assms(3)] load_baseline_distinct [OF assms(2)] by blast
qed

definition demo_sys :: sys where
  "demo_sys = \<lparr>git = (\<lambda>dir args w. (GitOK [], files w)), git_missing = None,
     tree = (\<lambda>F k. if k = [''r'', ''workspaces'', ''T-1''] then [[''notes.md'']] else []),
     evalSymlinks = (\<lambda>w p. Some p), sha256 = (\<lambda>b. b), cmux = (\<lambda>args w. (CmuxOK [], files w)), action_file = []\<rparr>"

definition demo_baseline :: baseline where
  "demo_baseline = \<lparr>blVersion = 1, blWorkspaceID = ''T-1'', blCreatedAt = 5, blRepos = [], blFS = [(''notes.md'', ''sha256:hello'')]\<rparr>"

definition ws_world :: world where
  "ws_world = demo_world\<lparr>files := (files demo_world)([''r'', ''workspaces'', ''T-1''] \<mapsto> DirN,
     [''r'', ''workspaces'', ''T-1'', ''notes.md''] \<mapsto> FileN ''hello'')\<rparr>"

definition baselined_world :: world where
  "baselined_world = snd (saveWorkspaceBaseline ''/r'' ''T-1'' demo_baseline ws_world)"

theorem todo_means_untouched_witness:
  "\<exists>w' current. collectWorkspaceNonRepoFileHashes demo_sys w' (pathJoin [''/r'', ''workspaces'', ''T-1'']) = Inr current
     \<and> map_of current = map_of [(''notes.md'', ''sha256:hello'')]"
proof -
  have "fst (deriveWorkspaceWorkStateFromBaseline demo_sys ''/r'' ''T-1'' [] baselined_world) = Inr Todo" by code_simp
  then have d: "deriveWorkspaceWorkStateFromBaseline demo_sys ''/r'' ''T-1'' [] baselined_world
      = (Inr Todo, snd (deriveWorkspaceWorkStateFromBaseline demo_sys ''/r'' ''T-1'' [] baselined_world))"
    by (metis prod.collapse)
  have l: "loadWorkspaceBaseline ''/r'' ''T-1'' baselined_world = Inr demo_baseline" by code_simp
  have "\<forall>(p, h)\<in>set (blFS demo_baseline). h \<noteq> []" by (simp add: demo_baseline_def)
  from todo_means_untouched [OF d l this] show ?thesis by (auto simp: demo_baseline_def)
qed


definition missing_repo :: WorkspaceRepo where
  "missing_repo = \<lparr>wr_uid = ''u'', wr_key = [], wr_alias = ''a'', wr_branch = [], wr_base = [], wr_missing = True\<rparr>"

definition seen_cache :: "ws_cache option" where
  "seen_cache = snd (snd (fst (resolveWorkspaceWorkState demo_sys ''/r'' ''active'' ''T-1'' [missing_repo] (Some emptyCache) 9 demo_world)))"


text \<open>
  a baseline that was saved is loaded again with the same version, time, heads and hashes (the two
  maps come back sorted by key), for texts that are valid UTF-8.
\<close>

theorem baseline_roundtrip:
  assumes "saveWorkspaceBaseline root wid bl w = (Inr (), w')" and "IsAbs root" and "validateWorkspaceID wid"
    and "wf_baseline (bl\<lparr>blWorkspaceID := wid\<rparr>)"
    and "\<not> fails w (SRead (comps (workspaceBaselinePath root wid)))"
  shows "loadWorkspaceBaseline root wid w' = Inr (sortedBaseline (bl\<lparr>blWorkspaceID := wid\<rparr>))"
  using assms by (intro baseline_save_load) (auto simp: validateWorkspaceID_def)

theorem baseline_roundtrip_witness:
  "loadWorkspaceBaseline ''/r'' ''T-1'' baselined_world = Inr (sortedBaseline demo_baseline)"
proof -
  have "fst (saveWorkspaceBaseline ''/r'' ''T-1'' demo_baseline ws_world) = Inr ()" by code_simp
  then have "saveWorkspaceBaseline ''/r'' ''T-1'' demo_baseline ws_world = (Inr (), baselined_world)"
    unfolding baselined_world_def by (metis prod.collapse)
  moreover have "IsAbs ''/r''" "validateWorkspaceID ''T-1''" by code_simp+
  moreover have "wf_baseline (demo_baseline\<lparr>blWorkspaceID := ''T-1''\<rparr>)" by code_simp
  moreover have "\<not> fails ws_world (SRead (comps (workspaceBaselinePath ''/r'' ''T-1'')))"
    by (simp add: ws_world_def demo_world_def)
  ultimately have "loadWorkspaceBaseline ''/r'' ''T-1'' baselined_world = Inr (sortedBaseline (demo_baseline\<lparr>blWorkspaceID := ''T-1''\<rparr>))"
    by (rule baseline_roundtrip)
  then show ?thesis by (simp add: demo_baseline_def)
qed

end
