(* ===== verification/Cmux_Map.thy ===== *)
theory Cmux_Map
  imports Go_Json_Struct Go_Tree "HOL-Library.Product_Lexorder"
begin

text \<open>
  \<open>internal/cmuxmap\<close>: which cmux workspaces belong to which kra workspace. \<open>store.go\<close> keeps the mapping
  in a file below the root, normalised on every load and save; \<open>title_policy.go\<close> gives titles and
  ordinals to new cmux workspaces.
\<close>

subsection \<open>Data\<close>

record cmux_entry =
  CMUXWorkspaceID :: string
  Ordinal :: int
  TitleSnapshot :: string
  entryCreatedAt :: string
  entryLastUsedAt :: string

record cmux_mapping =
  NextOrdinal :: int
  Entries :: "cmux_entry list"

record cmux_file =
  mapVersion :: int
  mapWorkspaces :: "(string \<times> cmux_mapping) list"

datatype cmux_map_error = MapReadErr | MapParseErr | MapVersionErr int | MapMkdirErr | MapWriteErr | MapReplaceErr
  | MapIDRequired

definition cmuxEntryJson :: "cmux_entry \<Rightarrow> json" where
  "cmuxEntryJson e = JObj [(''cmux_workspace_id'', JStr (CMUXWorkspaceID e)), (''ordinal'', JNum (Ordinal e)),
     (''title_snapshot'', JStr (TitleSnapshot e)), (''created_at'', JStr (entryCreatedAt e)),
     (''last_used_at'', JStr (entryLastUsedAt e))]"

definition cmuxMappingJson :: "cmux_mapping \<Rightarrow> json" where
  "cmuxMappingJson m = JObj [(''next_ordinal'', JNum (NextOrdinal m)), (''entries'', JArr (map cmuxEntryJson (Entries m)))]"

definition renderCmuxFile :: "cmux_file \<Rightarrow> string" where
  "renderCmuxFile f = print_json 0 (JObj [(''version'', JNum (mapVersion f)),
     (''workspaces'', json_map cmuxMappingJson (mapWorkspaces f))]) @ [CHR 0x0A]"

definition cmuxEntryFields :: "cmux_entry field list" where
  "cmuxEntryFields =
     [(''cmux_workspace_id'', into_string (\<lambda>s. CMUXWorkspaceID_update (\<lambda>_. s))),
      (''ordinal'', into_int (\<lambda>n. Ordinal_update (\<lambda>_. n))),
      (''title_snapshot'', into_string (\<lambda>s. TitleSnapshot_update (\<lambda>_. s))),
      (''created_at'', into_string (\<lambda>s. entryCreatedAt_update (\<lambda>_. s))),
      (''last_used_at'', into_string (\<lambda>s. entryLastUsedAt_update (\<lambda>_. s)))]"

definition zero_entry :: cmux_entry where
  "zero_entry = \<lparr>CMUXWorkspaceID = [], Ordinal = 0, TitleSnapshot = [], entryCreatedAt = [], entryLastUsedAt = []\<rparr>"

definition cmuxMappingFields :: "cmux_mapping field list" where
  "cmuxMappingFields =
     [(''next_ordinal'', into_int (\<lambda>n. NextOrdinal_update (\<lambda>_. n))),
      (''entries'', into_slice (\<lambda>es. Entries_update (\<lambda>_. es)) (\<lambda>v. decode_struct cmuxEntryFields v zero_entry))]"

definition zero_mapping :: cmux_mapping where
  "zero_mapping = \<lparr>NextOrdinal = 0, Entries = []\<rparr>"

definition cmuxFileFields :: "cmux_file field list" where
  "cmuxFileFields =
     [(''version'', into_int (\<lambda>n. mapVersion_update (\<lambda>_. n))),
      (''workspaces'', into_map (\<lambda>m. mapWorkspaces_update (\<lambda>_. m)) mapWorkspaces
         (\<lambda>v. decode_struct cmuxMappingFields v zero_mapping))]"

definition parseCmuxFile :: "string \<Rightarrow> cmux_file option" where
  "parseCmuxFile b = Option.bind (parse_json b)
     (\<lambda>v. decode_struct cmuxFileFields v \<lparr>mapVersion = 0, mapWorkspaces = []\<rparr>)"

subsection \<open>Normalisation\<close>

text \<open>\<open>sort.SliceStable\<close> by ordinal, then by id.\<close>

definition entryKey :: "cmux_entry \<Rightarrow> int \<times> string" where
  "entryKey e = (Ordinal e, CMUXWorkspaceID e)"

text \<open>The loop over the sorted entries: position \<open>i\<close>, an ordinal below one becomes \<open>i + 1\<close>.\<close>

fun fixOrdinals :: "int \<Rightarrow> cmux_entry list \<Rightarrow> cmux_entry list" where
  "fixOrdinals i [] = []"
| "fixOrdinals i (e # es) = (if Ordinal e < 1 then e\<lparr>Ordinal := i + 1\<rparr> else e) # fixOrdinals (i + 1) es"

definition maxOrdinal :: "cmux_entry list \<Rightarrow> int" where
  "maxOrdinal es = fold (\<lambda>e m. if Ordinal e > m then Ordinal e else m) es 0"

definition normalizeMapping :: "cmux_mapping \<Rightarrow> cmux_mapping" where
  "normalizeMapping ws =
     (let es = fixOrdinals 0 (sort_key entryKey (Entries ws));
          n1 = (if NextOrdinal ws < 1 then 1 else NextOrdinal ws);
          n2 = (if n1 \<le> maxOrdinal es then maxOrdinal es + 1 else n1)
      in \<lparr>NextOrdinal = n2, Entries = es\<rparr>)"

definition normalizeFile :: "cmux_file \<Rightarrow> cmux_map_error + cmux_file" where
  "normalizeFile f =
     (let v = (if mapVersion f = 0 then 1 else mapVersion f)
      in if v \<noteq> 1 then Inl (MapVersionErr v)
         else Inr \<lparr>mapVersion = v, mapWorkspaces = map (\<lambda>(k, ws). (k, normalizeMapping ws)) (mapWorkspaces f)\<rparr>)"

subsection \<open>Store\<close>

definition MappingPath :: "string \<Rightarrow> string" where
  "MappingPath root = pathJoin [root, ''.kra'', ''state'', ''cmux-workspaces.json'']"

definition LoadMapping :: "string \<Rightarrow> world \<Rightarrow> cmux_map_error + cmux_file" where
  "LoadMapping root w =
     (case ReadFile w (MappingPath root) of
        Inl NotExist \<Rightarrow> Inr \<lparr>mapVersion = 1, mapWorkspaces = []\<rparr>
      | Inl ReadFailed \<Rightarrow> Inl MapReadErr
      | Inr b \<Rightarrow> (case parseCmuxFile b of None \<Rightarrow> Inl MapParseErr | Some f \<Rightarrow> normalizeFile f))"

definition SaveMapping :: "string \<Rightarrow> cmux_file \<Rightarrow> (cmux_map_error, unit) prog" where
  "SaveMapping root f0 =
     bindW (look (\<lambda>_. normalizeFile f0)) (\<lambda>f.
     bindW (mapErr (\<lambda>_. MapMkdirErr) (MkdirAllP (Dir (MappingPath root)))) (\<lambda>_.
     bindW (mapErr (\<lambda>_. MapWriteErr) (WriteFile (MappingPath root @ ''.tmp'') (renderCmuxFile f))) (\<lambda>_ w.
       case RenameFile (comps (MappingPath root @ ''.tmp'')) (comps (MappingPath root)) w of
         (True, w') \<Rightarrow> (Inr (), w')
       | (False, w') \<Rightarrow> (Inl MapReplaceErr, w'))))"

subsection \<open>Titles and ordinals\<close>

definition FormatWorkspaceTitle :: "string \<Rightarrow> string \<Rightarrow> int \<Rightarrow> cmux_map_error + string" where
  "FormatWorkspaceTitle kraWorkspaceID kraTitle ordinal =
     (let wid = TrimSpace kraWorkspaceID; title = TrimSpace kraTitle
      in if wid = [] then Inl MapIDRequired
         else Inr (wid @ '' | '' @ (if title = [] then ''(untitled)'' else title)))"

text \<open>The file is updated in place: the new file is returned, also with an error (\<open>normalize\<close> has run by then).\<close>

definition AllocateOrdinal :: "cmux_file \<Rightarrow> string \<Rightarrow> (cmux_map_error + int) \<times> cmux_file" where
  "AllocateOrdinal f0 kraWorkspaceID =
     (case normalizeFile f0 of
        Inl e \<Rightarrow> (Inl e, f0)
      | Inr f \<Rightarrow>
          (let wid = TrimSpace kraWorkspaceID
           in if wid = [] then (Inl MapIDRequired, f)
              else let ws = (case map_of (mapWorkspaces f) wid of Some x \<Rightarrow> x | None \<Rightarrow> zero_mapping);
                       ordinal = (if NextOrdinal ws < 1 then 1 else NextOrdinal ws)
                   in (Inr ordinal, f\<lparr>mapWorkspaces := AList.update wid (ws\<lparr>NextOrdinal := ordinal + 1\<rparr>) (mapWorkspaces f)\<rparr>)))"

subsection \<open>Laws\<close>

definition wf_mapping :: "cmux_mapping \<Rightarrow> bool" where
  "wf_mapping m \<longleftrightarrow> 1 \<le> NextOrdinal m \<and> list_all (\<lambda>e. 1 \<le> Ordinal e \<and> Ordinal e < NextOrdinal m) (Entries m)
     \<and> sorted (map entryKey (Entries m))"

lemma maxOrdinal_le:
  "0 \<le> maxOrdinal es \<and> (\<forall>e\<in>set es. Ordinal e \<le> maxOrdinal es)"
proof -
  have "m \<le> fold (\<lambda>e m. if Ordinal e > m then Ordinal e else m) es m
      \<and> (\<forall>e\<in>set es. Ordinal e \<le> fold (\<lambda>e m. if Ordinal e > m then Ordinal e else m) es m)" for m
  proof (induction es arbitrary: m)
    case (Cons e es)
    show ?case using Cons [of "if Ordinal e > m then Ordinal e else m"] by auto
  qed simp
  then show ?thesis unfolding maxOrdinal_def by blast
qed

lemma maxOrdinal_less:
  assumes "1 \<le> n" and "\<forall>e\<in>set es. Ordinal e < n"
  shows "maxOrdinal es < n"
proof -
  have "c < n \<Longrightarrow> fold (\<lambda>e m. if Ordinal e > m then Ordinal e else m) es c < n" for c
    using assms(2) by (induction es arbitrary: c) auto
  from this [of 0] show ?thesis using assms(1) by (simp add: maxOrdinal_def)
qed

lemma fixOrdinals_ge: "0 \<le> i \<Longrightarrow> e \<in> set (fixOrdinals i es) \<Longrightarrow> 1 \<le> Ordinal e"
proof (induction es arbitrary: i)
  case (Cons a es)
  then show ?case using Cons.IH [of "i + 1"] by (auto split: if_splits)
qed simp

lemma fixOrdinals_id: "\<forall>e\<in>set es. 1 \<le> Ordinal e \<Longrightarrow> fixOrdinals i es = es"
  by (induction es arbitrary: i) auto

lemma length_fixOrdinals [simp]: "length (fixOrdinals i es) = length es"
  by (induction es arbitrary: i) auto

lemma ids_fixOrdinals [simp]: "map CMUXWorkspaceID (fixOrdinals i es) = map CMUXWorkspaceID es"
  by (induction es arbitrary: i) auto

lemma normalize_ordinals:
  "1 \<le> NextOrdinal (normalizeMapping m)
   \<and> list_all (\<lambda>e. 1 \<le> Ordinal e \<and> Ordinal e < NextOrdinal (normalizeMapping m)) (Entries (normalizeMapping m))"
  using maxOrdinal_le [of "fixOrdinals 0 (sort_key entryKey (Entries m))"] fixOrdinals_ge [of 0 _ "sort_key entryKey (Entries m)"]
  by (fastforce simp: normalizeMapping_def Let_def list_all_iff)

lemma normalize_wf:
  assumes "\<forall>e\<in>set (Entries m). 1 \<le> Ordinal e"
  shows "wf_mapping (normalizeMapping m)" and "Entries (normalizeMapping m) = sort_key entryKey (Entries m)"
proof -
  show es: "Entries (normalizeMapping m) = sort_key entryKey (Entries m)"
    using assms by (simp add: normalizeMapping_def Let_def fixOrdinals_id)
  then show "wf_mapping (normalizeMapping m)"
    using normalize_ordinals [of m] by (simp add: wf_mapping_def)
qed

lemma normalize_id:
  assumes "wf_mapping m"
  shows "normalizeMapping m = m"
proof -
  have s: "sort_key entryKey (Entries m) = Entries m" "fixOrdinals 0 (Entries m) = Entries m"
    using assms by (auto simp: wf_mapping_def list_all_iff sort_key_id_if_sorted fixOrdinals_id)
  have "maxOrdinal (Entries m) < NextOrdinal m"
    using assms by (intro maxOrdinal_less) (auto simp: wf_mapping_def list_all_iff)
  with s assms show ?thesis by (cases m) (simp add: normalizeMapping_def wf_mapping_def Let_def)
qed

lemma map_of_normalizeFile:
  assumes "normalizeFile f = Inr g"
  shows "map_of (mapWorkspaces g) k = map_option normalizeMapping (map_of (mapWorkspaces f) k)"
proof -
  have "map_of (map (\<lambda>(k, ws). (k, normalizeMapping ws)) xs) k = map_option normalizeMapping (map_of xs k)" for xs
    by (induction xs) auto
  then show ?thesis using assms by (auto simp: normalizeFile_def Let_def split: if_splits)
qed

definition mappingOf :: "cmux_file \<Rightarrow> string \<Rightarrow> cmux_mapping" where
  "mappingOf f k = (case map_of (mapWorkspaces f) k of Some m \<Rightarrow> m | None \<Rightarrow> zero_mapping)"

lemma zero_mapping_simps [simp]: "NextOrdinal zero_mapping = 0" "Entries zero_mapping = []"
  by (simp_all add: zero_mapping_def)

lemma allocate_cases:
  assumes "AllocateOrdinal f wid = (Inr n, f')"
  obtains g where "normalizeFile f = Inr g" and "mapVersion f' = 1"
    and "n = (if NextOrdinal (mappingOf g (TrimSpace wid)) < 1 then 1 else NextOrdinal (mappingOf g (TrimSpace wid)))"
    and "map_of (mapWorkspaces f') = (map_of (mapWorkspaces g))(TrimSpace wid \<mapsto> (mappingOf g (TrimSpace wid))\<lparr>NextOrdinal := n + 1\<rparr>)"
    and "TrimSpace wid \<noteq> []"
  using assms
  by (auto simp: AllocateOrdinal_def Let_def mappingOf_def update_conv' normalizeFile_def split: sum.splits if_splits)

lemma normalized_mappingOf:
  assumes "normalizeFile f = Inr g"
  shows "list_all (\<lambda>e. 1 \<le> Ordinal e \<and> Ordinal e < NextOrdinal (mappingOf g k)) (Entries (mappingOf g k))"
    and "mappingOf g k = zero_mapping \<or> (\<exists>m. mappingOf g k = normalizeMapping m)"
  using map_of_normalizeFile [OF assms, of k] normalize_ordinals
  by (auto simp: mappingOf_def split: option.splits)

lemma normalizeMapping_next:
  assumes "1 \<le> n" and "n \<le> k" and "list_all (\<lambda>e. 1 \<le> Ordinal e \<and> Ordinal e < n) (Entries m)"
  shows "NextOrdinal (normalizeMapping (m\<lparr>NextOrdinal := k\<rparr>)) = k"
proof -
  have "fixOrdinals 0 (sort_key entryKey (Entries m)) = sort_key entryKey (Entries m)"
    using assms(3) by (auto simp: list_all_iff intro: fixOrdinals_id)
  moreover have "maxOrdinal (sort_key entryKey (Entries m)) < n"
    using assms by (intro maxOrdinal_less) (auto simp: list_all_iff)
  ultimately show ?thesis using assms(1,2) by (simp add: normalizeMapping_def Let_def)
qed

lemma allocate_again:
  assumes "AllocateOrdinal f wid = (Inr n, f')"
  shows "fst (AllocateOrdinal f' wid) = Inr (n + 1)" and "1 \<le> n"
    and "list_all (\<lambda>e. Ordinal e < n) (Entries (mappingOf f' (TrimSpace wid)))"
proof -
  obtain g where g: "normalizeFile f = Inr g" "mapVersion f' = 1"
    "n = (if NextOrdinal (mappingOf g (TrimSpace wid)) < 1 then 1 else NextOrdinal (mappingOf g (TrimSpace wid)))"
    "map_of (mapWorkspaces f') = (map_of (mapWorkspaces g))(TrimSpace wid \<mapsto> (mappingOf g (TrimSpace wid))\<lparr>NextOrdinal := n + 1\<rparr>)"
    "TrimSpace wid \<noteq> []"
    using allocate_cases [OF assms] .
  show n: "1 \<le> n" using g(3) by simp
  have es: "list_all (\<lambda>e. 1 \<le> Ordinal e \<and> Ordinal e < n) (Entries (mappingOf g (TrimSpace wid)))"
    using normalized_mappingOf [OF g(1), of "TrimSpace wid"] g(3) by (auto simp: list_all_iff)
  then show "list_all (\<lambda>e. Ordinal e < n) (Entries (mappingOf f' (TrimSpace wid)))"
    by (auto simp: mappingOf_def g(4) list_all_iff)
  obtain g' where g': "normalizeFile f' = Inr g'" using g(2) by (simp add: normalizeFile_def)
  have "NextOrdinal (mappingOf g' (TrimSpace wid)) = n + 1"
    using map_of_normalizeFile [OF g', of "TrimSpace wid"] normalizeMapping_next [OF n _ es, of "n + 1"]
    by (simp add: g(4) mappingOf_def)
  then show "fst (AllocateOrdinal f' wid) = Inr (n + 1)"
    using n g(5) g' by (auto simp: AllocateOrdinal_def Let_def mappingOf_def split: option.splits)
qed

subsection \<open>The file\<close>

definition wf_cmux_file :: "cmux_file \<Rightarrow> bool" where
  "wf_cmux_file f \<longleftrightarrow> mapVersion f = 1 \<and> distinct (map fst (mapWorkspaces f)) \<and>
     list_all (\<lambda>(k, m). valid_utf8 k \<and> in_int64 (NextOrdinal m) \<and> list_all (\<lambda>e. valid_utf8 (CMUXWorkspaceID e) \<and>
       in_int64 (Ordinal e) \<and> valid_utf8 (TitleSnapshot e) \<and> valid_utf8 (entryCreatedAt e) \<and> valid_utf8 (entryLastUsedAt e))
       (Entries m)) (mapWorkspaces f)"

lemma cmux_names:
  "fold_name ''cmux_workspace_id'' = ''CMUX_WORKSPACE_ID''" "fold_name ''ordinal'' = ''ORDINAL''"
  "fold_name ''title_snapshot'' = ''TITLE_SNAPSHOT''" "fold_name ''created_at'' = ''CREATED_AT''"
  "fold_name ''last_used_at'' = ''LAST_USED_AT''" "fold_name ''next_ordinal'' = ''NEXT_ORDINAL''"
  "fold_name ''entries'' = ''ENTRIES''" "fold_name ''version'' = ''VERSION''" "fold_name ''workspaces'' = ''WORKSPACES''"
  by code_simp+

lemma cmux_names_utf8:
  "valid_utf8 ''cmux_workspace_id''" "valid_utf8 ''ordinal''" "valid_utf8 ''title_snapshot''" "valid_utf8 ''created_at''"
  "valid_utf8 ''last_used_at''" "valid_utf8 ''next_ordinal''" "valid_utf8 ''entries''" "valid_utf8 ''version''"
  "valid_utf8 ''workspaces''"
  by code_simp+

lemma decode_cmux_entry:
  "in_int64 (Ordinal e) \<Longrightarrow> decode_struct cmuxEntryFields (cmuxEntryJson e) zero_entry = Some e"
  by (cases e) (simp add: decode_struct_def cmuxEntryJson_def cmuxEntryFields_def cmux_names zero_entry_def)

lemma decode_cmux_mapping:
  assumes "in_int64 (NextOrdinal m)" and "\<forall>e\<in>set (Entries m). in_int64 (Ordinal e)"
  shows "decode_struct cmuxMappingFields (cmuxMappingJson m) zero_mapping = Some m"
proof -
  have "decode_list (\<lambda>v. decode_struct cmuxEntryFields v zero_entry) (map cmuxEntryJson (Entries m)) = Some (map id (Entries m))"
    using assms(2) by (intro decode_list_map) (simp add: decode_cmux_entry)
  then show ?thesis
    using assms(1) by (cases m) (simp add: decode_struct_obj cmuxMappingJson_def cmuxMappingFields_def cmux_names zero_mapping_def)
qed

definition sortedFile :: "cmux_file \<Rightarrow> cmux_file" where
  "sortedFile f = f\<lparr>mapWorkspaces := sort_key fst (mapWorkspaces f)\<rparr>"

lemma wf_cmux_json:
  assumes "wf_cmux_file f"
  shows "wf_json (JObj [(''version'', JNum (mapVersion f)), (''workspaces'', json_map cmuxMappingJson (mapWorkspaces f))])"
proof -
  have "list_all (\<lambda>(k, m). valid_utf8 k \<and> wf_json (cmuxMappingJson m)) (mapWorkspaces f)"
    using assms by (fastforce simp: wf_cmux_file_def list_all_iff cmuxMappingJson_def cmuxEntryJson_def wf_json_arr cmux_names_utf8 in_int64_def)
  from wf_json_map [OF this] show ?thesis
    using assms by (simp add: cmux_names_utf8 wf_cmux_file_def in_int64_def)
qed

lemma parse_renderCmux:
  assumes "wf_cmux_file f"
  shows "parseCmuxFile (renderCmuxFile f) = Some (sortedFile f)"
proof -
  have "into_map (\<lambda>m. mapWorkspaces_update (\<lambda>_. m)) mapWorkspaces (\<lambda>v. decode_struct cmuxMappingFields v zero_mapping)
      (json_map cmuxMappingJson (mapWorkspaces f)) \<lparr>mapVersion = 1, mapWorkspaces = []\<rparr>
      = Some \<lparr>mapVersion = 1, mapWorkspaces = sort_key fst (mapWorkspaces f)\<rparr>"
    using assms
    by (subst decode_json_map) (auto simp: wf_cmux_file_def list_all_iff intro!: decode_cmux_mapping)
  then show ?thesis
    using wf_cmux_json [OF assms] assms
    by (cases f) (simp add: parseCmuxFile_def renderCmuxFile_def parse_print_json decode_struct_obj cmuxFileFields_def cmux_names
        wf_cmux_file_def in_int64_def sortedFile_def del: print_json.simps)
qed

lemma comps_MappingPath:
  assumes "IsAbs root"
  shows "comps (MappingPath root) = comps root @ [''.kra'', ''state'', ''cmux-workspaces.json'']"
    and "comps (MappingPath root @ ''.tmp'') = comps root @ [''.kra'', ''state'', ''cmux-workspaces.json.tmp'']"
    and "comps (Dir (MappingPath root)) = comps root @ [''.kra'', ''state'']"
proof -
  have pl: "plains [''.kra'', ''state'', ''cmux-workspaces.json'']" "plains [''.kra'', ''state'', ''cmux-workspaces.json.tmp'']"
    by (simp_all add: plain_def)
  have p: "MappingPath root = abs_path (comps root @ [''.kra'', ''state'', ''cmux-workspaces.json''])"
    using pathJoin_abs [OF assms pl(1)] by (simp add: MappingPath_def)
  then show "comps (MappingPath root) = comps root @ [''.kra'', ''state'', ''cmux-workspaces.json'']"
    using pl(1) by simp
  show "comps (Dir (MappingPath root)) = comps root @ [''.kra'', ''state'']"
    using pl(1) by (simp add: p Dir_abs_path butlast_append)
  have j: "join [slash] (xs @ [a]) @ b = join [slash] (xs @ [a @ b])" for xs :: "string list" and a b
    by (induction xs) (auto simp: join_Cons)
  have "MappingPath root @ ''.tmp'' = abs_path (comps root @ [''.kra'', ''state'', ''cmux-workspaces.json.tmp''])"
    using j [of "comps root @ [''.kra'', ''state'']" "''cmux-workspaces.json''" "''.tmp''"] by (simp add: p abs_path_def)
  then show "comps (MappingPath root @ ''.tmp'') = comps root @ [''.kra'', ''state'', ''cmux-workspaces.json.tmp'']"
    using pl(2) by simp
qed

lemma SaveMapping_file:
  assumes "SaveMapping root f w = (Inr (), w')" and "IsAbs root" and "normalizeFile f = Inr g"
  shows "files w' (comps (MappingPath root)) = Some (FileN (renderCmuxFile g))" and "fails w' = fails w"
  using assms(1,3) comps_MappingPath [OF assms(2)]
  by (auto simp: SaveMapping_def bindW_Inr MkdirAllP_def MkdirAll_def WriteFile_def RenameFile_def Let_def
      split: if_splits prod.splits bool.splits)

lemma wf_normalized:
  assumes "normalizeFile f = Inr g" and "\<forall>(k, m)\<in>set (mapWorkspaces f). \<forall>e\<in>set (Entries m). 1 \<le> Ordinal e"
  shows "normalizeFile (sortedFile g) = Inr (sortedFile g)"
proof -
  have wf: "wf_mapping m" if "(k, m) \<in> set (mapWorkspaces g)" for k m
    using that assms by (fastforce simp: normalizeFile_def Let_def split: if_splits intro!: normalize_wf)
  have "map (\<lambda>(k, ws). (k, normalizeMapping ws)) (sort_key fst (mapWorkspaces g)) = sort_key fst (mapWorkspaces g)"
    using wf normalize_id by (intro map_idI) auto
  then show ?thesis using assms(1) by (auto simp: normalizeFile_def sortedFile_def Let_def split: if_splits)
qed

subsection \<open>Properties\<close>

text \<open>
  an ordinal that is handed out is at least one, is above the ordinals of all cmux workspaces the
  kra workspace has, and the next one handed out is its successor, so no two are equal.
\<close>

theorem allocate_fresh:
  assumes "AllocateOrdinal f wid = (Inr n, f')"
  shows "1 \<le> n \<and> list_all (\<lambda>e. Ordinal e < n) (Entries (mappingOf f' (TrimSpace wid)))
    \<and> fst (AllocateOrdinal f' wid) = Inr (n + 1)"
  using allocate_again [OF assms] by simp

definition demo_cmux :: cmux_file where
  "demo_cmux = \<lparr>mapVersion = 1, mapWorkspaces = [(''T-1'', \<lparr>NextOrdinal = 1, Entries =
     [\<lparr>CMUXWorkspaceID = ''b'', Ordinal = 4, TitleSnapshot = [], entryCreatedAt = [], entryLastUsedAt = []\<rparr>,
      \<lparr>CMUXWorkspaceID = ''a'', Ordinal = 2, TitleSnapshot = [], entryCreatedAt = [], entryLastUsedAt = []\<rparr>]\<rparr>)]\<rparr>"

theorem allocate_fresh_witness:
  "fst (AllocateOrdinal (snd (AllocateOrdinal demo_cmux ''T-1'')) ''T-1'') = Inr 6"
proof -
  have "fst (AllocateOrdinal demo_cmux ''T-1'') = Inr 5" by code_simp
  then have "AllocateOrdinal demo_cmux ''T-1'' = (Inr 5, snd (AllocateOrdinal demo_cmux ''T-1''))" by (metis prod.collapse)
  from allocate_fresh [OF this] show ?thesis by simp
qed

text \<open>
  loading the mapping returns what was saved, normalised and with the workspaces in order of their ids,
  whenever every entry has an ordinal of at least one.
\<close>

theorem mapping_roundtrip:
  assumes "SaveMapping root f w = (Inr (), w')" and "IsAbs root" and "normalizeFile f = Inr g" and "wf_cmux_file g"
    and "\<forall>(k, m)\<in>set (mapWorkspaces f). \<forall>e\<in>set (Entries m). 1 \<le> Ordinal e"
    and "\<not> fails w (SRead (comps (MappingPath root)))"
  shows "LoadMapping root w' = Inr (sortedFile g)"
proof -
  have "ReadFile w' (MappingPath root) = Inr (renderCmuxFile g)"
    using SaveMapping_file [OF assms(1-3)] assms(6) by (simp add: ReadFile_def)
  then show ?thesis
    using parse_renderCmux [OF assms(4)] wf_normalized [OF assms(3,5)] by (simp add: LoadMapping_def)
qed

theorem mapping_roundtrip_witness:
  "\<exists>g. normalizeFile demo_cmux = Inr g \<and> LoadMapping ''/r'' (snd (SaveMapping ''/r'' demo_cmux demo_world)) = Inr (sortedFile g)"
proof -
  have "fst (SaveMapping ''/r'' demo_cmux demo_world) = Inr ()" by code_simp
  then have s: "SaveMapping ''/r'' demo_cmux demo_world = (Inr (), snd (SaveMapping ''/r'' demo_cmux demo_world))"
    by (metis prod.collapse)
  let ?g = "\<lparr>mapVersion = 1, mapWorkspaces = map (\<lambda>(k, ws). (k, normalizeMapping ws)) (mapWorkspaces demo_cmux)\<rparr>"
  have n: "normalizeFile demo_cmux = Inr ?g" by (simp add: normalizeFile_def demo_cmux_def)
  have "IsAbs ''/r''" "wf_cmux_file ?g" by code_simp+
  moreover have "\<forall>(k, m)\<in>set (mapWorkspaces demo_cmux). \<forall>e\<in>set (Entries m). 1 \<le> Ordinal e" by (simp add: demo_cmux_def)
  moreover have "\<not> fails demo_world (SRead (comps (MappingPath ''/r'')))" by (simp add: demo_world_def)
  ultimately show ?thesis using mapping_roundtrip [OF s _ n] n by blast
qed

definition clash_mapping :: cmux_mapping where
  "clash_mapping = \<lparr>NextOrdinal = 1, Entries =
     [\<lparr>CMUXWorkspaceID = ''x'', Ordinal = 0, TitleSnapshot = [], entryCreatedAt = [], entryLastUsedAt = []\<rparr>,
      \<lparr>CMUXWorkspaceID = ''y'', Ordinal = 0, TitleSnapshot = [], entryCreatedAt = [], entryLastUsedAt = []\<rparr>,
      \<lparr>CMUXWorkspaceID = ''z'', Ordinal = 1, TitleSnapshot = [], entryCreatedAt = [], entryLastUsedAt = []\<rparr>]\<rparr>"

text \<open>
  an entry without a valid ordinal gets the number of its position, which another entry may have: of
  three entries with the ordinals 0, 0 and 1 the first and the third both end up as number 1, and a
  second normalisation changes the order again.
\<close>

theorem normalize_duplicates:
  "map Ordinal (Entries (normalizeMapping clash_mapping)) = [1, 2, 1]
   \<and> normalizeMapping (normalizeMapping clash_mapping) \<noteq> normalizeMapping clash_mapping"
  by code_simp

end
