(* ===== verification/Cmux_Ctl.thy ===== *)
theory Cmux_Ctl
  imports Go_Json_Struct Go_Tree
begin

text \<open>
  \<open>internal/infra/cmuxctl/client.go\<close>: the commands of the terminal multiplexer cmux. Each method checks and
  trims its arguments, runs the \<open>cmux\<close> program (the parameter \<open>cmux\<close> of \<open>sys\<close>; every run is recorded in
  \<open>cmux_calls\<close>) and reads its answer. An error is its text; where Go quotes a value or
  adds the text of a JSON error only the fixed part is kept.
\<close>

record cmux_client =
  SocketPath :: string
  Password :: string

definition NewClient :: cmux_client where
  "NewClient = \<lparr>SocketPath = [], Password = []\<rparr>"

record cmux_workspace =
  cwID :: string
  cwRef :: string
  cwIndex :: int
  cwTitle :: string
  cwSelected :: bool

record cmux_pane =
  cpID :: string
  cpRef :: string
  cpIndex :: int
  cpFocused :: bool

record cmux_surface =
  csID :: string
  csRef :: string
  csIndex :: int
  csTitle :: string
  csType :: string
  csSelected :: bool
  csPaneID :: string

subsection \<open>Running cmux\<close>

definition exec_cmux :: "sys \<Rightarrow> string list \<Rightarrow> world \<Rightarrow> cmux_result \<times> world" where
  "exec_cmux sy args w =
     (case cmux sy args w of (r, F) \<Rightarrow> (r, w\<lparr>files := F, cmux_calls := cmux_calls w @ [args]\<rparr>))"

definition cmuxArgs :: "cmux_client \<Rightarrow> bool \<Rightarrow> bool \<Rightarrow> string list \<Rightarrow> string list" where
  "cmuxArgs c jsonOutput idFormatBoth args =
     (if TrimSpace (SocketPath c) \<noteq> [] then [''--socket'', TrimSpace (SocketPath c)] else [])
     @ (if TrimSpace (Password c) \<noteq> [] then [''--password'', TrimSpace (Password c)] else [])
     @ (if jsonOutput then ''--json'' # (if idFormatBoth then [''--id-format'', ''both''] else []) else [])
     @ args"

text \<open>The error is the pair of the standard error and the text of the \<open>exec\<close> error.\<close>

definition runCmux :: "sys \<Rightarrow> cmux_client \<Rightarrow> bool \<Rightarrow> bool \<Rightarrow> string list \<Rightarrow> (string \<times> string, string) prog" where
  "runCmux sy c jsonOutput idFormatBoth args w =
     (case exec_cmux sy (cmuxArgs c jsonOutput idFormatBoth args) w of
        (CmuxOK out, w') \<Rightarrow> (Inr out, w')
      | (CmuxErr out stderr err, w') \<Rightarrow> (Inl (stderr, err), w'))"

definition isUnsupportedIDFormatError :: "string \<Rightarrow> string \<Rightarrow> bool" where
  "isUnsupportedIDFormatError stderr err =
     (let m0 = ToLower (TrimSpace stderr); msg = (if m0 = [] then ToLower err else m0)
      in Contains msg ''id-format'' \<and>
         (Contains msg ''unknown option'' \<or> Contains msg ''unrecognized option'' \<or> Contains msg ''unknown flag''))"

definition commandError :: "string \<Rightarrow> string \<times> string \<Rightarrow> string" where
  "commandError command e =
     (case e of (stderr, err) \<Rightarrow>
        let msg = TrimSpace stderr
        in if msg = [] then ''cmux '' @ command @ '': '' @ err else ''cmux '' @ command @ '': '' @ msg @ '': '' @ err)"

text \<open>The retry without \<open>--id-format\<close> for an older cmux.\<close>

definition runJSONRaw :: "sys \<Rightarrow> cmux_client \<Rightarrow> string list \<Rightarrow> (string \<times> string, string) prog" where
  "runJSONRaw sy c args w =
     (case runCmux sy c True True args w of
        (Inl (stderr, err), w') \<Rightarrow>
          if isUnsupportedIDFormatError stderr err then runCmux sy c True False args w' else (Inl (stderr, err), w')
      | r \<Rightarrow> r)"

definition runJSON :: "sys \<Rightarrow> cmux_client \<Rightarrow> (json \<Rightarrow> 'a option) \<Rightarrow> string list \<Rightarrow> (string, 'a) prog" where
  "runJSON sy c decode args =
     bindW (mapErr (commandError (join '' '' args)) (runJSONRaw sy c args)) (\<lambda>out.
       case Option.bind (parse_json out) decode of
         None \<Rightarrow> throw ''decode cmux json output''
       | Some v \<Rightarrow> ret v)"

definition runQuiet :: "sys \<Rightarrow> cmux_client \<Rightarrow> string \<Rightarrow> string list \<Rightarrow> (string, unit) prog" where
  "runQuiet sy c command args = bindW (mapErr (commandError command) (runCmux sy c False False args)) (\<lambda>_. ret ())"

definition required :: "string \<Rightarrow> string \<Rightarrow> (string, unit) prog" where
  "required v name = guardW (v \<noteq> []) (name @ '' is required'')"

subsection \<open>Reading answers\<close>

definition into_bool :: "(bool \<Rightarrow> 'r \<Rightarrow> 'r) \<Rightarrow> json \<Rightarrow> 'r \<Rightarrow> 'r option" where
  "into_bool upd v r = (case v of JBool b \<Rightarrow> Some (upd b r) | JNull \<Rightarrow> Some r | _ \<Rightarrow> None)"

text \<open>A payload struct with one slice field.\<close>

definition decode_rows :: "string \<Rightarrow> 'a field list \<Rightarrow> 'a \<Rightarrow> json \<Rightarrow> 'a list option" where
  "decode_rows name flds zero v = decode_struct [(name, into_slice (\<lambda>xs _. xs) (\<lambda>v. decode_struct flds v zero))] v []"

definition zero_cw :: cmux_workspace where
  "zero_cw = \<lparr>cwID = [], cwRef = [], cwIndex = 0, cwTitle = [], cwSelected = False\<rparr>"

definition cwFields :: "cmux_workspace field list" where
  "cwFields = [(''id'', into_string (\<lambda>s. cwID_update (\<lambda>_. s))), (''ref'', into_string (\<lambda>s. cwRef_update (\<lambda>_. s))),
     (''index'', into_int (\<lambda>n. cwIndex_update (\<lambda>_. n))), (''title'', into_string (\<lambda>s. cwTitle_update (\<lambda>_. s))),
     (''selected'', into_bool (\<lambda>b. cwSelected_update (\<lambda>_. b)))]"

definition trimCW :: "cmux_workspace \<Rightarrow> cmux_workspace" where
  "trimCW r = r\<lparr>cwID := TrimSpace (cwID r), cwRef := TrimSpace (cwRef r), cwTitle := TrimSpace (cwTitle r)\<rparr>"

text \<open>A row of the tree has two more flags, which count as selected.\<close>

record tree_row = cmux_workspace +
  trCurrent :: bool
  trActive :: bool

definition treeFields :: "tree_row field list" where
  "treeFields = [(''id'', into_string (\<lambda>s. cwID_update (\<lambda>_. s))), (''ref'', into_string (\<lambda>s. cwRef_update (\<lambda>_. s))),
     (''index'', into_int (\<lambda>n. cwIndex_update (\<lambda>_. n))), (''title'', into_string (\<lambda>s. cwTitle_update (\<lambda>_. s))),
     (''selected'', into_bool (\<lambda>b. cwSelected_update (\<lambda>_. b))), (''current'', into_bool (\<lambda>b. trCurrent_update (\<lambda>_. b))),
     (''active'', into_bool (\<lambda>b. trActive_update (\<lambda>_. b)))]"

definition zero_tree_row :: tree_row where
  "zero_tree_row = \<lparr>cwID = [], cwRef = [], cwIndex = 0, cwTitle = [], cwSelected = False, trCurrent = False, trActive = False\<rparr>"

definition decodeTree :: "json \<Rightarrow> tree_row list option" where
  "decodeTree v = map_option concat (decode_struct
     [(''windows'', into_slice (\<lambda>xs _. xs) (\<lambda>win. decode_rows ''workspaces'' treeFields zero_tree_row win))] v [])"

definition treeWorkspace :: "tree_row \<Rightarrow> cmux_workspace" where
  "treeWorkspace r = \<lparr>cwID = TrimSpace (cwID r), cwRef = TrimSpace (cwRef r), cwIndex = cwIndex r,
     cwTitle = TrimSpace (cwTitle r), cwSelected = (cwSelected r \<or> trCurrent r \<or> trActive r)\<rparr>"

text \<open>The loop with the \<open>seen\<close> set: rows without id and repeated ids are dropped.\<close>

fun dedupRows :: "string list \<Rightarrow> tree_row list \<Rightarrow> cmux_workspace list" where
  "dedupRows seen [] = []"
| "dedupRows seen (r # rs) =
     (let wid = TrimSpace (cwID r)
      in if wid = [] \<or> wid \<in> set seen then dedupRows seen rs else treeWorkspace r # dedupRows (wid # seen) rs)"

subsection \<open>Methods\<close>

text \<open>The set of methods: the keys of a map with the names trimmed.\<close>

definition Capabilities :: "sys \<Rightarrow> cmux_client \<Rightarrow> (string, string set) prog" where
  "Capabilities sy c =
     bindW (runJSON sy c (\<lambda>v. decode_struct [(''methods'', into_slice (\<lambda>xs _. xs) (\<lambda>v. into_string (\<lambda>s _. s) v []))] v [])
       [''capabilities'']) (\<lambda>ms. ret (set (map TrimSpace ms)))"

text \<open>\<open>json.Unmarshal\<close> into \<open>map[string]any\<close>: an object, or \<open>null\<close> for the nil map.\<close>

definition decodeObject :: "json \<Rightarrow> (string \<times> json) list option" where
  "decodeObject v = into_map (\<lambda>m _. m) (\<lambda>r. r) Some v []"

definition Identify :: "sys \<Rightarrow> cmux_client \<Rightarrow> string \<Rightarrow> string \<Rightarrow> (string, (string \<times> json) list) prog" where
  "Identify sy c workspace surface =
     runJSON sy c decodeObject ([''identify'']
       @ (if TrimSpace workspace \<noteq> [] then [''--workspace'', TrimSpace workspace] else [])
       @ (if TrimSpace surface \<noteq> [] then [''--surface'', TrimSpace surface] else []))"

definition listWorkspacesFromTree :: "sys \<Rightarrow> cmux_client \<Rightarrow> (string, cmux_workspace list) prog" where
  "listWorkspacesFromTree sy c =
     bindW (runJSON sy c decodeTree [''tree'', ''--all'']) (\<lambda>rows. ret (dedupRows [] rows))"

definition ListWorkspaces :: "sys \<Rightarrow> cmux_client \<Rightarrow> (string, cmux_workspace list) prog" where
  "ListWorkspaces sy c =
     bindW (runJSON sy c (decode_rows ''workspaces'' cwFields zero_cw) [''list-workspaces'']) (\<lambda>rows.
       let out = map trimCW rows
       in if out \<noteq> [] then ret out
          else bindW (attempt (listWorkspacesFromTree sy c)) (\<lambda>r.
            ret (case r of Inr fallback \<Rightarrow> if fallback \<noteq> [] then fallback else out | Inl _ \<Rightarrow> out)))"

definition CreateWorkspaceWithCommand :: "sys \<Rightarrow> cmux_client \<Rightarrow> string \<Rightarrow> (string, string) prog" where
  "CreateWorkspaceWithCommand sy c command0 =
     (let command = TrimSpace command0
      in bindW (mapErr (commandError ''new-workspace'') (runCmux sy c False False
                  ([''new-workspace''] @ (if command \<noteq> [] then [''--command'', command] else [])))) (\<lambda>out.
           let raw = TrimSpace out; wid = TrimSpace (TrimPrefix raw ''OK '')
           in if \<not> prefix ''OK '' raw then throw ''cmux new-workspace: unexpected response''
              else if wid = [] then throw ''cmux new-workspace: empty workspace id''
              else ret wid))"

definition CreateWorkspace :: "sys \<Rightarrow> cmux_client \<Rightarrow> (string, string) prog" where
  "CreateWorkspace sy c = CreateWorkspaceWithCommand sy c []"

definition RenameWorkspace :: "sys \<Rightarrow> cmux_client \<Rightarrow> string \<Rightarrow> string \<Rightarrow> (string, unit) prog" where
  "RenameWorkspace sy c workspace0 title0 =
     (let workspace = TrimSpace workspace0; title = TrimSpace title0
      in bindW (required workspace ''workspace'') (\<lambda>_. bindW (required title ''title'') (\<lambda>_.
           runQuiet sy c ''rename-workspace'' [''rename-workspace'', ''--workspace'', workspace, title])))"

definition SelectWorkspace :: "sys \<Rightarrow> cmux_client \<Rightarrow> string \<Rightarrow> (string, unit) prog" where
  "SelectWorkspace sy c workspace0 =
     (let workspace = TrimSpace workspace0
      in bindW (required workspace ''workspace'') (\<lambda>_.
           runQuiet sy c ''select-workspace'' [''select-workspace'', ''--workspace'', workspace]))"

definition CloseWorkspace :: "sys \<Rightarrow> cmux_client \<Rightarrow> string \<Rightarrow> (string, unit) prog" where
  "CloseWorkspace sy c workspace0 =
     (let workspace = TrimSpace workspace0
      in bindW (required workspace ''workspace'') (\<lambda>_.
           runQuiet sy c ''close-workspace'' [''close-workspace'', ''--workspace'', workspace]))"

definition SetStatus :: "sys \<Rightarrow> cmux_client \<Rightarrow> string \<Rightarrow> string \<Rightarrow> string \<Rightarrow> string \<Rightarrow> string \<Rightarrow> (string, unit) prog" where
  "SetStatus sy c workspace0 label0 text0 icon0 color0 =
     (let workspace = TrimSpace workspace0; label = TrimSpace label0; text = TrimSpace text0;
          icon = TrimSpace icon0; color = TrimSpace color0
      in bindW (required workspace ''workspace'') (\<lambda>_. bindW (required label ''label'') (\<lambda>_. bindW (required text ''text'') (\<lambda>_.
           runQuiet sy c ''set-status'' ([''set-status'', label, text, ''--workspace'', workspace]
             @ (if icon \<noteq> [] then [''--icon'', icon] else []) @ (if color \<noteq> [] then [''--color'', color] else []))))))"

definition SendText :: "sys \<Rightarrow> cmux_client \<Rightarrow> string \<Rightarrow> string \<Rightarrow> string \<Rightarrow> (string, unit) prog" where
  "SendText sy c workspace0 surface0 text =
     (let workspace = TrimSpace workspace0; surface = TrimSpace surface0
      in bindW (required workspace ''workspace'') (\<lambda>_. bindW (required text ''text'') (\<lambda>_.
           runQuiet sy c ''send'' ([''send'', ''--workspace'', workspace]
             @ (if surface \<noteq> [] then [''--surface'', surface] else []) @ [text]))))"

definition cpFields :: "cmux_pane field list" where
  "cpFields = [(''id'', into_string (\<lambda>s. cpID_update (\<lambda>_. s))), (''ref'', into_string (\<lambda>s. cpRef_update (\<lambda>_. s))),
     (''index'', into_int (\<lambda>n. cpIndex_update (\<lambda>_. n))), (''focused'', into_bool (\<lambda>b. cpFocused_update (\<lambda>_. b)))]"

definition ListPanes :: "sys \<Rightarrow> cmux_client \<Rightarrow> string \<Rightarrow> (string, cmux_pane list) prog" where
  "ListPanes sy c workspace0 =
     (let workspace = TrimSpace workspace0
      in bindW (required workspace ''workspace'') (\<lambda>_.
         bindW (runJSON sy c (decode_rows ''panes'' cpFields \<lparr>cpID = [], cpRef = [], cpIndex = 0, cpFocused = False\<rparr>)
                  [''list-panes'', ''--workspace'', workspace]) (\<lambda>rows.
           ret (map (\<lambda>r. r\<lparr>cpID := TrimSpace (cpID r), cpRef := TrimSpace (cpRef r)\<rparr>) rows))))"

definition csFields :: "cmux_surface field list" where
  "csFields = [(''id'', into_string (\<lambda>s. csID_update (\<lambda>_. s))), (''ref'', into_string (\<lambda>s. csRef_update (\<lambda>_. s))),
     (''index'', into_int (\<lambda>n. csIndex_update (\<lambda>_. n))), (''title'', into_string (\<lambda>s. csTitle_update (\<lambda>_. s))),
     (''type'', into_string (\<lambda>s. csType_update (\<lambda>_. s))), (''selected'', into_bool (\<lambda>b. csSelected_update (\<lambda>_. b))),
     (''pane_id'', into_string (\<lambda>s. csPaneID_update (\<lambda>_. s)))]"

definition ListPaneSurfaces :: "sys \<Rightarrow> cmux_client \<Rightarrow> string \<Rightarrow> string \<Rightarrow> (string, cmux_surface list) prog" where
  "ListPaneSurfaces sy c workspace0 pane0 =
     (let workspace = TrimSpace workspace0; pane = TrimSpace pane0
      in bindW (required workspace ''workspace'') (\<lambda>_. bindW (required pane ''pane'') (\<lambda>_.
         bindW (runJSON sy c (decode_rows ''surfaces'' csFields \<lparr>csID = [], csRef = [], csIndex = 0, csTitle = [],
                    csType = [], csSelected = False, csPaneID = []\<rparr>)
                  [''list-pane-surfaces'', ''--workspace'', workspace, ''--pane'', pane]) (\<lambda>rows.
           ret (map (\<lambda>r. r\<lparr>csID := TrimSpace (csID r), csRef := TrimSpace (csRef r), csTitle := TrimSpace (csTitle r),
              csType := TrimSpace (csType r), csPaneID := TrimSpace (csPaneID r)\<rparr>) rows)))))"

definition FocusPane :: "sys \<Rightarrow> cmux_client \<Rightarrow> string \<Rightarrow> string \<Rightarrow> (string, unit) prog" where
  "FocusPane sy c pane0 workspace0 =
     (let pane = TrimSpace pane0; workspace = TrimSpace workspace0
      in bindW (required pane ''pane'') (\<lambda>_.
           runQuiet sy c ''focus-pane'' ([''focus-pane'', ''--pane'', pane]
             @ (if workspace \<noteq> [] then [''--workspace'', workspace] else []))))"

text \<open>The workspace argument of the two browser commands is not used.\<close>

definition BrowserStateSave :: "sys \<Rightarrow> cmux_client \<Rightarrow> string \<Rightarrow> string \<Rightarrow> string \<Rightarrow> (string, unit) prog" where
  "BrowserStateSave sy c workspace surface0 path0 =
     (let surface = TrimSpace surface0; path = TrimSpace path0
      in bindW (required surface ''surface'') (\<lambda>_. bindW (required path ''path'') (\<lambda>_.
           runQuiet sy c ''browser state save'' [''browser'', ''--surface'', surface, ''state'', ''save'', path])))"

definition BrowserStateLoad :: "sys \<Rightarrow> cmux_client \<Rightarrow> string \<Rightarrow> string \<Rightarrow> string \<Rightarrow> (string, unit) prog" where
  "BrowserStateLoad sy c workspace surface0 path0 =
     (let surface = TrimSpace surface0; path = TrimSpace path0
      in bindW (required surface ''surface'') (\<lambda>_. bindW (required path ''path'') (\<lambda>_.
           runQuiet sy c ''browser state load'' [''browser'', ''--surface'', surface, ''state'', ''load'', path])))"

definition ReadScreen :: "sys \<Rightarrow> cmux_client \<Rightarrow> string \<Rightarrow> string \<Rightarrow> int \<Rightarrow> bool \<Rightarrow> (string, string) prog" where
  "ReadScreen sy c workspace0 surface0 lines0 scrollback =
     (let workspace = TrimSpace workspace0; surface = TrimSpace surface0; ls = (if lines0 < 1 then 120 else lines0)
      in bindW (required workspace ''workspace'') (\<lambda>_. bindW (required surface ''surface'') (\<lambda>_.
         bindW (runJSON sy c decodeObject ([''read-screen'', ''--workspace'', workspace, ''--surface'', surface, ''--lines'', Itoa ls]
                  @ (if scrollback then [''--scrollback''] else []))) (\<lambda>payload.
           ret (case map_of payload ''text'' of Some (JStr t) \<Rightarrow> t | _ \<Rightarrow> [])))))"

subsection \<open>Properties\<close>

lemma runCmux_calls: "cmux_calls (snd (runCmux sy c j b args w)) = cmux_calls w @ [cmuxArgs c j b args]"
  by (auto simp: runCmux_def exec_cmux_def split: prod.splits cmux_result.splits)

lemma runJSON_calls: "cmux_calls (snd (runJSON sy c decode args w)) = cmux_calls (snd (runJSONRaw sy c args w))"
  by (auto simp: runJSON_def bindW_def mapErr_def throw_def ret_def split: prod.splits sum.splits option.splits)

text \<open>
  a command with a JSON answer runs cmux once, or twice when the first run failed because that cmux does not
  know \<open>--id-format\<close>; the second run is the first without that option, and any other failure is reported
  without a second run.
\<close>

theorem json_command_retry:
  "cmux_calls (snd (runJSON sy c decode args w)) = cmux_calls w @ cmuxArgs c True True args
     # (case fst (runCmux sy c True True args w) of
          Inl (stderr, err) \<Rightarrow> if isUnsupportedIDFormatError stderr err then [cmuxArgs c True False args] else []
        | Inr _ \<Rightarrow> [])"
proof -
  obtain r u where r: "runCmux sy c True True args w = (r, u)" by fastforce
  then have "cmux_calls u = cmux_calls w @ [cmuxArgs c True True args]" using runCmux_calls by (metis snd_conv)
  then show ?thesis
    unfolding runJSON_calls using r
    by (auto simp: runJSONRaw_def runCmux_calls split: sum.splits)
qed

definition rowID :: "tree_row \<Rightarrow> string" where "rowID r = TrimSpace (cwID r)"

lemma dedupRows_ids:
  "distinct (map cwID (dedupRows seen rows)) \<and> set (map cwID (dedupRows seen rows)) = rowID ` set rows - insert [] (set seen)"
  by (induction seen rows rule: dedupRows.induct) (auto simp: Let_def treeWorkspace_def rowID_def)

lemma dedupRows_first:
  "ws \<in> set (dedupRows seen rows) \<Longrightarrow> \<exists>r. ws = treeWorkspace r \<and> find (\<lambda>r. rowID r = cwID ws) rows = Some r"
proof (induction seen rows rule: dedupRows.induct)
  case (2 seen r rs)
  have ids: "cwID ws \<noteq> []" "cwID ws \<notin> set seen" if "ws \<in> set (dedupRows seen rs)" for ws seen
    using dedupRows_ids [of seen rs] that by force+
  show ?case
  proof (cases "rowID r = [] \<or> rowID r \<in> set seen")
    case True
    then have m: "ws \<in> set (dedupRows seen rs)" using 2(3) by (auto simp: rowID_def)
    then have "rowID r \<noteq> cwID ws" using ids [OF m] True by auto
    then show ?thesis using 2(1) m True by (auto simp: rowID_def)
  next
    case False
    then consider "ws = treeWorkspace r" | "ws \<in> set (dedupRows (rowID r # seen) rs)" using 2(3) by (auto simp: rowID_def Let_def)
    then show ?thesis
    proof cases
      case 1
      then show ?thesis by (auto simp: treeWorkspace_def rowID_def)
    next
      case m: 2
      then have "rowID r \<noteq> cwID ws" using ids(2) by fastforce
      then show ?thesis using 2(2) m False by (auto simp: rowID_def)
    qed
  qed
qed simp

text \<open>
  the workspaces read from the tree have distinct, non-empty identifiers, every identifier of a row occurs,
  and a workspace shows the first row with its identifier.
\<close>

theorem tree_workspaces:
  "distinct (map cwID (dedupRows [] rows)) \<and> set (map cwID (dedupRows [] rows)) = rowID ` set rows - {[]}
    \<and> list_all (\<lambda>ws. map_option treeWorkspace (find (\<lambda>r. rowID r = cwID ws) rows) = Some ws) (dedupRows [] rows)"
  using dedupRows_ids [of "[]" rows] dedupRows_first [of _ "[]" rows] by (fastforce simp: list_all_iff)

end
