(* ===== verification/Ws_Flow.thy ===== *)
theory Ws_Flow
  imports Work_State Cmux_Map Cmux_Ctl
begin

text \<open>
  What the workspace commands share: the select-risk-apply flow of \<open>internal/cli/ws_flow.go\<close>, the questions
  to the user, the working directory (\<open>ws_launcher.go\<close>), the action line for the shell
  (\<open>shell_action.go\<close>, \<open>internal/app/shellaction\<close>) and the JSON reply. A handler returns its exit code and,
  in JSON mode, the reply: the action, whether it is ok, the error code, and for a dry run whether the
  operation is executable. What is printed for people is not represented.
\<close>

record cli_reply =
  rAction :: string
  rOK :: bool
  rCode :: string
  rExecutable :: "bool option"

type_synonym handler = "world \<Rightarrow> (exit_code \<times> cli_reply option) \<times> world"

definition failReply :: "string \<Rightarrow> string \<Rightarrow> cli_reply" where
  "failReply action code = \<lparr>rAction = action, rOK = False, rCode = code, rExecutable = None\<rparr>"

definition okReply :: "string \<Rightarrow> cli_reply" where
  "okReply action = \<lparr>rAction = action, rOK = True, rCode = [], rExecutable = None\<rparr>"

definition dryRunReply :: "string \<Rightarrow> bool \<Rightarrow> cli_reply" where
  "dryRunReply action b = \<lparr>rAction = action, rOK = b, rCode = [], rExecutable = Some b\<rparr>"

subsection \<open>Flow\<close>

datatype 'e flow_error = FlowCanceled | FlowErr 'e | ApplyErr string 'e

text \<open>The risk stage says whether there is a risk to confirm; a nil callback is \<open>None\<close>.\<close>

definition flowRisk :: "(string list \<Rightarrow> ('e, bool) prog) option \<Rightarrow> ('e, bool) prog option \<Rightarrow> string list \<Rightarrow> ('e flow_error, unit) prog" where
  "flowRisk collect confirm ids =
     (case collect of
        None \<Rightarrow> ret ()
      | Some f \<Rightarrow>
          bindW (mapErr FlowErr (f ids)) (\<lambda>hasRisk.
            if \<not> hasRisk then ret ()
            else case confirm of
              None \<Rightarrow> ret ()
            | Some c \<Rightarrow> bindW (mapErr FlowErr c) (\<lambda>ok. if ok then ret () else throw FlowCanceled)))"

definition runWorkspaceSelectRiskResultFlow ::
    "('e, string list) prog \<Rightarrow> (string list \<Rightarrow> ('e, bool) prog) option \<Rightarrow> ('e, bool) prog option
      \<Rightarrow> (string \<Rightarrow> ('e, unit) prog) \<Rightarrow> ('e flow_error, string list) prog" where
  "runWorkspaceSelectRiskResultFlow selectItems collect confirm applyOne =
     bindW (mapErr FlowErr selectItems) (\<lambda>ids.
     bindW (flowRisk collect confirm ids) (\<lambda>_.
     bindW (forW (\<lambda>i. mapErr (ApplyErr i) (applyOne i)) ids) (\<lambda>_. ret ids)))"

text \<open>The line the user types, or the error of reading it.\<close>

type_synonym answer = "unit + string"

definition confirmRiskProceed :: "answer \<Rightarrow> unit + bool" where
  "confirmRiskProceed a = bindR a (\<lambda>line. Inr (fold_name (TrimSpace line) = fold_name ''yes''))"

definition confirmContinue :: "answer \<Rightarrow> unit + bool" where
  "confirmContinue a = bindR a (\<lambda>line. let s = ToLower (TrimSpace line) in Inr (s = ''y'' \<or> s = ''yes''))"

subsection \<open>Working directory and shell\<close>

definition Chdir :: "string \<Rightarrow> (unit, unit) prog" where
  "Chdir p w =
     (if fails w (SChdir (comps p)) \<or> files w (comps p) \<noteq> Some DirN then (Inl (), w)
      else (Inr (), w\<lparr>getwd := Some p\<rparr>))"

definition shellSingleQuote :: "string \<Rightarrow> string" where
  "shellSingleQuote s =
     (if s = [] then [CHR 0x27, CHR 0x27]
      else [CHR 0x27] @ concat (map (\<lambda>c. if c = CHR 0x27 then [CHR 0x27, CHR 0x22, CHR 0x27, CHR 0x22, CHR 0x27] else [c]) s) @ [CHR 0x27])"

definition WriteActionLine :: "sys \<Rightarrow> string \<Rightarrow> (unit, unit) prog" where
  "WriteActionLine sy line =
     (let actionPath = TrimSpace (action_file sy)
      in if actionPath = [] then ret () else WriteFile actionPath line)"

definition emitShellActionCD :: "sys \<Rightarrow> string \<Rightarrow> (unit, unit) prog" where
  "emitShellActionCD sy path = WriteActionLine sy (''cd '' @ shellSingleQuote path @ [CHR 0x0A])"

text \<open>The workspace the working directory is in, with its status.\<close>

definition tryBase :: "string \<Rightarrow> string \<Rightarrow> string \<Rightarrow> (string \<times> string) option" where
  "tryBase cleanCWD base status =
     (case Rel base cleanCWD of
        None \<Rightarrow> None
      | Some r \<Rightarrow>
          (let rel = Clean r; first = hd (split_on slash rel)
           in if rel = ''.'' \<or> outside rel then None
              else if validateWorkspaceID first then Some (first, status) else None))"

definition detectWorkspaceFromCWD :: "string \<Rightarrow> string \<Rightarrow> (string \<times> string) option" where
  "detectWorkspaceFromCWD root cwd =
     (if root = [] \<or> cwd = [] then None
      else case tryBase (Clean cwd) (pathJoin [Clean root, ''workspaces'']) ''active'' of
        Some x \<Rightarrow> Some x
      | None \<Rightarrow> tryBase (Clean cwd) (pathJoin [Clean root, ''archive'']) ''archived'')"

end
