(* ===== verification/Ws_Close.thy ===== *)
theory Ws_Close
  imports Ws_Flow Ws_Commit
begin

text \<open>
  \<open>internal/cli/ws_close.go\<close>: closing a workspace. Its worktrees are removed, its metadata is marked as
  archived, and its directory is moved from \<open>workspaces\<close> to \<open>archive\<close>, with a commit before and after.
\<close>

subsection \<open>Worktrees\<close>

datatype worktree_error = WtStat | WtGitFile read_error | WtFormat | WtGit string | WtRemove | WtReadDir

definition resolveBarePathFromSpec :: "string \<Rightarrow> Spec \<Rightarrow> string" where
  "resolveBarePathFromSpec repoPoolPath spec = pathJoin [repoPoolPath, Host spec, Owner spec, Repo spec @ ''.git'']"

definition resolveBarePathFromWorktreeGitdir :: "string \<Rightarrow> world \<Rightarrow> worktree_error + string" where
  "resolveBarePathFromWorktreeGitdir worktreePath w =
     (case ReadFile w (pathJoin [worktreePath, ''.git'']) of
        Inl e \<Rightarrow> Inl (WtGitFile e)
      | Inr b \<Rightarrow>
          (let line = TrimSpace b
           in if \<not> prefix ''gitdir:'' (ToLower line) then Inl WtFormat
              else let dir0 = TrimSpace (drop (length ''gitdir:'') line);
                       dir = (if IsAbs dir0 then dir0 else Clean (pathJoin [worktreePath, dir0]))
                   in Inr (Dir (Dir dir))))"

definition removeOneWorktree :: "sys \<Rightarrow> string \<Rightarrow> (worktree_error, unit) prog" where
  "removeOneWorktree sy worktreePath w =
     (case Stat w worktreePath of
        Inl NotExist \<Rightarrow> (Inr (), w)
      | Inl ReadFailed \<Rightarrow> (Inl WtStat, w)
      | Inr _ \<Rightarrow>
          (case resolveBarePathFromWorktreeGitdir worktreePath w of
             Inl e \<Rightarrow> (Inl e, w)
           | Inr barePath \<Rightarrow>
               (case Stat w barePath of
                  Inr _ \<Rightarrow> bindW (mapErr WtGit (RunBare sy barePath [''worktree'', ''remove'', ''--force'', worktreePath])) (\<lambda>_. ret ()) w
                | Inl NotExist \<Rightarrow> mapErr (\<lambda>_. WtRemove) (RemoveAll worktreePath) w
                | Inl ReadFailed \<Rightarrow> (Inl WtStat, w))))"

definition removeReposDir :: "sys \<Rightarrow> string \<Rightarrow> (worktree_error, unit) prog" where
  "removeReposDir sy reposDir w =
     (case ReadDir sy w reposDir of
        Inl NotExist \<Rightarrow> (Inr (), w)
      | Inl ReadFailed \<Rightarrow> (Inl WtReadDir, w)
      | Inr entries \<Rightarrow> if entries = [] then ignore (RemoveP sy reposDir) w else (Inr (), w))"

definition removeWorkspaceWorktrees :: "sys \<Rightarrow> string \<Rightarrow> string \<Rightarrow> WorkspaceRepo list \<Rightarrow> (worktree_error, unit) prog" where
  "removeWorkspaceWorktrees sy root workspaceID repos =
     (let reposDir = pathJoin [root, ''workspaces'', workspaceID, ''repos'']
      in bindW (forW (\<lambda>r. removeOneWorktree sy (pathJoin [reposDir, wr_alias r])) repos) (\<lambda>_. removeReposDir sy reposDir))"

subsection \<open>Metadata\<close>

datatype close_meta_error = CloseLoad meta_error | NoRemoteURL string | BadRemoteURL spec_error | NoBaseRef string

definition detectBranchForClose :: "sys \<Rightarrow> string \<Rightarrow> string \<Rightarrow> (close_meta_error, string) prog" where
  "detectBranchForClose sy worktreePath fallback0 w =
     (case Stat w worktreePath of
        Inr DirN \<Rightarrow>
          bindW (attempt (Run sy worktreePath [''branch'', ''--show-current''])) (\<lambda>r.
            ret (case r of Inr out \<Rightarrow> if TrimSpace out \<noteq> [] then TrimSpace out else TrimSpace fallback0
                         | Inl _ \<Rightarrow> TrimSpace fallback0)) w
      | _ \<Rightarrow> (Inr (TrimSpace fallback0), w))"

definition lookupAlias :: "(string \<times> meta_restore) list \<Rightarrow> string \<Rightarrow> (meta_restore \<Rightarrow> string) \<Rightarrow> string" where
  "lookupAlias existing a field = (case map_of existing a of Some prev \<Rightarrow> TrimSpace (field prev) | None \<Rightarrow> [])"

definition closeRestoreEntry ::
    "sys \<Rightarrow> string \<Rightarrow> string \<Rightarrow> (string \<times> meta_restore) list \<Rightarrow> WorkspaceRepo \<Rightarrow> (close_meta_error, meta_restore) prog" where
  "closeRestoreEntry sy root workspaceID existingByAlias r =
     (let worktreePath = pathJoin [root, ''workspaces'', workspaceID, ''repos'', wr_alias r]
      in bindW (attempt (Run sy worktreePath [''remote'', ''get-url'', ''origin''])) (\<lambda>got.
           let url0 = (case got of Inr out \<Rightarrow> TrimSpace out | Inl _ \<Rightarrow> []);
               remoteURL = (if url0 = [] then lookupAlias existingByAlias (wr_alias r) RemoteURL else url0)
           in bindW (guardW (remoteURL \<noteq> []) (NoRemoteURL (wr_alias r))) (\<lambda>_.
              bindW (look (\<lambda>_. case Normalize remoteURL of Inl e \<Rightarrow> Inl (BadRemoteURL e) | Inr s \<Rightarrow> Inr s)) (\<lambda>spec.
              bindW (detectBranchForClose sy worktreePath (wr_branch r)) (\<lambda>branch.
                let base0 = TrimSpace (wr_base r);
                    base1 = (if base0 = [] then lookupAlias existingByAlias (wr_alias r) BaseRef else base0)
                in bindW (if base1 = [] then mapErr (\<lambda>_. NoBaseRef (RepoKey spec)) (detectOriginHeadBaseRef sy worktreePath) else ret base1) (\<lambda>baseRef.
                   bindW (guardW (baseRef \<noteq> []) (NoBaseRef (RepoKey spec))) (\<lambda>_.
                     ret \<lparr>RepoUID = wr_uid r, restoreKey = RepoKey spec, RemoteURL = remoteURL, Alias = wr_alias r,
                          restoreBranch = branch, BaseRef = baseRef\<rparr>)))))))"

definition buildWorkspaceMetaForClose ::
    "sys \<Rightarrow> string \<Rightarrow> string \<Rightarrow> WorkspaceRepo list \<Rightarrow> (close_meta_error, meta_file \<times> meta_file) prog" where
  "buildWorkspaceMetaForClose sy root workspaceID repos =
     (let wsPath = pathJoin [root, ''workspaces'', workspaceID]
      in bindW (mapErr CloseLoad (look (loadWorkspaceMetaFile wsPath))) (\<lambda>original.
           let existingByAlias = fold (\<lambda>r m. AList.update (Alias r) r m) (ReposRestore original) []
           in bindW (mapW (closeRestoreEntry sy root workspaceID existingByAlias) repos) (\<lambda>entries w.
                (Inr (original, original\<lparr>ReposRestore := sort_key Alias entries,
                   Workspace := (Workspace original)\<lparr>wsStatus := ''archived'', UpdatedAt := clock w\<rparr>\<rparr>), w))))"

subsection \<open>cmux workspaces of the workspace\<close>

definition isCMUXWorkspaceNotFoundError :: "string \<Rightarrow> bool" where
  "isCMUXWorkspaceNotFoundError e =
     (let msg = ToLower (TrimSpace e)
      in msg \<noteq> [] \<and> (Contains msg ''not found'' \<or> Contains msg ''not_found'' \<or> Contains msg ''unknown workspace''))"

text \<open>The loop over the entries: is there an error that is not a missing workspace?\<close>

fun closeEntries :: "sys \<Rightarrow> cmux_entry list \<Rightarrow> bool \<Rightarrow> ('e, bool) prog" where
  "closeEntries sy [] bad = ret bad"
| "closeEntries sy (e # es) bad =
     (let wid = TrimSpace (CMUXWorkspaceID e)
      in if wid = [] then closeEntries sy es bad
         else bindW (attempt (CloseWorkspace sy NewClient wid)) (\<lambda>r.
           case r of
             Inr _ \<Rightarrow> closeEntries sy es bad
           | Inl msg \<Rightarrow> closeEntries sy es (bad \<or> \<not> isCMUXWorkspaceNotFoundError msg)))"

definition closeMappedCMUXWorkspacesBestEffort :: "sys \<Rightarrow> string \<Rightarrow> string \<Rightarrow> ('e, unit) prog" where
  "closeMappedCMUXWorkspacesBestEffort sy root workspaceID w =
     (case LoadMapping root w of
        Inl _ \<Rightarrow> (Inr (), w)
      | Inr mapping \<Rightarrow>
          (case map_of (mapWorkspaces mapping) workspaceID of
             None \<Rightarrow> (Inr (), w)
           | Some ws \<Rightarrow>
               if Entries ws = [] then (Inr (), w)
               else bindW (closeEntries sy (Entries ws) False) (\<lambda>bad.
                 if bad then ret ()
                 else ignore (SaveMapping root (mapping\<lparr>mapWorkspaces := AList.delete workspaceID (mapWorkspaces mapping)\<rparr>))) w))"

subsection \<open>Closing\<close>

datatype close_error =
    CNotActive | CNotFound | CStatWs | CNotDir | CArchiveExists | CStatArchive | CListRepos state_error
  | CMeta close_meta_error | CListFiles | CPre commit_error | CWorktrees worktree_error | CWriteMeta meta_error
  | CArchiveDir | CRename | CPost commit_error

record commit_trace =
  CommitEnabled :: bool
  PreCommitSHA :: string
  PostCommitSHA :: string

definition closeGuards :: "string \<Rightarrow> string \<Rightarrow> world \<Rightarrow> close_error + unit" where
  "closeGuards root workspaceID w =
     (let wsPath = pathJoin [root, ''workspaces'', workspaceID]; archivePath = pathJoin [root, ''archive'', workspaceID]
      in case Stat w wsPath of
           Inl NotExist \<Rightarrow> (if Stat w archivePath = Inr DirN then Inl CNotActive else Inl CNotFound)
         | Inl ReadFailed \<Rightarrow> Inl CStatWs
         | Inr (FileN _) \<Rightarrow> Inl CNotDir
         | Inr DirN \<Rightarrow>
             (case Stat w archivePath of
                Inr _ \<Rightarrow> Inl CArchiveExists
              | Inl ReadFailed \<Rightarrow> Inl CStatArchive
              | Inl NotExist \<Rightarrow> Inr ()))"

text \<open>From the removal of the worktrees to the rename; an error puts the original metadata back.\<close>

definition archiveWorkspace ::
    "sys \<Rightarrow> string \<Rightarrow> string \<Rightarrow> WorkspaceRepo list \<Rightarrow> meta_file \<Rightarrow> meta_file \<Rightarrow> (close_error, unit) prog" where
  "archiveWorkspace sy root workspaceID repos originalMeta updatedMeta =
     (let wsPath = pathJoin [root, ''workspaces'', workspaceID]; archivePath = pathJoin [root, ''archive'', workspaceID];
          restore = ignore (writeWorkspaceMetaFile wsPath originalMeta)
      in bindW (onErr (removeWorkspaceWorktrees sy root workspaceID repos) (\<lambda>_. restore) CWorktrees) (\<lambda>_.
         bindW (onErr (writeWorkspaceMetaFile wsPath updatedMeta) (\<lambda>_. restore) CWriteMeta) (\<lambda>_.
         bindW (onErr (MkdirAllP (pathJoin [root, ''archive''])) (\<lambda>_. restore) (\<lambda>_. CArchiveDir)) (\<lambda>_.
           onErr (RenameTree wsPath archivePath) (\<lambda>_. restore) (\<lambda>_. CRename)))))"

text \<open>What is read and committed before anything is moved.\<close>

definition closePrepare ::
    "sys \<Rightarrow> string \<Rightarrow> string \<Rightarrow> bool \<Rightarrow> (close_error, WorkspaceRepo list \<times> (meta_file \<times> meta_file) \<times> string list \<times> string) prog" where
  "closePrepare sy root workspaceID doCommit =
     bindW (look (closeGuards root workspaceID)) (\<lambda>_.
     bindW (mapErr CListRepos (listWorkspaceReposForClose sy root workspaceID)) (\<lambda>repos.
     bindW (mapErr CMeta (buildWorkspaceMetaForClose sy root workspaceID repos)) (\<lambda>metas.
     bindW (look (\<lambda>w. case listWorkspaceNonRepoFiles sy w (pathJoin [root, ''workspaces'', workspaceID]) of
                       Inl _ \<Rightarrow> Inl CListFiles | Inr fs \<Rightarrow> Inr fs)) (\<lambda>expectedFiles.
     bindW (if doCommit then mapErr CPre (commitClosePreSnapshot sy root workspaceID) else ret []) (\<lambda>preSHA.
       ret (repos, metas, expectedFiles, preSHA))))))"

definition closeFinish :: "sys \<Rightarrow> string \<Rightarrow> string \<Rightarrow> bool \<Rightarrow> string list \<Rightarrow> string \<Rightarrow> (close_error, commit_trace) prog" where
  "closeFinish sy root workspaceID doCommit expectedFiles preSHA =
     bindW (ignore (removeWorkspaceBaselineAndWorkState sy root workspaceID)) (\<lambda>_.
     bindW (if doCommit then mapErr CPost (commitArchiveChange sy root workspaceID expectedFiles) else ret []) (\<lambda>postSHA.
     bindW (closeMappedCMUXWorkspacesBestEffort sy root workspaceID) (\<lambda>_.
       ret \<lparr>CommitEnabled = doCommit, PreCommitSHA = preSHA, PostCommitSHA = postSHA\<rparr>)))"

definition closeWorkspace :: "sys \<Rightarrow> string \<Rightarrow> string \<Rightarrow> bool \<Rightarrow> (close_error, commit_trace) prog" where
  "closeWorkspace sy root workspaceID doCommit =
     bindW (closePrepare sy root workspaceID doCommit) (\<lambda>(repos, (originalMeta, updatedMeta), expectedFiles, preSHA).
     bindW (archiveWorkspace sy root workspaceID repos originalMeta updatedMeta) (\<lambda>_.
       closeFinish sy root workspaceID doCommit expectedFiles preSHA))"

subsection \<open>Risk\<close>

record closeRepoPlanDetail =
  planKey :: string
  planAlias :: string
  planBranch :: string
  planState :: RepoState
  planUpstream :: string
  planAhead :: int
  planBehind :: int
  planStaged :: nat
  planUnstaged :: nat
  planUntracked :: nat
  planFiles :: "string list"

record workspaceRiskDetail =
  detailID :: string
  detailRisk :: WorkspaceRisk
  perRepo :: "(string \<times> RepoState) list"
  repoPlans :: "closeRepoPlanDetail list"

definition closePlan :: "sys \<Rightarrow> string \<Rightarrow> string \<Rightarrow> WorkspaceRepo \<Rightarrow> ('e, closeRepoPlanDetail) prog" where
  "closePlan sy root workspaceID r =
     (let key0 = TrimSpace (wr_key r);
          d = \<lparr>planKey = (if key0 = [] then TrimSpace (wr_alias r) else key0), planAlias = TrimSpace (wr_alias r),
               planBranch = TrimSpace (wr_branch r), planState = Unknown, planUpstream = [], planAhead = 0, planBehind = 0,
               planStaged = 0, planUnstaged = 0, planUntracked = 0, planFiles = []\<rparr>
      in if wr_missing r then ret d
         else bindW (inspectSnapshotP sy (pathJoin [root, ''workspaces'', workspaceID, ''repos'', wr_alias r])) (\<lambda>s.
           ret (d\<lparr>planState := ClassifyRepoStatus (Status s), planUpstream := TrimSpace (Upstream (Status s)),
                  planAhead := AheadCount (Status s), planBehind := BehindCount (Status s),
                  planBranch := (if TrimSpace (Branch s) \<noteq> [] then TrimSpace (Branch s) else planBranch d),
                  planStaged := Staged s, planUnstaged := Unstaged s, planUntracked := Untracked s, planFiles := Files s\<rparr>)))"

definition collectCloseRepoPlanDetails :: "sys \<Rightarrow> string \<Rightarrow> string \<Rightarrow> WorkspaceRepo list \<Rightarrow> ('e, closeRepoPlanDetail list) prog" where
  "collectCloseRepoPlanDetails sy root workspaceID repos =
     bindW (mapW (closePlan sy root workspaceID) repos) (\<lambda>ds. ret (sort_key (\<lambda>d. (planKey d, planAlias d)) ds))"

definition buildWorkspaceRiskFromPlans :: "closeRepoPlanDetail list \<Rightarrow> WorkspaceRisk \<times> (string \<times> RepoState) list" where
  "buildWorkspaceRiskFromPlans plans = (Aggregate (map planState plans), map (\<lambda>p. (planAlias p, planState p)) plans)"

definition collectWorkspaceRiskDetails :: "sys \<Rightarrow> string \<Rightarrow> string list \<Rightarrow> (state_error, workspaceRiskDetail list) prog" where
  "collectWorkspaceRiskDetails sy root workspaceIDs =
     mapW (\<lambda>wid.
       bindW (listWorkspaceReposForClose sy root wid) (\<lambda>repos.
       bindW (collectCloseRepoPlanDetails sy root wid repos) (\<lambda>plans.
         case buildWorkspaceRiskFromPlans plans of (r, per) \<Rightarrow>
           ret \<lparr>detailID = wid, detailRisk = r, perRepo = per, repoPlans = plans\<rparr>))) workspaceIDs"

definition hasNonCleanRisk :: "workspaceRiskDetail list \<Rightarrow> bool" where
  "hasNonCleanRisk items = list_ex (\<lambda>it. detailRisk it \<noteq> Clean_risk) items"

definition workspaceRiskFromDetails :: "workspaceRiskDetail list \<Rightarrow> WorkspaceRisk" where
  "workspaceRiskFromDetails items = (case items of [] \<Rightarrow> Clean_risk | it # _ \<Rightarrow> detailRisk it)"

subsection \<open>The command\<close>

record close_flags =
  cfID :: string
  cfFormat :: string
  cfForce :: bool
  cfCommit :: bool
  cfDryRun :: bool
  cfMode :: string

definition closeDefaults :: close_flags where
  "closeDefaults = \<lparr>cfID = [], cfFormat = ''human'', cfForce = False, cfCommit = True, cfDryRun = False, cfMode = []\<rparr>"

fun parseCloseFlags :: "string list \<Rightarrow> close_flags \<Rightarrow> exit_code + close_flags \<times> string list" where
  "parseCloseFlags [] f = Inr (f, [])"
| "parseCloseFlags (a # as) f =
     (if \<not> prefix ''-'' a then Inr (f, a # as)
      else if a = ''-h'' \<or> a = ''--help'' then Inl ExitOK
      else if a = ''--force'' then parseCloseFlags as (f\<lparr>cfForce := True\<rparr>)
      else if a = ''--commit'' then
        (if cfMode f = ''no-commit'' then Inl ExitUsage
         else parseCloseFlags as (f\<lparr>cfCommit := True, cfMode := ''commit''\<rparr>))
      else if a = ''--no-commit'' then
        (if cfMode f = ''commit'' then Inl ExitUsage
         else parseCloseFlags as (f\<lparr>cfCommit := False, cfMode := ''no-commit''\<rparr>))
      else if a = ''--dry-run'' then parseCloseFlags as (f\<lparr>cfDryRun := True\<rparr>)
      else if a = ''--format'' then
        (case as of [] \<Rightarrow> Inl ExitUsage | v # bs \<Rightarrow> parseCloseFlags bs (f\<lparr>cfFormat := TrimSpace v\<rparr>))
      else if a = ''--id'' then
        (case as of [] \<Rightarrow> Inl ExitUsage | v # bs \<Rightarrow> parseCloseFlags bs (f\<lparr>cfID := TrimSpace v\<rparr>))
      else if prefix ''--id='' a then parseCloseFlags as (f\<lparr>cfID := TrimSpace (TrimPrefix a ''--id='')\<rparr>)
      else if prefix ''--format='' a then parseCloseFlags as (f\<lparr>cfFormat := TrimSpace (TrimPrefix a ''--format='')\<rparr>)
      else Inl ExitUsage)"

text \<open>
  The error code of a failed close. The program looks for two fixed texts in the message; the errors with
  these texts are \<open>CNotFound\<close> and \<open>CNotActive\<close>, and a message that quotes git is searched too.
\<close>

definition commitErrText :: "commit_error \<Rightarrow> string" where
  "commitErrText e = (case e of GitError t \<Rightarrow> t | UnexpectedStaged p \<Rightarrow> p | IgnoredFiles p \<Rightarrow> p)"

definition codeOfText :: "string \<Rightarrow> string" where
  "codeOfText msg = (if Contains msg ''workspace not found'' then ''workspace_not_found''
     else if Contains msg ''workspace is not active'' then ''conflict'' else ''internal_error'')"

definition closeErrorCode :: "close_error \<Rightarrow> string" where
  "closeErrorCode e = (case e of
       CNotFound \<Rightarrow> ''workspace_not_found'' | CNotActive \<Rightarrow> ''conflict''
     | CPre c \<Rightarrow> codeOfText (commitErrText c) | CPost c \<Rightarrow> codeOfText (commitErrText c)
     | CWorktrees (WtGit t) \<Rightarrow> codeOfText t | _ \<Rightarrow> ''internal_error'')"

definition runWSCloseJSON :: "sys \<Rightarrow> string \<Rightarrow> bool \<Rightarrow> string \<Rightarrow> string \<Rightarrow> bool \<Rightarrow> bool \<Rightarrow> handler" where
  "runWSCloseJSON sy workspaceID force wd root doCommit dryRun w0 =
     (let shift = isPathInside sy w0 (pathJoin [root, ''workspaces'', workspaceID]) wd
      in case (if shift then Chdir root w0 else (Inr (), w0)) of
           (Inl _, w) \<Rightarrow> ((ExitError, Some (failReply ''close'' ''internal_error'')), w)
         | (Inr _, w) \<Rightarrow>
      (case collectWorkspaceRiskDetails sy root [workspaceID] w of
         (Inl _, w1) \<Rightarrow> ((ExitError, Some (failReply ''close'' ''internal_error'')), w1)
       | (Inr riskItems, w1) \<Rightarrow>
      if hasNonCleanRisk riskItems \<and> \<not> force then
        (if dryRun then ((ExitError, Some (dryRunReply ''ws.close.dry-run'' False)), w1)
         else ((ExitError, Some (failReply ''close'' ''conflict'')), w1))
      else if dryRun then ((ExitOK, Some (dryRunReply ''ws.close.dry-run'' True)), w1)
      else case closeWorkspace sy root workspaceID doCommit w1 of
             (Inl e, w2) \<Rightarrow> ((ExitError, Some (failReply ''close'' (closeErrorCode e))), w2)
           | (Inr _, w2) \<Rightarrow>
               (case (if shift then emitShellActionCD sy root w2 else (Inr (), w2)) of
                  (Inl _, w3) \<Rightarrow> ((ExitError, Some (failReply ''close'' ''internal_error'')), w3)
                | (Inr _, w3) \<Rightarrow> ((ExitOK, Some (okReply ''close'')), w3))))"

datatype close_flow_error = RiskErr state_error | AnswerErr | CloseErr close_error

definition runWSCloseHuman :: "sys \<Rightarrow> answer \<Rightarrow> string \<Rightarrow> string \<Rightarrow> string \<Rightarrow> bool \<Rightarrow> handler" where
  "runWSCloseHuman sy ans workspaceID wd root doCommit w0 =
     (let shift = isPathInside sy w0 (pathJoin [root, ''workspaces'', workspaceID]) wd
      in case (if shift then Chdir root w0 else (Inr (), w0)) of
           (Inl _, w) \<Rightarrow> ((ExitError, None), w)
         | (Inr _, w) \<Rightarrow>
      (case runWorkspaceSelectRiskResultFlow (ret [workspaceID])
              (Some (\<lambda>ids. bindW (mapErr RiskErr (collectWorkspaceRiskDetails sy root ids)) (\<lambda>items. ret (hasNonCleanRisk items))))
              (Some (look (\<lambda>_. case confirmRiskProceed ans of Inl _ \<Rightarrow> Inl AnswerErr | Inr b \<Rightarrow> Inr b)))
              (\<lambda>i. mapErr CloseErr (bindW (closeWorkspace sy root i doCommit) (\<lambda>_. ret ()))) w of
         (Inl _, w1) \<Rightarrow> ((ExitError, None), w1)
       | (Inr _, w1) \<Rightarrow>
           (case (if shift then emitShellActionCD sy root w1 else (Inr (), w1)) of
              (Inl _, w2) \<Rightarrow> ((ExitError, None), w2)
            | (Inr _, w2) \<Rightarrow> ((ExitOK, None), w2))))"

text \<open>Which workspace to close: the flag, the argument, or the workspace around the working directory.\<close>

definition closeTarget :: "close_flags \<Rightarrow> string list \<Rightarrow> string \<Rightarrow> string \<Rightarrow> (exit_code \<times> cli_reply option) + string" where
  "closeTarget f args root wd =
     (case args of
        [a] \<Rightarrow> (if cfID f \<noteq> [] then Inl (ExitUsage, None) else Inr (TrimSpace a))
      | _ \<Rightarrow> Inr (cfID f))"

definition closeTargetID :: "close_flags \<Rightarrow> string \<Rightarrow> string \<Rightarrow> string \<Rightarrow> (exit_code \<times> cli_reply option) + string" where
  "closeTargetID f direct root wd =
     (if direct \<noteq> [] then (if validateWorkspaceID direct then Inr direct else Inl (ExitUsage, None))
      else if cfFormat f = ''json'' then Inl (ExitUsage, Some (failReply ''close'' ''invalid_argument''))
      else case detectWorkspaceFromCWD root wd of
        Some (i, status) \<Rightarrow> if status = ''active'' then Inr i else Inl (ExitUsage, None)
      | None \<Rightarrow> Inl (ExitUsage, None))"

definition runWSClose :: "sys \<Rightarrow> answer \<Rightarrow> string list \<Rightarrow> handler" where
  "runWSClose sy ans args0 w =
     (case parseCloseFlags args0 closeDefaults of
        Inl c \<Rightarrow> ((c, None), w)
      | Inr (f, args) \<Rightarrow>
      if cfFormat f \<noteq> ''human'' \<and> cfFormat f \<noteq> ''json'' then ((ExitUsage, None), w)
      else if cfDryRun f \<and> cfFormat f \<noteq> ''json'' then ((ExitUsage, None), w)
      else if length args > 1 then ((ExitUsage, None), w)
      else if git_missing sy \<noteq> None then ((ExitError, None), w)
      else case getwd w of
        None \<Rightarrow> ((ExitError, None), w)
      | Some wd \<Rightarrow>
      (case resolveRoot w of
         Inl c \<Rightarrow> ((c, None), w)
       | Inr root \<Rightarrow>
      (case (if cfCommit f then ensureRootGitWorktree sy root w else (Inr (), w)) of
         (Inl _, w1) \<Rightarrow> ((ExitError, None), w1)
       | (Inr _, w1) \<Rightarrow>
      (case bindR (closeTarget f args root wd) (\<lambda>direct. closeTargetID f direct root wd) of
         Inl r \<Rightarrow> (r, w1)
       | Inr i \<Rightarrow>
           if cfFormat f = ''json'' then runWSCloseJSON sy i (cfForce f) wd root (cfCommit f) (cfDryRun f) w1
           else runWSCloseHuman sy ans i wd root (cfCommit f) w1))))"

end
