(* ===== verification/Ws_Archive.thy ===== *)
theory Ws_Archive
  imports Ws_Close
begin

text \<open>
  \<open>internal/cli/ws_reopen.go\<close> and \<open>internal/cli/ws_purge.go\<close>: bringing an archived workspace back, and deleting
  it for good.
\<close>

subsection \<open>Recreating worktrees\<close>

datatype recreate_error =
    RMkdir | RAliasRequired | RDuplicateAlias string | RInvalidEntry string | RPathExists string | RStat
  | RSpec spec_error | RGit string | RBaseRef string | RCheckedOut string

definition baseBranchFromBaseRef :: "string \<Rightarrow> string" where
  "baseBranchFromBaseRef baseRef0 =
     (let baseRef = TrimSpace baseRef0; b = TrimPrefix baseRef ''origin/''
      in if \<not> prefix ''origin/'' baseRef then [] else if TrimSpace b = [] then [] else b)"

definition ensureBranch :: "sys \<Rightarrow> string \<Rightarrow> string \<Rightarrow> string \<Rightarrow> (recreate_error, unit) prog" where
  "ensureBranch sy barePath branch baseRefUsed =
     bindW (mapErr RGit (ShowRefExistsBare sy barePath (''refs/remotes/origin/'' @ branch))) (\<lambda>remoteExists.
     bindW (mapErr RGit (ShowRefExistsBare sy barePath (''refs/heads/'' @ branch))) (\<lambda>localExists.
       if localExists then ret ()
       else bindW (mapErr RGit (RunBare sy barePath
              (if remoteExists then [''branch'', ''--track'', branch, ''origin/'' @ branch]
               else [''branch'', branch, baseRefUsed]))) (\<lambda>_. ret ())))"

definition addWorktree :: "sys \<Rightarrow> string \<Rightarrow> string \<Rightarrow> string \<Rightarrow> (recreate_error, unit) prog" where
  "addWorktree sy barePath worktreePath branch =
     bindW (mapErr (\<lambda>msg. if Contains msg ''already checked out'' \<or> Contains msg ''already used by worktree''
                        then RCheckedOut branch else RGit msg)
       (RunBare sy barePath [''worktree'', ''add'', worktreePath, branch])) (\<lambda>_. ret ())"

definition recreateOne :: "sys \<Rightarrow> string \<Rightarrow> string \<Rightarrow> meta_restore \<Rightarrow> (recreate_error, unit) prog" where
  "recreateOne sy repoPoolPath reposDir r =
     (let worktreePath = pathJoin [reposDir, Alias r]
      in bindW (guardW (TrimSpace (RepoUID r) \<noteq> [] \<and> TrimSpace (RemoteURL r) \<noteq> [] \<and> TrimSpace (restoreBranch r) \<noteq> [])
                  (RInvalidEntry (Alias r))) (\<lambda>_.
         bindW (look (\<lambda>w. case Stat w worktreePath of
                   Inr _ \<Rightarrow> Inl (RPathExists worktreePath)
                 | Inl ReadFailed \<Rightarrow> Inl RStat
                 | Inl NotExist \<Rightarrow> Inr ())) (\<lambda>_.
         bindW (look (\<lambda>_. case Normalize (RemoteURL r) of Inl e \<Rightarrow> Inl (RSpec e) | Inr s \<Rightarrow> Inr s)) (\<lambda>spec.
           let barePath = StorePath repoPoolPath spec
           in bindW (mapErr RGit (EnsureBareRepoFetched sy (RemoteURL r) barePath (baseBranchFromBaseRef (BaseRef r)))) (\<lambda>defaultBaseRef.
                let baseRefUsed = (if TrimSpace (BaseRef r) = [] then TrimSpace defaultBaseRef else TrimSpace (BaseRef r))
                in bindW (guardW (prefix ''origin/'' baseRefUsed) (RBaseRef baseRefUsed)) (\<lambda>_.
                   bindW (ensureBranch sy barePath (restoreBranch r) baseRefUsed) (\<lambda>_.
                     addWorktree sy barePath worktreePath (restoreBranch r))))))))"

fun recreateAll :: "sys \<Rightarrow> string \<Rightarrow> string \<Rightarrow> string list \<Rightarrow> meta_restore list \<Rightarrow> (recreate_error, unit) prog" where
  "recreateAll sy pool reposDir seen [] = ret ()"
| "recreateAll sy pool reposDir seen (r # rs) =
     (if TrimSpace (Alias r) = [] then throw RAliasRequired
      else if Alias r \<in> set seen then throw (RDuplicateAlias (Alias r))
      else bindW (recreateOne sy pool reposDir r) (\<lambda>_. recreateAll sy pool reposDir (Alias r # seen) rs))"

definition recreateWorkspaceWorktreesFromMeta ::
    "sys \<Rightarrow> string \<Rightarrow> string \<Rightarrow> string \<Rightarrow> meta_restore list \<Rightarrow> (recreate_error, unit) prog" where
  "recreateWorkspaceWorktreesFromMeta sy root repoPoolPath workspaceID repos =
     (let reposDir = pathJoin [root, ''workspaces'', workspaceID, ''repos'']
      in bindW (mapErr (\<lambda>_. RMkdir) (MkdirAllP reposDir)) (\<lambda>_. recreateAll sy repoPoolPath reposDir [] repos))"

subsection \<open>Reopening\<close>

datatype reopen_error =
    OStatArchive | ONotDir | OWsExists | OStatWs | OPre commit_error | ORename | OLoad meta_error
  | ORecreate recreate_error | OWriteMeta meta_error | OPost commit_error

definition reopenGuards :: "string \<Rightarrow> string \<Rightarrow> world \<Rightarrow> reopen_error + unit" where
  "reopenGuards root workspaceID w =
     (case Stat w (pathJoin [root, ''archive'', workspaceID]) of
        Inl _ \<Rightarrow> Inl OStatArchive
      | Inr (FileN _) \<Rightarrow> Inl ONotDir
      | Inr DirN \<Rightarrow>
          (case Stat w (pathJoin [root, ''workspaces'', workspaceID]) of
             Inr _ \<Rightarrow> Inl OWsExists
           | Inl ReadFailed \<Rightarrow> Inl OStatWs
           | Inl NotExist \<Rightarrow> Inr ()))"

definition activated :: "int \<Rightarrow> meta_file \<Rightarrow> meta_file" where
  "activated now meta = meta\<lparr>Workspace := (Workspace meta)\<lparr>wsStatus := ''active'', UpdatedAt := now\<rparr>\<rparr>"

text \<open>From the rename on: an error moves the directory back.\<close>

definition restoreWorkspace :: "sys \<Rightarrow> string \<Rightarrow> string \<Rightarrow> string \<Rightarrow> (reopen_error, unit) prog" where
  "restoreWorkspace sy root repoPoolPath workspaceID =
     (let archivePath = pathJoin [root, ''archive'', workspaceID]; wsPath = pathJoin [root, ''workspaces'', workspaceID];
          back = ignore (RenameTree wsPath archivePath)
      in bindW (mapErr (\<lambda>_. ORename) (RenameTree archivePath wsPath)) (\<lambda>_.
         bindW (onErr (look (loadWorkspaceMetaFile wsPath)) (\<lambda>_. back) OLoad) (\<lambda>meta.
         bindW (onErr (recreateWorkspaceWorktreesFromMeta sy root repoPoolPath workspaceID (ReposRestore meta)) (\<lambda>_. back) ORecreate) (\<lambda>_.
           onErr (\<lambda>w. writeWorkspaceMetaFile wsPath (activated (clock w) meta) w) (\<lambda>_. back) OWriteMeta))))"

definition reopenWorkspace :: "sys \<Rightarrow> string \<Rightarrow> string \<Rightarrow> string \<Rightarrow> bool \<Rightarrow> (reopen_error, commit_trace) prog" where
  "reopenWorkspace sy root repoPoolPath workspaceID doCommit =
     bindW (look (reopenGuards root workspaceID)) (\<lambda>_.
     bindW (if doCommit then mapErr OPre (commitReopenPreSnapshot sy root workspaceID) else ret []) (\<lambda>preSHA.
     bindW (restoreWorkspace sy root repoPoolPath workspaceID) (\<lambda>_.
     bindW (ignore (\<lambda>w. createOrRefreshWorkspaceBaseline sy root workspaceID (clock w) w)) (\<lambda>_.
     bindW (if doCommit then mapErr OPost (commitReopenChange sy root workspaceID) else ret []) (\<lambda>postSHA.
       ret \<lparr>CommitEnabled = doCommit, PreCommitSHA = preSHA, PostCommitSHA = postSHA\<rparr>)))))"

subsection \<open>Purging\<close>

datatype purge_error =
    PStatWs | PStatArchive | PNotFound | PLoad meta_error | PList state_error | PGuard | PNotArchived
  | PPre commit_error | PWorktrees worktree_error | PDeleteWs | PDeleteArchive | PPost commit_error

record purgeWorkspaceMeta =
  purgeArchived :: bool
  purgeRisk :: WorkspaceRisk
  purgePerRepo :: "(string \<times> RepoState) list"
  purgeGuardActive :: bool

text \<open>The status: \<open>Some True\<close> is archived, \<open>Some False\<close> active.\<close>

definition purgeStatus :: "string \<Rightarrow> string \<Rightarrow> world \<Rightarrow> purge_error + bool" where
  "purgeStatus root workspaceID w =
     (let inArchive = (case Stat w (pathJoin [root, ''archive'', workspaceID]) of
                         Inr DirN \<Rightarrow> Inr True | Inl ReadFailed \<Rightarrow> Inl PStatArchive | _ \<Rightarrow> Inl PNotFound)
      in case Stat w (pathJoin [root, ''workspaces'', workspaceID]) of
           Inr DirN \<Rightarrow> Inr False
         | Inl ReadFailed \<Rightarrow> Inl PStatWs
         | _ \<Rightarrow> inArchive)"

definition collectPurgeWorkspaceMeta :: "sys \<Rightarrow> string \<Rightarrow> string \<Rightarrow> (purge_error, purgeWorkspaceMeta) prog" where
  "collectPurgeWorkspaceMeta sy root workspaceID =
     bindW (look (purgeStatus root workspaceID)) (\<lambda>archived.
     bindW (mapErr PLoad (look (loadWorkspaceMetaFile
              (pathJoin [root, if archived then ''archive'' else ''workspaces'', workspaceID])))) (\<lambda>metaFile.
       let meta = \<lparr>purgeArchived = archived, purgeRisk = Clean_risk, purgePerRepo = [],
                   purgeGuardActive = workspaceMetaPurgeGuardEnabled metaFile\<rparr>
       in if archived then ret meta
          else bindW (mapErr PList (listWorkspaceReposForClose sy root workspaceID)) (\<lambda>repos.
               bindW (riskP sy root workspaceID repos) (\<lambda>states.
                 ret (meta\<lparr>purgeRisk := Aggregate states, purgePerRepo := zip (map wr_alias repos) states\<rparr>)))))"

definition purgeWorkspace :: "sys \<Rightarrow> string \<Rightarrow> string \<Rightarrow> bool \<Rightarrow> (purge_error, commit_trace) prog" where
  "purgeWorkspace sy root workspaceID doCommit =
     bindW (collectPurgeWorkspaceMeta sy root workspaceID) (\<lambda>meta.
     bindW (guardW (\<not> purgeGuardActive meta) PGuard) (\<lambda>_.
     bindW (guardW (purgeArchived meta) PNotArchived) (\<lambda>_.
     bindW (if doCommit then mapErr PPre (commitPurgePreSnapshot sy root workspaceID) else ret []) (\<lambda>preSHA.
     bindW (mapErr PList (listWorkspaceReposForClose sy root workspaceID)) (\<lambda>repos.
     bindW (mapErr PWorktrees (removeWorkspaceWorktrees sy root workspaceID repos)) (\<lambda>_.
     bindW (mapErr (\<lambda>_. PDeleteWs) (RemoveAll (pathJoin [root, ''workspaces'', workspaceID]))) (\<lambda>_.
     bindW (mapErr (\<lambda>_. PDeleteArchive) (RemoveAll (pathJoin [root, ''archive'', workspaceID]))) (\<lambda>_.
     bindW (ignore (removeWorkspaceBaselineAndWorkState sy root workspaceID)) (\<lambda>_.
     bindW (if doCommit then mapErr PPost (commitPurgeChange sy root workspaceID) else ret []) (\<lambda>postSHA.
       ret \<lparr>CommitEnabled = doCommit, PreCommitSHA = preSHA, PostCommitSHA = postSHA\<rparr>))))))))))"

subsection \<open>The commands\<close>

record arch_flags =
  afFormat :: string
  afCommit :: bool
  afDryRun :: bool
  afMode :: string
  afNoPrompt :: bool
  afForce :: bool

definition archDefaults :: arch_flags where
  "archDefaults = \<lparr>afFormat = ''human'', afCommit = True, afDryRun = False, afMode = [], afNoPrompt = False, afForce = False\<rparr>"

text \<open>The loops of the two commands are the same but for \<open>--no-prompt\<close> and \<open>--force\<close>, which only purge has.\<close>

fun parseArchFlags :: "bool \<Rightarrow> string list \<Rightarrow> arch_flags \<Rightarrow> exit_code + arch_flags \<times> string list" where
  "parseArchFlags purge [] f = Inr (f, [])"
| "parseArchFlags purge (a # as) f =
     (if \<not> prefix ''-'' a then Inr (f, a # as)
      else if a = ''-h'' \<or> a = ''--help'' then Inl ExitOK
      else if purge \<and> a = ''--no-prompt'' then parseArchFlags purge as (f\<lparr>afNoPrompt := True\<rparr>)
      else if purge \<and> a = ''--force'' then parseArchFlags purge as (f\<lparr>afForce := True\<rparr>)
      else if a = ''--commit'' then
        (if afMode f = ''no-commit'' then Inl ExitUsage
         else parseArchFlags purge as (f\<lparr>afCommit := True, afMode := ''commit''\<rparr>))
      else if a = ''--no-commit'' then
        (if afMode f = ''commit'' then Inl ExitUsage
         else parseArchFlags purge as (f\<lparr>afCommit := False, afMode := ''no-commit''\<rparr>))
      else if a = ''--dry-run'' then parseArchFlags purge as (f\<lparr>afDryRun := True\<rparr>)
      else if a = ''--format'' then
        (case as of [] \<Rightarrow> Inl ExitUsage | v # bs \<Rightarrow> parseArchFlags purge bs (f\<lparr>afFormat := TrimSpace v\<rparr>))
      else if prefix ''--format='' a then parseArchFlags purge as (f\<lparr>afFormat := TrimSpace (TrimPrefix a ''--format='')\<rparr>)
      else Inl ExitUsage)"

definition runWSReopenJSON :: "string \<Rightarrow> string \<Rightarrow> bool \<Rightarrow> bool \<Rightarrow> handler" where
  "runWSReopenJSON root workspaceID doCommit dryRun w =
     (if \<not> dryRun then ((ExitUsage, Some (failReply ''reopen'' ''invalid_argument'')), w)
      else let archiveExists = (Stat w (pathJoin [root, ''archive'', workspaceID]) = Inr DirN);
               workspaceAbsent = (Stat w (pathJoin [root, ''workspaces'', workspaceID]) = Inl NotExist);
               executable = (archiveExists \<and> workspaceAbsent)
           in ((if executable then ExitOK else ExitError, Some (dryRunReply ''ws.reopen.dry-run'' executable)), w))"

definition runWSReopenHuman :: "sys \<Rightarrow> string \<Rightarrow> string \<Rightarrow> bool \<Rightarrow> handler" where
  "runWSReopenHuman sy root workspaceID doCommit w =
     (case DefaultRepoPoolPath w of
        Inl _ \<Rightarrow> ((ExitError, None), w)
      | Inr repoPoolPath \<Rightarrow>
      (case (if doCommit then ensureRootGitWorktree sy root w else (Inr (), w)) of
         (Inl _, w1) \<Rightarrow> ((ExitError, None), w1)
       | (Inr _, w1) \<Rightarrow>
      (case runWorkspaceSelectRiskResultFlow (ret [workspaceID]) None None
              (\<lambda>i. bindW (reopenWorkspace sy root repoPoolPath i doCommit) (\<lambda>_. ret ())) w1 of
         (Inl _, w2) \<Rightarrow> ((ExitError, None), w2)
       | (Inr _, w2) \<Rightarrow> ((ExitOK, None), w2))))"

definition runWSReopen :: "sys \<Rightarrow> string list \<Rightarrow> handler" where
  "runWSReopen sy args0 w =
     (case parseArchFlags False args0 archDefaults of
        Inl c \<Rightarrow> ((c, None), w)
      | Inr (f, args) \<Rightarrow>
      if afFormat f \<noteq> ''human'' \<and> afFormat f \<noteq> ''json'' then ((ExitUsage, None), w)
      else if afDryRun f \<and> afFormat f \<noteq> ''json'' then ((ExitUsage, None), w)
      else case args of
        [wid] \<Rightarrow>
          (if \<not> validateWorkspaceID wid then ((ExitUsage, None), w)
           else if git_missing sy \<noteq> None then ((ExitError, None), w)
           else case resolveRoot w of
             Inl c \<Rightarrow> ((c, None), w)
           | Inr root \<Rightarrow>
               if afFormat f = ''json'' then runWSReopenJSON root wid (afCommit f) (afDryRun f) w
               else runWSReopenHuman sy root wid (afCommit f) w)
      | _ \<Rightarrow> ((ExitUsage, None), w))"

definition runWSPurgeJSON :: "sys \<Rightarrow> string \<Rightarrow> string \<Rightarrow> bool \<Rightarrow> bool \<Rightarrow> bool \<Rightarrow> handler" where
  "runWSPurgeJSON sy root workspaceID force doCommit dryRun w =
     (if \<not> dryRun then ((ExitUsage, Some (failReply ''purge'' ''invalid_argument'')), w)
      else case collectPurgeWorkspaceMeta sy root workspaceID w of
        (Inl _, w1) \<Rightarrow> ((ExitError, Some (failReply ''ws.purge.dry-run'' ''not_found'')), w1)
      | (Inr meta, w1) \<Rightarrow>
          (let requiresForce = (\<not> purgeArchived meta \<and> purgeRisk meta \<noteq> Clean_risk \<and> \<not> force);
               executable = (purgeArchived meta \<and> \<not> purgeGuardActive meta \<and> \<not> requiresForce)
           in ((if executable then ExitOK else ExitError, Some (dryRunReply ''ws.purge.dry-run'' executable)), w1)))"

datatype purge_flow_error = PurgeErr purge_error | PurgeAnswerErr

text \<open>
  The risk stage of a purge: metadata, guard and status are checked, then the user is asked (unless
  \<open>--no-prompt\<close>). The second question of the code needs an active workspace, which the status check has
  refused by then, so one answer is enough.
\<close>

definition purgeStage :: "sys \<Rightarrow> string \<Rightarrow> bool \<Rightarrow> string list \<Rightarrow> (purge_flow_error, bool) prog" where
  "purgeStage sy root noPrompt ids =
     bindW (forW (\<lambda>i.
       bindW (mapErr PurgeErr (collectPurgeWorkspaceMeta sy root i)) (\<lambda>meta.
       bindW (guardW (\<not> purgeGuardActive meta) (PurgeErr PGuard)) (\<lambda>_.
         guardW (purgeArchived meta) (PurgeErr PNotArchived)))) ids) (\<lambda>_. ret (\<not> noPrompt))"

definition runWSPurgeHuman :: "sys \<Rightarrow> answer \<Rightarrow> string \<Rightarrow> string \<Rightarrow> bool \<Rightarrow> bool \<Rightarrow> handler" where
  "runWSPurgeHuman sy ans root workspaceID noPrompt doCommit w =
     (case (if doCommit then ensureRootGitWorktree sy root w else (Inr (), w)) of
         (Inl _, w1) \<Rightarrow> ((ExitError, None), w1)
       | (Inr _, w1) \<Rightarrow>
      (case runWorkspaceSelectRiskResultFlow (ret [workspaceID]) (Some (purgeStage sy root noPrompt))
              (Some (if noPrompt then ret True
                     else look (\<lambda>_. case confirmContinue ans of Inl _ \<Rightarrow> Inl PurgeAnswerErr | Inr b \<Rightarrow> Inr b)))
              (\<lambda>i. mapErr PurgeErr (bindW (purgeWorkspace sy root i doCommit) (\<lambda>_. ret ()))) w1 of
         (Inl _, w2) \<Rightarrow> ((ExitError, None), w2)
       | (Inr _, w2) \<Rightarrow> ((ExitOK, None), w2)))"

definition runWSPurge :: "sys \<Rightarrow> answer \<Rightarrow> string list \<Rightarrow> handler" where
  "runWSPurge sy ans args0 w =
     (case parseArchFlags True args0 archDefaults of
        Inl c \<Rightarrow> ((c, None), w)
      | Inr (f, args) \<Rightarrow>
      if afFormat f \<noteq> ''human'' \<and> afFormat f \<noteq> ''json'' then ((ExitUsage, None), w)
      else if afDryRun f \<and> afFormat f \<noteq> ''json'' then ((ExitUsage, None), w)
      else case args of
        [wid] \<Rightarrow>
          (if afNoPrompt f \<and> \<not> afForce f then ((ExitUsage, None), w)
           else if \<not> validateWorkspaceID wid then ((ExitUsage, None), w)
           else if git_missing sy \<noteq> None then ((ExitError, None), w)
           else case resolveRoot w of
             Inl c \<Rightarrow> ((c, None), w)
           | Inr root \<Rightarrow>
               if afFormat f = ''json'' then runWSPurgeJSON sy root wid (afForce f) (afCommit f) (afDryRun f) w
               else runWSPurgeHuman sy ans root wid (afNoPrompt f) (afCommit f) w)
      | _ \<Rightarrow> ((ExitUsage, None), w))"

end
