(* ===== verification/Ws_Frame.thy ===== *)
theory Ws_Frame
  imports Ws_Archive
begin

text \<open>
  Which files an operation leaves alone. \<open>git_steps\<close> is the interface of programs that only run git: a
  relation between worlds that every run of git respects is respected by every program built from runs.
  It is interpreted with \<open>spares\<close>: agreement on a set of files that git and cmux do not touch.
\<close>

subsection \<open>Programs built from git runs\<close>

locale git_steps = step_relation R for R :: "world \<Rightarrow> world \<Rightarrow> bool" +
  fixes sy :: sys
  assumes exec_step: "R w (snd (exec_git sy dir args w))"
begin

lemma ensure_git: "always R (EnsureGitInPath sy)"
  by (auto simp: always_def EnsureGitInPath_def R_refl split: option.splits)

lemma run_now: "always R (runNow sy dir args)" "always R (testNow sy dir args what)"
  using exec_step [of _ dir args]
  by (auto simp: always_def runNow_def testNow_def split: prod.splits git_result.splits) (metis snd_conv)+

lemma run: "always R (Run sy dir args)"
  unfolding Run_def by (intro always_intros ensure_git run_now)

lemma run_bare: "always R (RunBare sy dir args)"
  unfolding RunBare_def by (intro always_intros run)

lemma show_ref: "always R (ShowRefExistsBare sy dir r)"
  unfolding ShowRefExistsBare_def Let_def by (intro always_intros ensure_git run_now)

lemma is_ignored: "always R (IsIgnored sy dir p)"
  unfolding IsIgnored_def Let_def by (intro always_intros ensure_git run_now)

lemma root_worktree: "always R (ensureRootGitWorktree sy root)"
  unfolding ensureRootGitWorktree_def Let_def
  by (intro always_bind always_mapErr run) (auto simp: always_def R_refl split: option.splits)

lemma fetched: "always R (EnsureBareRepoFetched sy url bare fallback)"
proof -
  have "always R (\<lambda>w. case Stat w b of Inr _ \<Rightarrow> (Inr (), w) | Inl ReadFailed \<Rightarrow> (Inl ''stat bare repo'', w)
      | Inl NotExist \<Rightarrow> bindW (Run sy [] [''clone'', ''--bare'', u, b]) (\<lambda>_. ret ()) w)" for b u
  proof -
    have "always R (bindW (Run sy [] [''clone'', ''--bare'', u, b]) (\<lambda>_. ret ()))" by (intro always_intros run)
    then show ?thesis by (auto simp: always_def R_refl split: sum.splits read_error.splits)
  qed
  then show ?thesis
    unfolding EnsureBareRepoFetched_def Let_def
    by (intro always_intros run_bare) (auto split: option.splits intro: always_intros)
qed

lemma top_path: "always R (toGitTopLevelPath sy root p)"
  unfolding toGitTopLevelPath_def Let_def by (intro always_bind run) (simp add: always_def R_refl)

lemma map_steps: "(\<And>x. x \<in> set xs \<Longrightarrow> always R (f x)) \<Longrightarrow> always R (mapW f xs)"
  by (induction xs) (auto intro: always_ret always_bind)

lemma case_sum: "(\<And>e. always R (f e)) \<Longrightarrow> (\<And>v. always R (g v)) \<Longrightarrow> always R (case r of Inl e \<Rightarrow> f e | Inr v \<Rightarrow> g v)"
  by (cases r) auto

lemma case_opt: "always R f \<Longrightarrow> (\<And>v. always R (g v)) \<Longrightarrow> always R (case r of None \<Rightarrow> f | Some v \<Rightarrow> g v)"
  by (cases r) auto

lemma origin_head: "always R (detectOriginHeadBaseRef sy p)"
  unfolding detectOriginHeadBaseRef_def Let_def by (intro always_intros run case_sum)

lemma top_steps: "always R (topPath sy root p)"
  unfolding topPath_def by (intro always_intros top_path)

lemma reset_steps: "always R (resetPaths sy root args)"
  unfolding resetPaths_def by (intro always_intros run)

lemma add_steps: "always R (addArg sy root arg)"
  unfolding addArg_def by (rule run)

lemma add_or_reset: "always R reset \<Longrightarrow> always R (addOrReset sy root reset arg)"
  unfolding addOrReset_def by (intro always_intros add_steps case_sum)

lemma diff_steps: "always R reset \<Longrightarrow> always R (diffCached sy root reset args)"
  unfolding diffCached_def by (intro always_intros run)

lemma check_steps: "always R reset \<Longrightarrow> always R k \<Longrightarrow> always R (checkStaged allow reset staged k)"
  unfolding checkStaged_def by (intro case_opt always_intros)

lemma commit_only: "always R reset \<Longrightarrow> always R (commitOnly sy root reset args)"
  unfolding commitOnly_def by (intro always_intros run)

lemmas commit_steps = top_steps reset_steps add_steps add_or_reset diff_steps check_steps commit_only

lemma commit_pre: "always R (commitPre msg sy root arg)"
  unfolding commitPre_def Let_def by (intro always_intros commit_steps)

lemma expect_steps: "always R reset \<Longrightarrow> always R (expectArchived sy root wid reset staged rel)"
  unfolding expectArchived_def isGitIgnoredRelativeToRoot_def
  by (intro always_intros commit_steps top_path is_ignored)

lemma commit_routines:
  "always R (commitClosePreSnapshot sy root wid)" "always R (commitReopenPreSnapshot sy root wid)"
  "always R (commitPurgePreSnapshot sy root wid)" "always R (commitArchiveChange sy root wid fs)"
  "always R (commitReopenChange sy root wid)" "always R (commitPurgeChange sy root wid)"
  unfolding commitClosePreSnapshot_def commitReopenPreSnapshot_def commitPurgePreSnapshot_def
    commitArchiveChange_def commitReopenChange_def commitPurgeChange_def Let_def
  by (intro always_intros commit_steps commit_pre expect_steps)+

lemma inspect_steps: "always R (inspectSnapshotP sy dir)"
  using run [of dir "[''status'', ''--porcelain=v2'', ''--branch'']"]
  by (auto simp: always_def inspectSnapshotP_def R_refl split: prod.splits) (metis snd_conv)

lemma present_steps: "always R (presentRepo sy d rs a)"
  unfolding presentRepo_def Let_def by (intro always_intros run)

lemma list_repos: "always R (listWorkspaceReposFromFilesystem sy root archived wid meta)"
proof -
  have step: "always R (bindW (mapW (presentRepo sy d rs) as) (\<lambda>p. ret (f p)) :: (state_error, WorkspaceRepo list) prog)" for d rs as f
    by (intro always_intros map_steps present_steps)
  have "R w (snd (listWorkspaceReposFromFilesystem sy root archived wid meta w))" for w
    unfolding listWorkspaceReposFromFilesystem_def Let_def
    by (cases "ReadDir sy w (pathJoin [pathJoin [root, if archived then ''archive'' else ''workspaces'', wid], ''repos''])")
      (use step [unfolded always_def] in \<open>auto simp: R_refl simp del: mapW.simps split: read_error.splits\<close>)
  then show ?thesis by (simp add: always_def)
qed

lemma list_repos_close: "always R (listWorkspaceReposForClose sy root wid)"
  using list_repos unfolding always_def listWorkspaceReposForClose_def Let_def by auto

lemma risk_steps: "always R (riskP sy root wid repos)"
  unfolding riskP_def by (intro map_steps always_intros inspect_steps)

lemma plan_steps: "always R (collectCloseRepoPlanDetails sy root wid repos)"
  unfolding collectCloseRepoPlanDetails_def closePlan_def Let_def
  by (intro always_intros map_steps inspect_steps)

lemma risk_details: "always R (collectWorkspaceRiskDetails sy root ids)"
  unfolding collectWorkspaceRiskDetails_def
  by (intro map_steps always_intros list_repos_close plan_steps) (auto intro: always_intros split: prod.splits)

lemma branch_steps: "always R (detectBranchForClose sy p b)"
proof -
  have "always R (bindW (attempt (Run sy p [''branch'', ''--show-current''])) (\<lambda>r. ret (f r)))" for f :: "_ \<Rightarrow> string"
    by (intro always_intros run)
  then show ?thesis
    unfolding always_def detectBranchForClose_def by (auto simp: R_refl split: sum.splits node.splits)
qed

lemma restore_entry: "always R (closeRestoreEntry sy root wid ex r)"
  unfolding closeRestoreEntry_def Let_def
  by (intro always_intros run branch_steps origin_head)

lemma build_meta: "always R (buildWorkspaceMetaForClose sy root wid repos)"
  unfolding buildWorkspaceMetaForClose_def Let_def
  by (intro always_intros map_steps restore_entry) (simp add: always_def R_refl)

lemma purge_meta: "always R (collectPurgeWorkspaceMeta sy root wid)"
  unfolding collectPurgeWorkspaceMeta_def Let_def
  by (intro always_intros list_repos_close risk_steps)

lemma ensure_branch: "always R (ensureBranch sy bare b base)"
  unfolding ensureBranch_def by (intro always_intros show_ref run_bare)

lemma recreate_one: "always R (recreateOne sy pool d r)"
  unfolding recreateOne_def addWorktree_def Let_def
  by (intro always_intros fetched ensure_branch run_bare)

lemma recreate_all: "always R (recreateAll sy pool d seen rs)"
  by (induction rs arbitrary: seen) (auto intro!: always_intros recreate_one)

end

subsection \<open>Files that are left alone\<close>

definition tame :: "sys \<Rightarrow> key set \<Rightarrow> bool" where
  "tame sy K \<longleftrightarrow> (\<forall>dir args w. \<forall>k\<in>K. snd (git sy dir args w) k = files w k)
     \<and> (\<forall>args w. \<forall>k\<in>K. snd (cmux sy args w) k = files w k)"

definition same_env :: "world \<Rightarrow> world \<Rightarrow> bool" where
  "same_env w w' \<longleftrightarrow> fails w' = fails w \<and> rand w' = rand w \<and> clock w' = clock w \<and> torn w' = torn w \<and> lost w' = lost w"

definition spares :: "sys \<Rightarrow> key set \<Rightarrow> world \<Rightarrow> world \<Rightarrow> bool" where
  "spares sy K w w' \<longleftrightarrow> same_env w w' \<and> (tame sy K \<longrightarrow> (\<forall>k\<in>K. files w' k = files w k))"

interpretation quiet: git_steps "spares sy K" sy for sy K
proof
  show "spares sy K w (snd (exec_git sy dir args w))" for w dir args
    by (auto simp: spares_def same_env_def exec_git_def tame_def split: prod.splits) (metis snd_conv)
qed (auto simp: spares_def same_env_def)

lemma always_spares:
  "(\<And>w. same_env w (snd (m w)) \<and> (\<forall>k\<in>K. files (snd (m w)) k = files w k)) \<Longrightarrow> always (spares sy K) m"
  by (simp add: always_def spares_def)

lemma sparesD: "always (spares sy K) m \<Longrightarrow> m w = (r, w') \<Longrightarrow> tame sy K \<Longrightarrow> k \<in> K \<Longrightarrow> files w' k = files w k"
  by (metis always_def snd_conv spares_def)

lemma spares_env: "always (spares sy K) m \<Longrightarrow> m w = (r, w') \<Longrightarrow> same_env w w'"
  by (metis always_def snd_conv spares_def)

lemma spares_RemoveAll: "\<forall>k\<in>K. \<not> prefix (comps p) k \<Longrightarrow> always (spares sy K) (RemoveAll p)"
  by (rule always_spares) (auto simp: RemoveAll_def Let_def remove_tree_def same_env_def)

lemma spares_RemoveP: "comps p \<notin> K \<Longrightarrow> always (spares sy K) (RemoveP sy p)"
  by (rule always_spares) (auto simp: RemoveP_def Let_def same_env_def split: option.splits)

lemma spares_WriteFile: "comps p \<notin> K \<Longrightarrow> always (spares sy K) (WriteFile p b)"
  by (rule always_spares) (auto simp: WriteFile_def Let_def same_env_def)

lemma spares_MkdirAllP: "\<forall>k\<in>K. \<not> prefix k (comps p) \<Longrightarrow> always (spares sy K) (MkdirAllP p)"
  by (rule always_spares) (auto simp: MkdirAllP_def MkdirAll_def mkdirs_def same_env_def)

lemma spares_Chdir: "always (spares sy K) (Chdir p)"
  by (rule always_spares) (auto simp: Chdir_def same_env_def)

lemma spares_RenameTree:
  "\<forall>k\<in>K. \<not> prefix (comps s) k \<and> \<not> prefix (comps d) k \<Longrightarrow> always (spares sy K) (RenameTree s d)"
  by (rule always_spares) (auto simp: RenameTree_def Let_def move_tree_def same_env_def)

lemma atomicReplace_same_env: "atomicReplace mk pre suf d target b w = (r, w') \<Longrightarrow> same_env w w'"
  using atomicReplace_env [of mk pre suf d target b w r w'] by (simp add: same_env_def)

lemma atomicReplace_other:
  assumes "atomicReplace mk pre suf d target b w = (r, w')" and "k \<noteq> target" and "k \<noteq> tempKey d pre suf (rand w)"
    and "\<not> mk \<or> \<not> prefix k d"
  shows "files w' k = files w k"
  using assms
  by (auto simp: atomicReplace_def syscall_defs mkdirs_def Let_def split: if_splits option.splits prod.splits)

lemma spares_replace:
  assumes "target \<notin> K" and "\<And>n. tempKey d pre suf n \<notin> K" and "\<And>k. k \<in> K \<Longrightarrow> \<not> mk \<or> \<not> prefix k d"
    and "atomicReplace mk pre suf d target b w = (r, w')"
  shows "spares sy K w w'"
  using assms atomicReplace_other [OF assms(4)] atomicReplace_same_env [OF assms(4)] by (metis spares_def)

lemma spares_saveStateFile:
  assumes "comps path \<notin> K" and "\<And>n. tempKey (comps dir) pre ''.tmp'' n \<notin> K" and "\<And>k. k \<in> K \<Longrightarrow> \<not> prefix k (comps dir)"
  shows "always (spares sy K) (saveStateFile pre dir path b)"
  unfolding always_def saveStateFile_def
  using spares_replace [OF assms(1,2), of True] assms(3)
  by (auto split: prod.splits option.splits)

lemma spares_writeMeta:
  assumes "IsAbs p" and "comps p @ [''.kra.meta.json''] \<notin> K" and "\<And>n. tempKey (comps p) ''.kra-meta-'' ''.tmp'' n \<notin> K"
  shows "always (spares sy K) (writeWorkspaceMetaFile p m)"
  unfolding always_def writeWorkspaceMetaFile_def comps_metaPath [OF assms(1)]
  using spares_replace [OF assms(2,3), of False] quiet.R_refl
  by (auto split: prod.splits option.splits)

subsection \<open>The two trees\<close>

text \<open>The files below \<open>workspaces\<close> and \<open>archive\<close>; the state files of the program are elsewhere.\<close>

definition treeK :: "string \<Rightarrow> key set" where
  "treeK root = {comps root @ x # y # k |x y k. x = ''workspaces'' \<or> x = ''archive''}"

lemma treeK_root: "K \<subseteq> treeK root \<Longrightarrow> k \<in> K \<Longrightarrow> \<not> prefix k (comps root @ ''.kra'' # xs)"
  by (auto simp: treeK_def)

lemma treeK_other: "K \<subseteq> treeK root \<Longrightarrow> comps root @ ''.kra'' # xs \<notin> K"
  by (auto simp: treeK_def)

lemma comps_state:
  assumes "IsAbs root"
  shows "comps (stateDir root) = comps root @ [''.kra'', ''state'']"
    and "comps (pathJoin [stateDir root, ''workspace-workstate.json'']) = comps root @ [''.kra'', ''state'', ''workspace-workstate.json'']"
    and "comps (pathJoin [root, ''.kra'', ''state'', ''workspace-baselines'']) = comps root @ [''.kra'', ''state'', ''workspace-baselines'']"
proof -
  have pl: "plains [''.kra'', ''state'', ''workspace-baselines'']" "plains [''.kra'', ''state'']" "plain ''workspace-workstate.json''"
    by (simp_all add: plain_def)
  have d: "stateDir root = abs_path (comps root @ [''.kra'', ''state''])"
    using pathJoin_abs [OF assms pl(2)] by (simp add: stateDir_def)
  then show "comps (stateDir root) = comps root @ [''.kra'', ''state'']" using pl by simp
  show "comps (pathJoin [stateDir root, ''workspace-workstate.json'']) = comps root @ [''.kra'', ''state'', ''workspace-workstate.json'']"
    using pl unfolding d by (subst pathJoin_abs_path) simp_all
  show "comps (pathJoin [root, ''.kra'', ''state'', ''workspace-baselines'']) = comps root @ [''.kra'', ''state'', ''workspace-baselines'']"
    using pathJoin_abs [OF assms pl(1)] pl by simp
qed

lemma spares_clearCache:
  assumes "IsAbs root" and "K \<subseteq> treeK root"
  shows "always (spares sy K) (clearWorkspaceWorkStateCacheEntry root wid)"
proof -
  have "always (spares sy K) (saveWorkspaceWorkStateCache root c)" for c
    unfolding saveWorkspaceWorkStateCache_def Let_def
    by (rule spares_saveStateFile)
      (use treeK_other [OF assms(2)] treeK_root [OF assms(2)] in \<open>auto simp: comps_state [OF assms(1)] tempKey_def\<close>)
  then show ?thesis
    unfolding always_def clearWorkspaceWorkStateCacheEntry_def
    by (auto simp: quiet.R_refl split: sum.splits state_error.splits read_error.splits option.splits)
qed

lemma spares_saveBaseline:
  assumes "IsAbs root" and "CHR ''/'' \<notin> set wid" and "K \<subseteq> treeK root"
  shows "always (spares sy K) (saveWorkspaceBaseline root wid b)"
  unfolding saveWorkspaceBaseline_def Let_def
  by (rule spares_saveStateFile)
    (use treeK_other [OF assms(3)] treeK_root [OF assms(3)] in
      \<open>auto simp: comps_baselinePath [OF assms(1,2)] comps_state [OF assms(1)] tempKey_def\<close>)

lemma spares_removeBaseline:
  assumes "IsAbs root" and "CHR ''/'' \<notin> set wid" and "K \<subseteq> treeK root"
  shows "always (spares sy K) (removeWorkspaceBaselineAndWorkState sy root wid)"
proof -
  have c: "always (spares sy K) (clearWorkspaceWorkStateCacheEntry root wid)"
    using assms by (intro spares_clearCache)
  have "comps (workspaceBaselinePath root wid) \<notin> K"
    using treeK_other [OF assms(3)] by (simp add: comps_baselinePath [OF assms(1,2)] comps_state [OF assms(1)])
  then have r: "always (spares sy K) (RemoveP sy (workspaceBaselinePath root wid))" by (rule spares_RemoveP)
  have "spares sy K w (snd (removeWorkspaceBaselineAndWorkState sy root wid w))" for w
  proof -
    obtain x w1 where x: "RemoveP sy (workspaceBaselinePath root wid) w = (x, w1)" by fastforce
    then have "spares sy K w w1" using r by (metis always_def snd_conv)
    then show ?thesis using c x quiet.R_trans
      by (auto simp: removeWorkspaceBaselineAndWorkState_def always_def split: sum.splits read_error.splits)
  qed
  then show ?thesis by (simp add: always_def)
qed

lemma spares_runCmux: "always (spares sy K) (runCmux sy c a b args)"
  by (auto simp: always_def runCmux_def exec_cmux_def spares_def same_env_def tame_def split: prod.splits cmux_result.splits)
    (metis snd_conv)+

lemma spares_CloseWorkspace: "always (spares sy K) (CloseWorkspace sy c i)"
  unfolding CloseWorkspace_def runQuiet_def required_def Let_def
  by (intro quiet.always_intros spares_runCmux)

lemma spares_closeEntries: "always (spares sy K) (closeEntries sy es bad)"
proof (induction es arbitrary: bad)
  case (Cons e es)
  then show ?case
    by (auto simp: Let_def intro!: quiet.always_intros spares_CloseWorkspace split: sum.splits)
qed (simp add: quiet.always_ret)

lemma spares_SaveMapping:
  assumes "IsAbs root" and "K \<subseteq> treeK root"
  shows "always (spares sy K) (SaveMapping root f)"
proof -
  have "always (spares sy K) (\<lambda>w. case RenameFile (comps (MappingPath root @ ''.tmp'')) (comps (MappingPath root)) w of
         (True, w') \<Rightarrow> (Inr (), w') | (False, w') \<Rightarrow> (Inl MapReplaceErr, w'))"
    using treeK_other [OF assms(2)] unfolding comps_MappingPath [OF assms(1)]
    by (intro always_spares) (auto simp: RenameFile_def same_env_def)
  then show ?thesis
    unfolding SaveMapping_def
    by (intro quiet.always_intros spares_MkdirAllP spares_WriteFile)
      (use treeK_other [OF assms(2)] treeK_root [OF assms(2)] in \<open>auto simp: comps_MappingPath [OF assms(1)]\<close>)
qed

lemma spares_closeMapped:
  assumes "IsAbs root" and "K \<subseteq> treeK root"
  shows "always (spares sy K) (closeMappedCMUXWorkspacesBestEffort sy root wid :: (close_error, unit) prog)"
proof -
  have "always (spares sy K) (bindW (closeEntries sy es False) (\<lambda>bad. if bad then ret () else ignore (SaveMapping root f))
      :: (close_error, unit) prog)" for es f
    by (intro quiet.always_intros spares_closeEntries spares_SaveMapping assms)
  then show ?thesis
    unfolding always_def closeMappedCMUXWorkspacesBestEffort_def
    by (auto simp: quiet.R_refl split: sum.splits option.splits)
qed

lemma spares_refreshBaseline:
  assumes "IsAbs root" and "CHR ''/'' \<notin> set wid" and "K \<subseteq> treeK root"
  shows "always (spares sy K) (createOrRefreshWorkspaceBaseline sy root wid now)"
proof -
  have "always (spares sy K) (baselineRepos sy p rs :: (state_error, _) prog)" for p rs
    unfolding baselineRepos_def Let_def
    by (intro quiet.always_intros quiet.map_steps quiet.run)
  then show ?thesis
    unfolding createOrRefreshWorkspaceBaseline_def Let_def
    by (intro quiet.always_intros quiet.list_repos_close spares_saveBaseline spares_clearCache assms)
qed

subsection \<open>Paths of a workspace\<close>

abbreviation wsKey :: "string \<Rightarrow> string \<Rightarrow> key" where "wsKey root wid \<equiv> comps root @ [''workspaces'', wid]"
abbreviation archiveKey :: "string \<Rightarrow> string \<Rightarrow> key" where "archiveKey root wid \<equiv> comps root @ [''archive'', wid]"

lemma ws_paths:
  assumes "IsAbs root" and "plain wid"
  shows "comps (pathJoin [root, ''workspaces'', wid]) = wsKey root wid" "comps (pathJoin [root, ''archive'', wid]) = archiveKey root wid"
    "IsAbs (pathJoin [root, ''workspaces'', wid])" "IsAbs (pathJoin [root, ''archive'', wid])"
    "comps (pathJoin [root, ''archive'']) = comps root @ [''archive'']"
    "pathJoin [root, ''workspaces'', wid, ''repos''] = abs_path (wsKey root wid @ [''repos''])"
proof -
  have pl: "plains [''workspaces'', wid]" "plains [''archive'', wid]" "plains [''archive'']" "plains [''workspaces'', wid, ''repos'']"
    using assms(2) by (simp_all add: plain_def)
  note j = pathJoin_abs [OF assms(1) pl(1)] pathJoin_abs [OF assms(1) pl(2)] pathJoin_abs [OF assms(1) pl(3)] pathJoin_abs [OF assms(1) pl(4)]
  show "comps (pathJoin [root, ''workspaces'', wid]) = wsKey root wid" "comps (pathJoin [root, ''archive'', wid]) = archiveKey root wid"
    "IsAbs (pathJoin [root, ''workspaces'', wid])" "IsAbs (pathJoin [root, ''archive'', wid])"
    "comps (pathJoin [root, ''archive'']) = comps root @ [''archive'']"
    "pathJoin [root, ''workspaces'', wid, ''repos''] = abs_path (wsKey root wid @ [''repos''])"
    using j pl by simp_all
qed

text \<open>Worktrees are removed below \<open>repos\<close> only, when every alias is a plain name.\<close>

definition outsideRepos :: "string \<Rightarrow> string \<Rightarrow> key set" where
  "outsideRepos root wid = {k. \<not> prefix (wsKey root wid @ [''repos'']) k}"

lemma spares_removeOne:
  assumes "\<forall>k\<in>K. \<not> prefix (comps p) k"
  shows "always (spares sy K) (removeOneWorktree sy p)"
proof -
  have a: "always (spares sy K) (bindW (mapErr WtGit (RunBare sy b args)) (\<lambda>_. ret ()))" for b args
    by (intro quiet.always_intros quiet.run_bare)
  have b: "always (spares sy K) (mapErr (\<lambda>_. WtRemove) (RemoveAll p))"
    by (intro quiet.always_intros spares_RemoveAll assms)
  show ?thesis
    using a b unfolding always_def removeOneWorktree_def
    by (auto simp: quiet.R_refl split: sum.splits read_error.splits)
qed

lemma spares_removeReposDir:
  assumes "comps p \<notin> K"
  shows "always (spares sy K) (removeReposDir sy p)"
proof -
  have "always (spares sy K) (ignore (RemoveP sy p) :: (worktree_error, unit) prog)"
    by (intro quiet.always_intros spares_RemoveP assms)
  then show ?thesis
    unfolding always_def removeReposDir_def by (auto simp: quiet.R_refl split: sum.splits read_error.splits)
qed

lemma spares_removeWorktrees:
  assumes "IsAbs root" and "plain wid" and "list_all (\<lambda>r. plain (wr_alias r)) repos" and "K \<subseteq> outsideRepos root wid"
  shows "always (spares sy K) (removeWorkspaceWorktrees sy root wid repos)"
proof -
  have pl: "plains (wsKey root wid @ [''repos''])" using assms(2) by (simp add: plain_def)
  have one: "always (spares sy K) (removeOneWorktree sy (pathJoin [abs_path (wsKey root wid @ [''repos'']), wr_alias r]))"
    if "r \<in> set repos" for r
  proof (rule spares_removeOne)
    have "plain (wr_alias r)" using that assms(3) by (simp add: list_all_iff)
    then have "comps (pathJoin [abs_path (wsKey root wid @ [''repos'']), wr_alias r]) = wsKey root wid @ [''repos'', wr_alias r]"
      using pl by (subst pathJoin_abs_path) simp_all
    then show "\<forall>k\<in>K. \<not> prefix (comps (pathJoin [abs_path (wsKey root wid @ [''repos'']), wr_alias r])) k"
      using assms(4) by (auto simp: outsideRepos_def prefix_def)
  qed
  have "comps (abs_path (wsKey root wid @ [''repos''])) \<notin> K"
    using pl assms(4) by (auto simp: outsideRepos_def)
  then show ?thesis
    unfolding removeWorkspaceWorktrees_def Let_def ws_paths(6) [OF assms(1,2)]
    by (intro quiet.always_intros one spares_removeReposDir)
qed

end
