(* ===== verification/Ws_Lifecycle.thy ===== *)
theory Ws_Lifecycle
  imports Ws_Frame
begin

text \<open>
  What closing, reopening and purging do to the files of a workspace. Git and cmux are arbitrary programs
  that do not touch the workspace outside \<open>repos\<close> nor its archive (\<open>tame\<close>); every system call may fail.
\<close>

subsection \<open>Closing moves the workspace or leaves it\<close>

definition metaTemp :: "world \<Rightarrow> string" where
  "metaTemp w = ''.kra-meta-'' @ nat_digits (rand w) @ ''.tmp''"

text \<open>The files of a workspace that closing must carry over: not the worktrees, not the metadata.\<close>

definition ownFile :: "world \<Rightarrow> key \<Rightarrow> bool" where
  "ownFile w k \<longleftrightarrow> k = [] \<or> (hd k \<noteq> ''repos'' \<and> k \<noteq> [''.kra.meta.json''] \<and> k \<noteq> [metaTemp w])"

definition closeK :: "string \<Rightarrow> string \<Rightarrow> key set" where
  "closeK root wid = {wsKey root wid @ k |k. k = [] \<or> hd k \<noteq> ''repos''} \<union> {archiveKey root wid @ k |k. True}"

definition stayed :: "string \<Rightarrow> string \<Rightarrow> world \<Rightarrow> world \<Rightarrow> bool" where
  "stayed root wid w w' \<longleftrightarrow> (\<forall>k. ownFile w k \<longrightarrow> files w' (wsKey root wid @ k) = files w (wsKey root wid @ k))
     \<and> (\<forall>k. files w' (archiveKey root wid @ k) = files w (archiveKey root wid @ k))"

definition moved :: "string \<Rightarrow> string \<Rightarrow> world \<Rightarrow> world \<Rightarrow> bool" where
  "moved root wid w w' \<longleftrightarrow>
     (\<forall>k. ownFile w k \<longrightarrow> files w' (archiveKey root wid @ k) = files w (wsKey root wid @ k)
        \<and> files w' (wsKey root wid @ k) = None)
     \<and> (\<exists>m. files w' (archiveKey root wid @ [''.kra.meta.json'']) = Some (FileN (renderMeta m)) \<and> wsStatus (Workspace m) = ''archived'')"

definition ownK :: "string \<Rightarrow> string \<Rightarrow> world \<Rightarrow> key set" where
  "ownK root wid w = {wsKey root wid @ k |k. ownFile w k} \<union> {archiveKey root wid @ k |k. True}"

lemma ownK_sub: "ownK root wid w \<subseteq> closeK root wid"
  by (auto simp: ownK_def closeK_def ownFile_def)

lemma closeK_tree: "closeK root wid \<subseteq> treeK root"
  by (auto simp: closeK_def treeK_def)

lemma closeK_outside: "closeK root wid \<subseteq> outsideRepos root wid"
  by (auto simp: closeK_def outsideRepos_def neq_Nil_conv prefix_def)

lemma tame_mono: "K \<subseteq> L \<Longrightarrow> tame sy L \<Longrightarrow> tame sy K"
  by (auto simp: tame_def)

lemma always_spares_mono:
  assumes "always (spares sy L) m" and "K \<subseteq> L" and "tame sy L"
  shows "always (spares sy K) m"
  using assms by (auto simp: always_def spares_def)

lemma writeMeta_other:
  assumes "writeWorkspaceMetaFile p m w = (r, w')" and "IsAbs p"
    and "k \<noteq> comps p @ [''.kra.meta.json'']" and "k \<noteq> comps p @ [metaTemp w]"
  shows "files w' k = files w k" and "same_env w w'"
proof -
  have "files w' k = files w k \<and> same_env w w'"
  proof (cases "TrimSpace p = []")
    case True
    then show ?thesis using assms(1) by (simp add: writeWorkspaceMetaFile_def same_env_def)
  next
    case False
    obtain e where "atomicReplace False ''.kra-meta-'' ''.tmp'' (comps p) (comps p @ [''.kra.meta.json'']) (renderMeta m) w = (e, w')"
      using write_meta_put [OF assms(1,2) False] .
    then show ?thesis
      using atomicReplace_other [of False _ _ _ _ _ w e w' k] atomicReplace_same_env assms(3,4)
      by (auto simp: metaTemp_def tempKey_def)
  qed
  then show "files w' k = files w k" "same_env w w'" by simp_all
qed

lemma writeMeta_target:
  assumes "writeWorkspaceMetaFile p m w = (Inr (), w')" and "IsAbs p"
  shows "files w' (comps p @ [''.kra.meta.json'']) = Some (FileN (renderMeta m))"
proof -
  have "TrimSpace p \<noteq> []" using assms(1) by (auto simp: writeWorkspaceMetaFile_def)
  then obtain e where "atomicReplace False ''.kra-meta-'' ''.tmp'' (comps p) (comps p @ [''.kra.meta.json'']) (renderMeta m) w = (e, w')"
    "Inr () = (case e of None \<Rightarrow> Inr () | Some x \<Rightarrow> Inl (MetaWriteErr x))"
    using write_meta_put [OF assms] by metis
  then show ?thesis using meta_path.put_target by (fastforce split: option.splits)
qed

lemma metaTemp_env: "same_env w w' \<Longrightarrow> metaTemp w' = metaTemp w" "same_env w w' \<Longrightarrow> ownFile w' = ownFile w"
  by (auto simp: same_env_def metaTemp_def ownFile_def fun_eq_iff)

lemma same_env_trans: "same_env u v \<Longrightarrow> same_env v w \<Longrightarrow> same_env u w"
  by (simp add: same_env_def)

lemma stayed_trans: "stayed root wid u v \<Longrightarrow> stayed root wid v w \<Longrightarrow> same_env u v \<Longrightarrow> stayed root wid u w"
  by (simp add: stayed_def metaTemp_env)

lemma stayed_moved: "stayed root wid u v \<Longrightarrow> moved root wid v w \<Longrightarrow> same_env u v \<Longrightarrow> moved root wid u w"
  by (auto simp: stayed_def moved_def metaTemp_env)

lemma spares_stayed:
  assumes "always (spares sy (closeK root wid)) m" and "m w = (r, w')" and "tame sy (closeK root wid)"
  shows "stayed root wid w w'" and "same_env w w'"
  using sparesD [OF assms] spares_env [OF assms(1,2)]
  by (auto simp: stayed_def closeK_def ownFile_def)

lemma writeMeta_stayed:
  assumes "writeWorkspaceMetaFile (pathJoin [root, ''workspaces'', wid]) m w = (r, w')" and "IsAbs root" and "plain wid"
  shows "stayed root wid w w'" and "same_env w w'"
proof -
  note p = ws_paths [OF assms(2,3)]
  show "same_env w w'" using writeMeta_other(2) [OF assms(1) p(3), of "[]"] by simp
  show "stayed root wid w w'"
    using writeMeta_other(1) [OF assms(1) p(3)] unfolding p(1) stayed_def ownFile_def by simp
qed

lemma onErr_result:
  assumes "onErr m h g w = (r, w')"
  obtains v where "m w = (Inr v, w')" "r = Inr v" | e u where "m w = (Inl e, u)" "r = Inl (g e)" "w' = snd (h e u)"
  using assms by (auto simp: onErr_def split: prod.splits sum.splits)

lemma bindW_result:
  assumes "bindW m f w = (r, w')"
  obtains e where "m w = (Inl e, w')" "r = Inl e" | v u where "m w = (Inr v, u)" "f v u = (r, w')"
  using assms by (auto simp: bindW_def split: prod.splits sum.splits)

lemma ignore_writeMeta_stayed:
  assumes "IsAbs root" and "plain wid"
  shows "stayed root wid w (snd (ignore (writeWorkspaceMetaFile (pathJoin [root, ''workspaces'', wid]) m) w))"
    and "same_env w (snd (ignore (writeWorkspaceMetaFile (pathJoin [root, ''workspaces'', wid]) m) w))"
proof -
  obtain r w' where "writeWorkspaceMetaFile (pathJoin [root, ''workspaces'', wid]) m w = (r, w')" by fastforce
  then show "stayed root wid w (snd (ignore (writeWorkspaceMetaFile (pathJoin [root, ''workspaces'', wid]) m) w))"
    "same_env w (snd (ignore (writeWorkspaceMetaFile (pathJoin [root, ''workspaces'', wid]) m) w))"
    using writeMeta_stayed [OF _ assms] by (auto simp: ignore_def)
qed

lemma onErr_stayed:
  assumes "onErr m (\<lambda>_. ignore (writeWorkspaceMetaFile (pathJoin [root, ''workspaces'', wid]) orig)) g w = (r, w')"
    and "\<And>x u. m w = (x, u) \<Longrightarrow> stayed root wid w u \<and> same_env w u" and "IsAbs root" and "plain wid"
  shows "stayed root wid w w' \<and> same_env w w'"
  using assms(1)
proof (cases rule: onErr_result)
  case (1 v)
  then show ?thesis using assms(2) by blast
next
  case (2 e u)
  then have s: "stayed root wid w u" "same_env w u" using assms(2) by blast+
  note i = ignore_writeMeta_stayed [OF assms(3,4), of u orig]
  from 2(3) show ?thesis using stayed_trans [OF s(1) i(1) s(2)] same_env_trans [OF s(2) i(2)] by simp
qed

lemma rename_moved:
  assumes "RenameTree (pathJoin [root, ''workspaces'', wid]) (pathJoin [root, ''archive'', wid]) w = (Inr (), w')"
    and "IsAbs root" and "plain wid" and "files w (wsKey root wid @ [''.kra.meta.json'']) = Some (FileN (renderMeta m))"
    and "wsStatus (Workspace m) = ''archived''"
  shows "moved root wid w w'" and "same_env w w'"
proof -
  have f: "files w' = move_tree (files w) (wsKey root wid) (archiveKey root wid)" and e: "same_env w w'"
    using assms(1) unfolding RenameTree_def Let_def ws_paths [OF assms(2,3)] by (auto simp: same_env_def split: if_splits)
  have "move_tree (files w) (wsKey root wid) (archiveKey root wid) (archiveKey root wid @ k) = files w (wsKey root wid @ k)" for k
    by (rule move_tree_dst)
  moreover have "move_tree (files w) (wsKey root wid) (archiveKey root wid) (wsKey root wid @ k) = None" for k
    by (rule move_tree_src) (auto simp: prefix_def)
  ultimately show "moved root wid w w'" using assms(4,5) unfolding moved_def f by auto
  show "same_env w w'" by (rule e)
qed

text \<open>The outcome of a close: an error of the last commit comes after the move, every other error before it.\<close>

definition outcome :: "string \<Rightarrow> string \<Rightarrow> world \<Rightarrow> close_error + 'a \<Rightarrow> world \<Rightarrow> bool" where
  "outcome root wid w r w' \<longleftrightarrow>
     (case r of Inr _ \<Rightarrow> moved root wid w w' | Inl (CPost _) \<Rightarrow> moved root wid w w' | Inl _ \<Rightarrow> stayed root wid w w') \<and> same_env w w'"

lemma outcome_trans:
  assumes s: "stayed root wid w u" "same_env w u" and o: "outcome root wid u r w'"
  shows "outcome root wid w r w'"
proof -
  have e: "same_env w w'" using o s(2) same_env_trans by (auto simp: outcome_def)
  have m: "moved root wid u w' \<Longrightarrow> moved root wid w w'" "stayed root wid u w' \<Longrightarrow> stayed root wid w w'"
    using stayed_moved [OF s(1) _ s(2)] stayed_trans [OF s(1) _ s(2)] by blast+
  show ?thesis using o e m by (auto simp: outcome_def split: sum.splits close_error.splits)
qed

lemma outcome_bind:
  assumes "bindW m f w = (r, w')" and "\<And>x u. m w = (x, u) \<Longrightarrow> stayed root wid w u \<and> same_env w u"
    and "\<And>e u. m w = (Inl e, u) \<Longrightarrow> \<forall>c. e \<noteq> CPost c" and "\<And>v u. m w = (Inr v, u) \<Longrightarrow> f v u = (r, w') \<Longrightarrow> outcome root wid u r w'"
  shows "outcome root wid w r w'"
  using assms(1)
proof (cases rule: bindW_result)
  case (1 e)
  then show ?thesis using assms(2,3) by (fastforce simp: outcome_def split: close_error.splits)
next
  case (2 v u)
  then show ?thesis using assms(2,4) outcome_trans by blast
qed

lemma outcome_onErr:
  assumes "bindW (onErr m (\<lambda>_. ignore (writeWorkspaceMetaFile (pathJoin [root, ''workspaces'', wid]) orig)) g) f w = (r, w')"
    and "IsAbs root" and "plain wid" and "\<And>e c. g e \<noteq> CPost c"
    and "\<And>x u. m w = (x, u) \<Longrightarrow> stayed root wid w u \<and> same_env w u"
    and "\<And>v u. m w = (Inr v, u) \<Longrightarrow> f v u = (r, w') \<Longrightarrow> outcome root wid u r w'"
  shows "outcome root wid w r w'"
proof (rule outcome_bind [OF assms(1)])
  let ?h = "\<lambda>_. ignore (writeWorkspaceMetaFile (pathJoin [root, ''workspaces'', wid]) orig)"
  show "stayed root wid w u \<and> same_env w u" if "onErr m ?h g w = (x, u)" for x u
    using onErr_stayed [OF that assms(5) assms(2,3)] .
  show "\<forall>c. e \<noteq> CPost c" if "onErr m ?h g w = (Inl e, u)" for e u
    using that by (cases rule: onErr_result) (auto simp: assms(4))
  show "outcome root wid u r w'" if "onErr m ?h g w = (Inr v, u)" and "f v u = (r, w')" for v u
    using assms(6) that by simp
qed

lemma archiveWorkspace_outcome:
  assumes "archiveWorkspace sy root wid repos orig upd w = (r, w')" and "IsAbs root" and "plain wid"
    and "list_all (\<lambda>r. plain (wr_alias r)) repos" and "tame sy (closeK root wid)" and "wsStatus (Workspace upd) = ''archived''"
  shows "outcome root wid w r w'" and "\<forall>c. r \<noteq> Inl (CPost c)"
proof -
  note ax = assms(2,3)
  note p = ws_paths [OF ax]
  let ?ws = "pathJoin [root, ''workspaces'', wid]" and ?ar = "pathJoin [root, ''archive'', wid]"
  have rm: "stayed root wid w u \<and> same_env w u" if "removeWorkspaceWorktrees sy root wid repos w = (x, u)" for x u w
    using spares_stayed [OF spares_removeWorktrees [OF ax assms(4) closeK_outside] that assms(5)] by simp
  have wr: "stayed root wid w u \<and> same_env w u" if "writeWorkspaceMetaFile ?ws m w = (x, u)" for m x u w
    using writeMeta_stayed [OF that ax] by simp
  have mk: "stayed root wid w u \<and> same_env w u \<and> files u (wsKey root wid @ k) = files w (wsKey root wid @ k)"
    if "MkdirAllP (pathJoin [root, ''archive'']) w = (x, u)" for x u k w
    using that unfolding MkdirAllP_def MkdirAll_def mkdirs_def p
    by (auto simp: stayed_def same_env_def prefix_def split: if_splits)
  have mv: "outcome root wid w r w'"
    if r: "onErr (RenameTree ?ws ?ar) (\<lambda>_. ignore (writeWorkspaceMetaFile ?ws orig)) (\<lambda>_. CRename) w = (r, w')"
      and m: "files w (wsKey root wid @ [''.kra.meta.json'']) = Some (FileN (renderMeta upd))" for w
    using r
  proof (cases rule: onErr_result)
    case (1 v)
    then show ?thesis using rename_moved [OF _ ax m assms(6), of w'] by (simp add: outcome_def)
  next
    case (2 e u)
    then have "u = w" by (auto simp: RenameTree_def Let_def split: if_splits)
    then show ?thesis using 2 ignore_writeMeta_stayed [OF ax, of w orig] by (simp add: outcome_def)
  qed
  show "outcome root wid w r w'"
    using assms(1) unfolding archiveWorkspace_def Let_def
    by (elim outcome_onErr [OF _ ax] mv) (use rm wr mk writeMeta_target [OF _ p(3)] p(1) in auto)
  show "\<forall>c. r \<noteq> Inl (CPost c)"
    using assms(1) unfolding archiveWorkspace_def Let_def
    by (auto simp: bindW_def onErr_def split: prod.splits sum.splits)
qed

lemma closeEntries_total: "\<exists>b u. closeEntries sy es bad w = (Inr b :: close_error + bool, u)"
proof (induction es arbitrary: bad w)
  case (Cons e es)
  obtain r v where "CloseWorkspace sy NewClient (TrimSpace (CMUXWorkspaceID e)) w = (r, v)" by fastforce
  then show ?case using Cons by (cases r) (auto simp: Let_def bindW_def attempt_def)
qed (simp add: ret_def)

lemma closeMapped_total: "\<exists>u. closeMappedCMUXWorkspacesBestEffort sy root wid w = (Inr () :: close_error + unit, u)"
proof -
  have "\<exists>u. bindW (closeEntries sy es False) (\<lambda>bad. if bad then ret () else ignore (SaveMapping root f)) w = (Inr () :: close_error + unit, u)" for es f w
    using closeEntries_total [of sy es False w] by (auto simp: bindW_def ret_def ignore_def)
  then show ?thesis
    by (auto simp: closeMappedCMUXWorkspacesBestEffort_def split: sum.splits option.splits)
qed

lemma moved_after:
  assumes "moved root wid w u" and "same_env w u" and "always (spares sy (closeK root wid)) m" and "m u = (r, w')"
    and "tame sy (closeK root wid)"
  shows "moved root wid w w'" and "same_env w w'"
proof -
  have k: "k \<in> closeK root wid \<Longrightarrow> files w' k = files u k" for k using sparesD [OF assms(3-5)] .
  have "files w' (archiveKey root wid @ k) = files u (archiveKey root wid @ k)" for k
    by (rule k) (auto simp: closeK_def)
  moreover have "files w' (wsKey root wid @ k) = files u (wsKey root wid @ k)" if "ownFile w k" for k
    by (rule k) (use that in \<open>auto simp: closeK_def ownFile_def\<close>)
  ultimately show "moved root wid w w'" using assms(1) by (simp add: moved_def)
  show "same_env w w'" using spares_env [OF assms(3,4)] same_env_trans assms(2) by blast
qed

lemma closeFinish_outcome:
  assumes "closeFinish sy root wid doCommit fs pre u = (r, w')"
    and "moved root wid w u" and "same_env w u" and "IsAbs root" and "plain wid" and "tame sy (closeK root wid)"
  shows "outcome root wid w r w'"
proof -
  have slash: "CHR ''/'' \<notin> set wid" using assms(5) by (simp add: plain_def)
  have "always (spares sy (closeK root wid)) (closeFinish sy root wid doCommit fs pre)"
    unfolding closeFinish_def
    by (intro quiet.always_intros quiet.commit_routines spares_removeBaseline spares_closeMapped closeK_tree assms(4) slash)
  from moved_after [OF assms(2,3) this assms(1,6)] have "moved root wid w w'" "same_env w w'" .
  moreover have "\<exists>c. e = CPost c" if r: "r = Inl e" for e
  proof -
    obtain f u1 where "bindW (if doCommit then mapErr CPost (commitArchiveChange sy root wid fs) else ret []) (\<lambda>postSHA.
        bindW (closeMappedCMUXWorkspacesBestEffort sy root wid) (\<lambda>_. ret (f postSHA))) u1 = (r, w')"
      using assms(1) unfolding closeFinish_def by (simp add: bindW_def [of "ignore _"] ignore_def)
    then show ?thesis
    proof (cases rule: bindW_result)
      case (1 e')
      then show ?thesis using r by (auto simp: mapErr_def ret_def split: if_splits prod.splits sum.splits)
    next
      case (2 v u2)
      then show ?thesis using r closeMapped_total [of sy root wid u2] by (auto simp: bindW_def ret_def)
    qed
  qed
  ultimately show ?thesis by (auto simp: outcome_def split: sum.splits close_error.splits)
qed

lemma closePrepare_spares: "always (spares sy K) (closePrepare sy root wid doCommit)"
  unfolding closePrepare_def
  by (intro quiet.always_intros quiet.list_repos_close quiet.build_meta quiet.commit_routines)

lemma closePrepare_result:
  assumes "closePrepare sy root wid doCommit w = (Inr (repos, (orig, upd), fs, pre), w')"
  shows "closeGuards root wid w = Inr ()" and "\<exists>u. listWorkspaceReposForClose sy root wid w = (Inr repos, u)"
    and "wsStatus (Workspace upd) = ''archived''"
  using assms by (auto simp: closePrepare_def bindW_Inr buildWorkspaceMetaForClose_def Let_def)

lemma closeGuards_error: "closeGuards root wid w = Inl e \<Longrightarrow> e \<noteq> CPost c"
  by (auto simp: closeGuards_def Let_def split: sum.splits read_error.splits node.splits if_splits)

lemma closePrepare_error:
  assumes "closePrepare sy root wid doCommit w = (Inl e, w')"
  shows "e \<noteq> CPost c"
proof -
  have "\<lbrakk>bindW m f w = (Inl e, w'); \<And>x u. m w = (Inl x, u) \<Longrightarrow> x \<noteq> CPost c; \<And>v u. f v u = (Inl e, w') \<Longrightarrow> e \<noteq> CPost c\<rbrakk> \<Longrightarrow> e \<noteq> CPost c"
    for m :: "(close_error, 'b) prog" and f :: "'b \<Rightarrow> (close_error, 'c) prog" and w
    by (erule bindW_result) auto
  note step = this
  show ?thesis
    using assms unfolding closePrepare_def
    by (elim step)
      (auto simp: look_def mapErr_def ret_def closeGuards_error split: prod.splits sum.splits if_splits)
qed

lemma closeWorkspace_outcome:
  assumes "closeWorkspace sy root wid doCommit w = (r, w')" and "IsAbs root" and "plain wid"
    and "\<And>repos u. listWorkspaceReposForClose sy root wid w = (Inr repos, u) \<Longrightarrow> list_all (\<lambda>r. plain (wr_alias r)) repos"
    and "tame sy (closeK root wid)"
  shows "outcome root wid w r w'"
proof -
  let ?k = "\<lambda>(repos, (originalMeta, updatedMeta), expectedFiles, preSHA).
     bindW (archiveWorkspace sy root wid repos originalMeta updatedMeta) (\<lambda>_.
       closeFinish sy root wid doCommit expectedFiles preSHA)"
  have k: "outcome root wid u r w'" if p: "closePrepare sy root wid doCommit w = (Inr v, u)" and f: "?k v u = (r, w')" for v u
  proof -
    obtain repos orig upd fs pre where v: "v = (repos, (orig, upd), fs, pre)" by (metis prod.exhaust)
    note res = closePrepare_result [OF p [unfolded v]]
    have al: "list_all (\<lambda>r. plain (wr_alias r)) repos" using res(2) assms(4) by blast
    note arch = archiveWorkspace_outcome [OF _ assms(2,3) al assms(5) res(3)]
    from f have "bindW (archiveWorkspace sy root wid repos orig upd) (\<lambda>_. closeFinish sy root wid doCommit fs pre) u = (r, w')"
      by (simp add: v)
    then show ?thesis
    proof (cases rule: bindW_result)
      case (1 e)
      then show ?thesis using arch [OF 1(1)] by (auto simp: outcome_def split: close_error.splits)
    next
      case (2 x u1)
      then show ?thesis
        using arch(1) [OF 2(1)] closeFinish_outcome [OF 2(2) _ _ assms(2,3,5)] by (simp add: outcome_def)
    qed
  qed
  show ?thesis
  proof (rule outcome_bind [OF assms(1) [unfolded closeWorkspace_def]], goal_cases)
    case (1 x u)
    then show ?case using spares_stayed [OF closePrepare_spares 1 assms(5)] by simp
  next
    case (2 e u)
    then show ?case using closePrepare_error by metis
  next
    case (3 v u)
    then show ?case by (rule k)
  qed
qed

subsection \<open>The risk gate\<close>

lemma details_clean:
  assumes "collectWorkspaceRiskDetails sy root ids w = (Inr items, w')" and "\<not> hasNonCleanRisk items"
  shows "map detailID items = ids \<and> list_all (\<lambda>it. list_all (\<lambda>(a, s). s = Clean_risk) (perRepo it)) items"
  using assms
proof (induction ids arbitrary: w items)
  case Nil
  then show ?case by (simp add: collectWorkspaceRiskDetails_def)
next
  case (Cons i ids)
  then obtain repos u plans v rest where
    "listWorkspaceReposForClose sy root i w = (Inr repos, u)"
    "collectCloseRepoPlanDetails sy root i repos u = (Inr plans :: state_error + closeRepoPlanDetail list, v)"
    and r: "collectWorkspaceRiskDetails sy root ids v = (Inr rest, w')"
    and it: "items = \<lparr>detailID = i, detailRisk = Aggregate (map planState plans),
        perRepo = map (\<lambda>p. (planAlias p, planState p)) plans, repoPlans = plans\<rparr> # rest"
    by (auto simp: collectWorkspaceRiskDetails_def bindW_Inr buildWorkspaceRiskFromPlans_def)
  have "\<not> hasNonCleanRisk rest" "Aggregate (map planState plans) = Clean_risk"
    using Cons.prems(2) it by (simp_all add: hasNonCleanRisk_def)
  with Cons.IH [OF r] it show ?case
    by (auto simp: Aggregate_clean_iff list_all_iff)
qed

text \<open>The working directory is changed first when it is inside the workspace; no file is touched by that.\<close>

lemma shift_files: "(if b then Chdir p w else (Inr (), w)) = (r, u) \<Longrightarrow> files u = files w"
  by (auto simp: Chdir_def split: if_splits)

definition inspectedClean :: "sys \<Rightarrow> key set \<Rightarrow> world \<Rightarrow> string \<Rightarrow> string \<Rightarrow> bool" where
  "inspectedClean sy K w root wid \<longleftrightarrow> (\<exists>u v items. (\<forall>k\<in>K. files u k = files w k)
     \<and> collectWorkspaceRiskDetails sy root [wid] u = (Inr items, v)
     \<and> list_all (\<lambda>it. list_all (\<lambda>(a, s). s = Clean_risk) (perRepo it)) items)"

lemma inspectedCleanI:
  assumes "collectWorkspaceRiskDetails sy root [wid] u = (Inr items, v)" and "\<not> hasNonCleanRisk items" and "files u = files w"
  shows "inspectedClean sy K w root wid"
  unfolding inspectedClean_def
  by (intro exI [of _ u] exI [of _ v] exI [of _ items]) (use assms details_clean [OF assms(1,2)] in simp)

lemma close_json_gate:
  assumes "runWSCloseJSON sy wid False wd root doCommit dryRun w = (r, w')" and "tame sy K"
  shows "(\<forall>k\<in>K. files w' k = files w k) \<or> (\<not> dryRun \<and> inspectedClean sy K w root wid)"
proof -
  let ?shift = "isPathInside sy w (pathJoin [root, ''workspaces'', wid]) wd"
  obtain x u where x: "(if ?shift then Chdir root w else (Inr (), w)) = (x, u)" by fastforce
  note f = shift_files [OF x]
  obtain y v where y: "collectWorkspaceRiskDetails sy root [wid] u = (y, v)" by fastforce
  have fv: "\<forall>k\<in>K. files v k = files w k" using sparesD [OF quiet.risk_details y assms(2)] f by simp
  show ?thesis
  proof (cases "\<exists>items. x = Inr () \<and> y = Inr items \<and> \<not> hasNonCleanRisk items \<and> \<not> dryRun")
    case True
    then show ?thesis using y f inspectedCleanI by fastforce
  next
    case False
    then have "w' = u \<or> w' = v"
      using assms(1) x y unfolding runWSCloseJSON_def Let_def by (auto split: sum.splits if_splits)
    then show ?thesis using f fv by auto
  qed
qed

lemma flow_gate:
  assumes "runWorkspaceSelectRiskResultFlow (ret ids) (Some collect) (Some confirm) f w = (r, w')"
    and "collect ids w = (x, u)" and "x \<noteq> Inr False"
    and "\<And>u. \<exists>y. confirm u = (y, u) \<and> y \<noteq> Inr True"
  shows "w' = u \<and> (\<exists>e. r = Inl e)"
  using assms
  by (auto simp: runWorkspaceSelectRiskResultFlow_def flowRisk_def bindW_def mapErr_def ret_def throw_def split: prod.splits sum.splits if_splits)
    (metis Inr_inject fst_conv snd_conv)+

lemma close_human_gate:
  assumes "runWSCloseHuman sy ans wid wd root doCommit w = (r, w')" and "tame sy K" and "confirmRiskProceed ans \<noteq> Inr True"
  shows "(\<forall>k\<in>K. files w' k = files w k) \<or> inspectedClean sy K w root wid"
proof -
  let ?shift = "isPathInside sy w (pathJoin [root, ''workspaces'', wid]) wd"
  let ?collect = "\<lambda>ids. bindW (mapErr RiskErr (collectWorkspaceRiskDetails sy root ids)) (\<lambda>items. ret (hasNonCleanRisk items))"
  let ?confirm = "look (\<lambda>_. case confirmRiskProceed ans of Inl _ \<Rightarrow> Inl AnswerErr | Inr b \<Rightarrow> Inr b)"
  let ?apply = "\<lambda>i. mapErr CloseErr (bindW (closeWorkspace sy root i doCommit) (\<lambda>_. ret ()))"
  obtain x u where x: "(if ?shift then Chdir root w else (Inr (), w)) = (x, u)" by fastforce
  note f = shift_files [OF x]
  have al: "always (spares sy K) (?collect [wid])"
    by (intro quiet.always_intros quiet.risk_details)
  obtain y v where y: "?collect [wid] u = (y, v)" by fastforce
  have fv: "\<forall>k\<in>K. files v k = files w k" using sparesD [OF al y assms(2)] f by simp
  obtain z t where z: "runWorkspaceSelectRiskResultFlow (ret [wid]) (Some ?collect) (Some ?confirm) ?apply u = (z, t)" by fastforce
  have c: "\<exists>y. ?confirm u = (y, u) \<and> y \<noteq> Inr True" for u
    using assms(3) by (auto simp: look_def split: sum.splits)
  show ?thesis
  proof (cases "y = Inr False")
    case True
    then obtain items where "collectWorkspaceRiskDetails sy root [wid] u = (Inr items, v)" "\<not> hasNonCleanRisk items"
      using y by (auto simp: bindW_Inr)
    then show ?thesis using inspectedCleanI f by blast
  next
    case False
    from flow_gate [OF z y this c] have "t = v" "\<exists>e. z = Inl e" by auto
    then have "w' = u \<or> w' = v"
      using assms(1) x z unfolding runWSCloseHuman_def Let_def by (auto split: sum.splits if_splits)
    then show ?thesis using f fv by auto
  qed
qed

lemma parse_no_force:
  "parseCloseFlags as f = Inr (g, rest) \<Longrightarrow> ''--force'' \<notin> set as \<Longrightarrow> cfForce g = cfForce f"
proof (induction as arbitrary: f rule: length_induct)
  case (1 as)
  have ih: "cfForce g = cfForce f" if "parseCloseFlags bs f = Inr (g, rest)" "length bs < length as" "set bs \<subseteq> set as" for bs f
    using 1(1,3) that by blast
  show ?case
  proof (cases as)
    case (Cons a bs)
    have b: "cfForce g = cfForce f" if "parseCloseFlags bs f' = Inr (g, rest)" "cfForce f' = cfForce f" for f'
      using ih [OF that(1)] Cons that(2) by auto
    have c: "cfForce g = cfForce f" if "parseCloseFlags cs f' = Inr (g, rest)" "bs = v # cs" "cfForce f' = cfForce f" for f' cs v
      using ih [OF that(1)] Cons that(2,3) by auto
    have "a \<noteq> ''--force''" using 1(3) Cons by auto
    moreover have "parseCloseFlags (a # bs) f = Inr (g, rest)" using 1(2) Cons by simp
    ultimately show ?thesis
      unfolding parseCloseFlags.simps
      by (simp only: split: if_split_asm list.split_asm)
        (erule b, simp (no_asm) | erule (1) c, simp (no_asm) | erule notE [OF Inl_not_Inr] | drule Inr_inject, simp only: prod.inject)+
  qed (use 1 in simp)
qed

subsection \<open>A workspace to close\<close>

definition close_world :: world where
  "close_world = ws_world\<lparr>files := (files ws_world)([''r'', ''workspaces'', ''T-1'', ''.kra.meta.json''] \<mapsto> FileN (renderMeta demo_meta))\<rparr>"

definition archived_meta :: meta_file where
  "archived_meta = demo_meta\<lparr>ReposRestore := [], Workspace := (Workspace demo_meta)\<lparr>wsStatus := ''archived'', UpdatedAt := 100\<rparr>\<rparr>"

definition archived_world :: world where
  "archived_world = snd (archiveWorkspace demo_sys ''/r'' ''T-1'' [] demo_meta archived_meta close_world)"

lemma demo_path: "pathJoin [''/r'', ''workspaces'', ''T-1''] = ''/r/workspaces/T-1''" "TrimSpace ''/r/workspaces/T-1'' \<noteq> []"
  "comps (metaPath ''/r/workspaces/T-1'') = [''r'', ''workspaces'', ''T-1'', ''.kra.meta.json'']"
  "comps (pathJoin [''/r/workspaces/T-1'', ''repos'']) = [''r'', ''workspaces'', ''T-1'', ''repos'']"
  by code_simp+

lemma load_rendered:
  assumes "files w (comps (metaPath p)) = Some (FileN (renderMeta m))" and "\<not> fails w (SRead (comps (metaPath p)))"
    and "wf_meta m" and "TrimSpace p \<noteq> []"
  shows "loadWorkspaceMetaFile p w = Inr m"
  using assms by (simp add: loadWorkspaceMetaFile_def ReadFile_def parse_renderMeta wf_meta_def)

lemma demo_load: "loadWorkspaceMetaFile ''/r/workspaces/T-1'' close_world = Inr demo_meta"
proof (rule load_rendered)
  show "wf_meta demo_meta" by code_simp
qed (simp_all add: demo_path close_world_def ws_world_def demo_world_def)

lemma demo_list: "listWorkspaceReposForClose demo_sys ''/r'' ''T-1'' close_world = (Inr [], close_world)"
proof -
  have "ReadDir demo_sys close_world (pathJoin [''/r/workspaces/T-1'', ''repos'']) = Inl NotExist" by code_simp
  moreover have "ReposRestore demo_meta = []" by code_simp
  ultimately show ?thesis
    by (simp add: listWorkspaceReposForClose_def listWorkspaceReposFromFilesystem_def demo_path demo_load Let_def
        restoreByAlias_def bindW_def ret_def)
qed

lemma demo_prepare: "closePrepare demo_sys ''/r'' ''T-1'' False close_world = (Inr ([], (demo_meta, archived_meta), [''notes.md''], []), close_world)"
proof -
  have "closeGuards ''/r'' ''T-1'' close_world = Inr ()" by code_simp
  moreover have "listWorkspaceNonRepoFiles demo_sys close_world ''/r/workspaces/T-1'' = Inr [''notes.md'']" by code_simp
  moreover have "clock close_world = 100" by (simp add: close_world_def ws_world_def demo_world_def)
  ultimately show ?thesis
    by (simp add: closePrepare_def buildWorkspaceMetaForClose_def bindW_def look_def mapErr_def ret_def demo_list demo_load demo_path
        archived_meta_def Let_def)
qed

lemma demo_close: "fst (closeWorkspace demo_sys ''/r'' ''T-1'' False close_world) = Inr \<lparr>CommitEnabled = False, PreCommitSHA = [], PostCommitSHA = []\<rparr>"
proof -
  have "fst (archiveWorkspace demo_sys ''/r'' ''T-1'' [] demo_meta archived_meta close_world) = Inr ()" by code_simp
  then have "archiveWorkspace demo_sys ''/r'' ''T-1'' [] demo_meta archived_meta close_world = (Inr (), archived_world)"
    unfolding archived_world_def by (metis prod.collapse)
  moreover have "fst (closeFinish demo_sys ''/r'' ''T-1'' False [''notes.md''] [] archived_world)
      = Inr \<lparr>CommitEnabled = False, PreCommitSHA = [], PostCommitSHA = []\<rparr>" by code_simp
  ultimately show ?thesis by (simp add: closeWorkspace_def demo_prepare bindW_def)
qed

lemma demo_tame: "tame demo_sys K"
  by (simp add: tame_def demo_sys_def)

subsection \<open>Properties of closing\<close>



text \<open>
  C6: \<open>kra ws close\<close> without \<open>--force\<close> and without a yes from the user changes no file that git leaves alone,
  unless it is not a dry run and the inspection just before found every repository of the workspace clean.
\<close>

theorem close_risk_gate:
  assumes "runWSClose sy ans args w = (r, w')" and "''--force'' \<notin> set args" and "confirmRiskProceed ans \<noteq> Inr True"
    and "tame sy K"
  shows "(\<forall>k\<in>K. files w' k = files w k)
    \<or> (\<exists>f rest wd root wid. parseCloseFlags args closeDefaults = Inr (f, rest) \<and> \<not> cfDryRun f \<and> getwd w = Some wd
         \<and> resolveRoot w = Inr root \<and> bindR (closeTarget f rest root wd) (\<lambda>direct. closeTargetID f direct root wd) = Inr wid
         \<and> inspectedClean sy K w root wid)"
proof (cases "parseCloseFlags args closeDefaults")
  case (Inr p)
  obtain f rest where p: "p = (f, rest)" by fastforce
  have force: "cfForce f = False" using parse_no_force Inr p assms(2) by (fastforce simp: closeDefaults_def)
  show ?thesis
  proof (rule ccontr)
    assume c: "\<not> ?thesis"
    then have ne: "w' \<noteq> w" by auto
    obtain wd root i x u where u: "(if cfCommit f then ensureRootGitWorktree sy root else ret ()) w = (x, u)"
      and root: "resolveRoot w = Inr root" and wd: "getwd w = Some wd" and dry: "cfDryRun f \<longrightarrow> cfFormat f = ''json''"
      and fin: "w' = u \<or> bindR (closeTarget f rest root wd) (\<lambda>direct. closeTargetID f direct root wd) = Inr i
        \<and> ((cfFormat f = ''json'' \<and> runWSCloseJSON sy i (cfForce f) wd root (cfCommit f) (cfDryRun f) u = (r, w'))
        \<or> (cfFormat f \<noteq> ''json'' \<and> runWSCloseHuman sy ans i wd root (cfCommit f) u = (r, w')))"
      using assms(1) Inr p ne unfolding runWSClose_def ret_def
      by (auto split: if_splits option.splits sum.splits prod.splits) blast+
    have fu: "\<forall>k\<in>K. files u k = files w k"
      using sparesD [OF quiet.always_if [OF quiet.root_worktree quiet.always_ret] u assms(4)] by blast
    then have ins: "inspectedClean sy K w root i" if "inspectedClean sy K u root i"
      using that unfolding inspectedClean_def by metis
    from fin fu c have "bindR (closeTarget f rest root wd) (\<lambda>direct. closeTargetID f direct root wd) = Inr i
      \<and> \<not> cfDryRun f \<and> inspectedClean sy K u root i"
      using close_json_gate [OF _ assms(4), of i wd root "cfCommit f" "cfDryRun f" u r w']
        close_human_gate [OF _ assms(4,3), of i wd root "cfCommit f" u r w'] dry force
      by auto
    with ins c root wd Inr p show False by blast
  qed
qed (use assms(1) in \<open>auto simp: runWSClose_def\<close>)

theorem close_risk_gate_witness:
  "\<forall>k. files (snd (runWSClose demo_sys (Inl ()) [''--format=json'', ''--dry-run'', ''T-1''] close_world)) k = files close_world k"
proof -
  let ?args = "[''--format=json'', ''--dry-run'', ''T-1'']"
  have "(case parseCloseFlags ?args closeDefaults of Inr (f, _) \<Rightarrow> cfDryRun f | _ \<Rightarrow> True)" by code_simp
  moreover have "''--force'' \<notin> set ?args" by simp
  moreover have "confirmRiskProceed (Inl ()) \<noteq> Inr True" by (simp add: confirmRiskProceed_def)
  ultimately have "\<forall>k\<in>UNIV. files (snd (runWSClose demo_sys (Inl ()) ?args close_world)) k = files close_world k"
    using close_risk_gate [of demo_sys "Inl ()" ?args close_world _ _ UNIV, OF surjective_pairing] demo_tame by auto
  then show ?thesis by simp
qed



end
