(* ===== verification/Ws_Archive_Laws.thy ===== *)
theory Ws_Archive_Laws
  imports Ws_Lifecycle
begin

text \<open>
  Reopening and purging: reopening moves a workspace back or leaves the archive as it was, and purging deletes
  an archived workspace only, and never a locked one.
\<close>

subsection \<open>Reopening\<close>

text \<open>The files a failed reopen must leave in the archive: not the worktrees, not a temporary of the metadata.\<close>

definition keptFile :: "world \<Rightarrow> key \<Rightarrow> bool" where
  "keptFile w k \<longleftrightarrow> k = [] \<or> (hd k \<noteq> ''repos'' \<and> k \<noteq> [metaTemp w])"

definition reopenK :: "string \<Rightarrow> string \<Rightarrow> key set" where
  "reopenK root wid = closeK root wid \<union> {comps root @ [''archive'']}"

definition archiveKept :: "string \<Rightarrow> string \<Rightarrow> world \<Rightarrow> world \<Rightarrow> bool" where
  "archiveKept root wid w w' \<longleftrightarrow>
     (\<forall>k. keptFile w k \<longrightarrow> files w' (archiveKey root wid @ k) = files w (archiveKey root wid @ k))"

definition restored :: "string \<Rightarrow> string \<Rightarrow> world \<Rightarrow> world \<Rightarrow> bool" where
  "restored root wid w w' \<longleftrightarrow>
     (\<forall>k. ownFile w k \<longrightarrow> files w' (wsKey root wid @ k) = files w (archiveKey root wid @ k)
        \<and> files w' (archiveKey root wid @ k) = None)
     \<and> (\<exists>b m. files w (archiveKey root wid @ [''.kra.meta.json'']) = Some (FileN b) \<and> parseMeta b = Some m
          \<and> files w' (wsKey root wid @ [''.kra.meta.json'']) = Some (FileN (renderMeta (activated (clock w) m))))"

text \<open>Between the rename and the last step: the files are in \<open>workspaces\<close>, and the way back is free.\<close>

definition underway :: "string \<Rightarrow> string \<Rightarrow> world \<Rightarrow> world \<Rightarrow> bool" where
  "underway root wid w v \<longleftrightarrow> same_env w v
     \<and> (\<forall>k. keptFile w k \<longrightarrow> files v (wsKey root wid @ k) = files w (archiveKey root wid @ k))
     \<and> (\<forall>k. files v (archiveKey root wid @ k) = None)
     \<and> files v (comps root @ [''archive'']) = Some DirN \<and> files v (wsKey root wid) = Some DirN"

lemma keptFile_in: "keptFile w k \<Longrightarrow> wsKey root wid @ k \<in> reopenK root wid" "archiveKey root wid @ k \<in> reopenK root wid"
  "comps root @ [''archive''] \<in> reopenK root wid" "wsKey root wid \<in> reopenK root wid"
  by (auto simp: keptFile_def reopenK_def closeK_def)

lemma underway_spares:
  assumes "underway root wid w u" and "spares sy (reopenK root wid) u v" and "tame sy (reopenK root wid)"
  shows "underway root wid w v"
proof -
  have "files v k = files u k" if "k \<in> reopenK root wid" for k using assms(2,3) that by (simp add: spares_def)
  note f = this [OF keptFile_in(1)] this [OF keptFile_in(2)] this [OF keptFile_in(3)] this [OF keptFile_in(4)]
  have "same_env w v" using assms(1,2) same_env_trans by (auto simp: underway_def spares_def)
  then show ?thesis using assms(1) f unfolding underway_def by simp
qed

lemma underway_back:
  assumes "underway root wid w v" and "IsAbs root" and "plain wid" and "\<not> fails w (SRename (wsKey root wid) (archiveKey root wid))"
  shows "archiveKept root wid w (snd (RenameTree (pathJoin [root, ''workspaces'', wid]) (pathJoin [root, ''archive'', wid]) v))"
proof -
  note u = assms(1) [unfolded underway_def]
  have "files v (archiveKey root wid) = None" using u by (metis append_Nil2)
  then have "RenameTree (pathJoin [root, ''workspaces'', wid]) (pathJoin [root, ''archive'', wid]) v
      = (Inr (), v\<lparr>files := move_tree (files v) (wsKey root wid) (archiveKey root wid)\<rparr>)"
    using u assms(4) unfolding RenameTree_def Let_def ws_paths [OF assms(2,3)] same_env_def
    by (auto simp: butlast_append)
  then show ?thesis using u move_tree_dst [of "files v" "wsKey root wid" "archiveKey root wid"] by (simp add: archiveKept_def)
qed

lemma rename_underway:
  assumes "RenameTree (pathJoin [root, ''archive'', wid]) (pathJoin [root, ''workspaces'', wid]) w = (Inr (), u)"
    and "IsAbs root" and "plain wid" and "files w (archiveKey root wid) = Some DirN" and "files w (comps root @ [''archive'']) = Some DirN"
  shows "underway root wid w u"
proof -
  have f: "files u = move_tree (files w) (archiveKey root wid) (wsKey root wid)" and e: "same_env w u"
    using assms(1) unfolding RenameTree_def Let_def ws_paths [OF assms(2,3)] by (auto simp: same_env_def split: if_splits)
  have "files u (wsKey root wid @ k) = files w (archiveKey root wid @ k)" for k unfolding f by (rule move_tree_dst)
  moreover have "files u (archiveKey root wid @ k) = None" for k
    unfolding f by (rule move_tree_src) (auto simp: prefix_def)
  moreover have "files u (comps root @ [''archive'']) = Some DirN"
    unfolding f using assms(5) by (subst move_tree_other) (auto simp: prefix_def)
  ultimately show ?thesis using e assms(4) unfolding underway_def by (metis append_Nil2)
qed

lemma mkdir_underway:
  assumes "underway root wid w u" and "MkdirAllP (pathJoin [root, ''workspaces'', wid, ''repos'']) u = (r, v)"
    and "IsAbs root" and "plain wid"
  shows "underway root wid w v"
proof -
  have c: "comps (pathJoin [root, ''workspaces'', wid, ''repos'']) = wsKey root wid @ [''repos'']"
    using assms(4) unfolding ws_paths(6) [OF assms(3,4)] by (simp add: plain_def)
  have keep: "mkdirs F (wsKey root wid @ [''repos'']) k = F k" if "F (wsKey root wid) = Some DirN" "k \<in> reopenK root wid" for F k
    using that by (auto simp: mkdirs_def reopenK_def closeK_def prefix_def append_eq_append_conv2 append_eq_Cons_conv Cons_eq_append_conv)
  have "files v k = files u k" if "k \<in> reopenK root wid" for k
    using assms(1,2) keep [OF _ that, of "files u"] unfolding MkdirAllP_def MkdirAll_def c
    by (auto simp: underway_def split: if_splits)
  moreover have "same_env u v"
    using assms(2) unfolding MkdirAllP_def MkdirAll_def by (auto simp: same_env_def split: if_splits)
  ultimately have "spares sy (reopenK root wid) u v" for sy by (simp add: spares_def)
  then show ?thesis using underway_spares [OF assms(1), of "demo_sys"] demo_tame by blast
qed

lemma onErr_back:
  assumes "onErr m (\<lambda>_. ignore (RenameTree (pathJoin [root, ''workspaces'', wid]) (pathJoin [root, ''archive'', wid]))) g u = (Inl e, w')"
    and "\<And>x v. m u = (x, v) \<Longrightarrow> underway root wid w v"
    and "IsAbs root" and "plain wid" and "\<not> fails w (SRename (wsKey root wid) (archiveKey root wid))"
  shows "archiveKept root wid w w'"
  using assms(1)
proof (cases rule: onErr_result)
  case (2 x v)
  then show ?thesis using underway_back [OF assms(2) assms(3-5)] by (simp add: ignore_def)
qed simp

lemma recreate_underway:
  assumes "recreateWorkspaceWorktreesFromMeta sy root pool wid rs u = (r, v)" and "underway root wid w u"
    and "IsAbs root" and "plain wid" and "tame sy (reopenK root wid)"
  shows "underway root wid w v"
proof -
  obtain x u1 where m: "MkdirAllP (pathJoin [root, ''workspaces'', wid, ''repos'']) u = (x, u1)" by fastforce
  then have u1: "underway root wid w u1" using mkdir_underway assms(2-4) by blast
  show ?thesis
    using assms(1) m u1 underway_spares [OF u1 _ assms(5)] quiet.recreate_all [unfolded always_def]
    unfolding recreateWorkspaceWorktreesFromMeta_def Let_def
    by (cases x) (auto simp: bindW_def mapErr_def, metis snd_conv)
qed

lemma writeMeta_failed:
  assumes "writeWorkspaceMetaFile p m w = (Inl e, w')" and "IsAbs p"
  shows "files w' (comps p @ [''.kra.meta.json'']) = files w (comps p @ [''.kra.meta.json''])"
proof (cases "TrimSpace p = []")
  case True
  then show ?thesis using assms(1) by (simp add: writeWorkspaceMetaFile_def)
next
  case False
  obtain x where x: "atomicReplace False ''.kra-meta-'' ''.tmp'' (comps p) (comps p @ [''.kra.meta.json'']) (renderMeta m) w = (x, w')"
    "Inl e = (case x of None \<Rightarrow> Inr () | Some x \<Rightarrow> Inl (MetaWriteErr x))"
    using write_meta_put [OF assms False] .
  then show ?thesis using meta_path.put_target [OF x(1)] by (auto split: option.splits)
qed

lemma writeMeta_underway:
  assumes "writeWorkspaceMetaFile (pathJoin [root, ''workspaces'', wid]) m u = (Inl e, v)" and "underway root wid w u"
    and "IsAbs root" and "plain wid"
  shows "underway root wid w v"
proof -
  note p = ws_paths [OF assms(3,4)]
  note o = writeMeta_other [OF assms(1) p(3), unfolded p(1)] and f = writeMeta_failed [OF assms(1) p(3), unfolded p(1)]
  have env: "same_env u v" using o(2) [of "[]"] by simp
  have t: "metaTemp u = metaTemp w" using assms(2) metaTemp_env(1) by (simp add: underway_def)
  have "files v (wsKey root wid @ k) = files u (wsKey root wid @ k)" if "keptFile w k" for k
    using f o(1) [of "wsKey root wid @ k"] that t by (cases "k = [''.kra.meta.json'']") (auto simp: keptFile_def)
  moreover have "files v (archiveKey root wid @ k) = files u (archiveKey root wid @ k)"
    "files v (comps root @ [''archive'']) = files u (comps root @ [''archive''])" "files v (wsKey root wid) = files u (wsKey root wid)" for k
    using o(1) by auto
  ultimately show ?thesis using assms(2) env same_env_trans unfolding underway_def by simp metis
qed

lemma write_restored:
  assumes "writeWorkspaceMetaFile (pathJoin [root, ''workspaces'', wid]) (activated (clock u) m) u = (Inr (), v)"
    and "underway root wid w u" and "IsAbs root" and "plain wid"
    and "files w (archiveKey root wid @ [''.kra.meta.json'']) = Some (FileN b)" and "parseMeta b = Some m"
  shows "restored root wid w v" and "same_env w v"
proof -
  note p = ws_paths [OF assms(3,4)]
  note o = writeMeta_other [OF assms(1) p(3), unfolded p(1)] and f = writeMeta_target [OF assms(1) p(3), unfolded p(1)]
  have env: "same_env w u" using assms(2) by (simp add: underway_def)
  have t: "metaTemp u = metaTemp w" "clock u = clock w" using metaTemp_env(1) [OF env] env by (simp_all add: same_env_def)
  have a: "files v (wsKey root wid @ k) = files w (archiveKey root wid @ k)" if "ownFile w k" for k
  proof -
    have "keptFile w k" using that by (auto simp: ownFile_def keptFile_def)
    then show ?thesis
      using o(1) [of "wsKey root wid @ k"] that t assms(2) by (auto simp: ownFile_def underway_def)
  qed
  have "files v (archiveKey root wid @ k) = None" for k
    using o(1) [of "archiveKey root wid @ k"] assms(2) by (simp add: underway_def)
  with a have "\<forall>k. ownFile w k \<longrightarrow> files v (wsKey root wid @ k) = files w (archiveKey root wid @ k) \<and> files v (archiveKey root wid @ k) = None"
    by blast
  then show "restored root wid w v" using assms(5,6) f unfolding restored_def t(2) by blast
  have "same_env u v" by (rule o(2) [of "[]"]) simp_all
  then show "same_env w v" by (rule same_env_trans [OF env])
qed

lemma load_file:
  assumes "loadWorkspaceMetaFile p w = Inr m" and "IsAbs p"
  shows "\<exists>b. files w (comps p @ [''.kra.meta.json'']) = Some (FileN b) \<and> parseMeta b = Some m"
  using assms comps_metaPath [OF assms(2)]
  by (auto simp: loadWorkspaceMetaFile_def ReadFile_def Let_def split: if_splits sum.splits option.splits node.splits)

lemma restoreWorkspace_outcome:
  assumes "restoreWorkspace sy root pool wid w = (r, w')" and ax: "IsAbs root" "plain wid"
    and "files w (archiveKey root wid) = Some DirN" and "files w (comps root @ [''archive'']) = Some DirN"
    and "tame sy (reopenK root wid)"
  shows "case r of Inr _ \<Rightarrow> restored root wid w w' \<and> same_env w w'
    | Inl _ \<Rightarrow> fails w (SRename (wsKey root wid) (archiveKey root wid)) \<or> archiveKept root wid w w'"
proof -
  let ?ws = "pathJoin [root, ''workspaces'', wid]" and ?ar = "pathJoin [root, ''archive'', wid]"
  note p = ws_paths [OF ax]
  have undo: "fails w (SRename (wsKey root wid) (archiveKey root wid)) \<or> archiveKept root wid w w'"
    if "onErr m (\<lambda>_. ignore (RenameTree ?ws ?ar)) g u = (Inl e, w')" "\<And>x v. m u = (x, v) \<Longrightarrow> underway root wid w v" for m g u e
    using onErr_back [OF that(1)] that(2) ax by blast
  from assms(1) show ?thesis
    unfolding restoreWorkspace_def Let_def
  proof (cases rule: bindW_result)
    case (1 e)
    then have "w' = w" by (auto simp: mapErr_def RenameTree_def Let_def split: if_splits)
    then show ?thesis using 1 by (simp add: archiveKept_def)
  next
    case (2 x u)
    then have u: "underway root wid w u" using rename_underway [OF _ ax assms(4,5)] by simp
    from 2(2) show ?thesis
    proof (cases rule: bindW_result)
      case (1 e)
      then show ?thesis using undo u by (fastforce simp: look_def)
    next
      case (2 m u')
      then have "u' = u" and "loadWorkspaceMetaFile ?ws u = Inr m" by simp_all
      then obtain b where "files u (wsKey root wid @ [''.kra.meta.json'']) = Some (FileN b)" and b: "parseMeta b = Some m"
        using load_file p by metis
      then have fb: "files w (archiveKey root wid @ [''.kra.meta.json'']) = Some (FileN b)"
        using u by (auto simp: underway_def keptFile_def metaTemp_def)
      from 2(2) \<open>u' = u\<close> have "bindW (onErr (recreateWorkspaceWorktreesFromMeta sy root pool wid (ReposRestore m)) (\<lambda>_. ignore (RenameTree ?ws ?ar)) ORecreate)
         (\<lambda>_. onErr (\<lambda>w. writeWorkspaceMetaFile ?ws (activated (clock w) m) w) (\<lambda>_. ignore (RenameTree ?ws ?ar)) OWriteMeta) u = (r, w')" by simp
      then show ?thesis
      proof (cases rule: bindW_result)
        case (1 e)
        then show ?thesis using undo [OF 1(1) recreate_underway [OF _ u ax assms(6)]] by simp
      next
        case (2 y v)
        then have v: "underway root wid w v" using recreate_underway [OF _ u ax assms(6)] by simp
        show ?thesis
        proof (cases r)
          case (Inl e)
          then obtain e' v' where "writeWorkspaceMetaFile ?ws (activated (clock v) m) v = (Inl e', v')" "w' = snd (RenameTree ?ws ?ar v')"
            using 2(2) by (auto simp: ignore_def elim!: onErr_result)
          then show ?thesis using Inl underway_back [OF writeMeta_underway [OF _ v ax] ax] by auto
        next
          case (Inr z)
          then show ?thesis using 2(2) write_restored [OF _ v ax fb b] by simp
        qed
      qed
    qed
  qed
qed

lemma spares_archiveKept:
  assumes "spares sy (reopenK root wid) w w'" and "tame sy (reopenK root wid)"
  shows "archiveKept root wid w w'"
  using assms keptFile_in(2) unfolding archiveKept_def spares_def by blast

lemma archiveKept_trans:
  assumes "spares sy (reopenK root wid) w u" and "tame sy (reopenK root wid)" and "archiveKept root wid u v"
  shows "archiveKept root wid w v"
proof -
  have "keptFile u = keptFile w" using assms(1) metaTemp_env(1) by (fastforce simp: spares_def keptFile_def fun_eq_iff)
  then show ?thesis
    using spares_archiveKept [OF assms(1,2)] assms(3) by (simp add: archiveKept_def)
qed

lemma restored_trans:
  assumes "spares sy (reopenK root wid) w u" and "tame sy (reopenK root wid)" and "restored root wid u v"
  shows "restored root wid w v"
proof -
  have e: "same_env w u" using assms(1) by (simp add: spares_def)
  have "files u (archiveKey root wid @ k) = files w (archiveKey root wid @ k)" for k
    using assms(1,2) keptFile_in(2) by (simp add: spares_def)
  then show ?thesis
    using assms(3) metaTemp_env(2) [OF e] e unfolding restored_def same_env_def by simp
qed

lemma restored_spares:
  assumes "restored root wid w u" and "same_env w u" and "always (spares sy (closeK root wid)) m" and "m u = (r, v)"
    and "tame sy (closeK root wid)"
  shows "restored root wid w v"
proof -
  have k: "k \<in> closeK root wid \<Longrightarrow> files v k = files u k" for k using sparesD [OF assms(3-5)] .
  have a: "files v (archiveKey root wid @ k) = files u (archiveKey root wid @ k)"
    "files v (wsKey root wid @ [''.kra.meta.json'']) = files u (wsKey root wid @ [''.kra.meta.json''])" for k
    by (rule k, auto simp: closeK_def)+
  have "files v (wsKey root wid @ k) = files u (wsKey root wid @ k)" if "ownFile w k" for k
    by (rule k) (use that in \<open>auto simp: closeK_def ownFile_def\<close>)
  then show ?thesis using assms(1) a unfolding restored_def by simp
qed

lemma reopenGuards_error: "reopenGuards root wid w = Inl e \<Longrightarrow> e \<noteq> OPost c"
  by (auto simp: reopenGuards_def split: sum.splits read_error.splits node.splits)

lemma reopenGuards_archive:
  assumes "reopenGuards root wid w = Inr ()" and "IsAbs root" and "plain wid"
  shows "files w (archiveKey root wid) = Some DirN"
  using assms(1) unfolding reopenGuards_def Stat_def Let_def ws_paths [OF assms(2,3)]
  by (auto split: sum.splits read_error.splits node.splits if_splits option.splits)

text \<open>The steps after the files are back: the baseline and the commit.\<close>

abbreviation reopenFinish :: "sys \<Rightarrow> string \<Rightarrow> string \<Rightarrow> bool \<Rightarrow> string \<Rightarrow> (reopen_error, commit_trace) prog" where
  "reopenFinish sy root wid doCommit pre \<equiv>
     bindW (ignore (\<lambda>w. createOrRefreshWorkspaceBaseline sy root wid (clock w) w)) (\<lambda>_.
     bindW (if doCommit then mapErr OPost (commitReopenChange sy root wid) else ret []) (\<lambda>postSHA.
       ret \<lparr>CommitEnabled = doCommit, PreCommitSHA = pre, PostCommitSHA = postSHA\<rparr>))"

lemma reopenFinish_error:
  assumes "reopenFinish sy root wid doCommit pre u = (Inl e, w')"
  shows "\<exists>c. e = OPost c"
  using assms by (auto simp: bindW_def ignore_def mapErr_def ret_def split: if_splits prod.splits sum.splits)

lemma reopenFinish_restored:
  assumes "reopenFinish sy root wid doCommit pre u = (r, w')" and "restored root wid w u" and "same_env w u"
    and "IsAbs root" and "plain wid" and "tame sy (reopenK root wid)"
  shows "restored root wid w w'"
proof -
  have slash: "CHR ''/'' \<notin> set wid" using assms(5) by (simp add: plain_def)
  have "always (spares sy (closeK root wid)) (\<lambda>w. createOrRefreshWorkspaceBaseline sy root wid (clock w) w)"
    using spares_refreshBaseline [OF assms(4) slash closeK_tree, of sy] unfolding always_def by blast
  then have "always (spares sy (closeK root wid)) (reopenFinish sy root wid doCommit pre)"
    by (intro quiet.always_intros quiet.commit_routines)
  moreover have "tame sy (closeK root wid)" by (rule tame_mono [OF _ assms(6)]) (simp add: reopenK_def subset_insertI)
  ultimately show ?thesis using restored_spares [OF assms(2,3)] assms(1) by blast
qed

lemma reopen_outcome:
  assumes "reopenWorkspace sy root pool wid doCommit w = (r, w')" and "IsAbs root" and "plain wid"
    and "files w (comps root @ [''archive'']) = Some DirN" and "tame sy (reopenK root wid)"
  shows "case r of Inr _ \<Rightarrow> restored root wid w w' | Inl (OPost _) \<Rightarrow> restored root wid w w'
    | Inl _ \<Rightarrow> fails w (SRename (wsKey root wid) (archiveKey root wid)) \<or> archiveKept root wid w w'"
proof -
  let ?K = "reopenK root wid"
  from assms(1) show ?thesis
    unfolding reopenWorkspace_def
  proof (cases rule: bindW_result)
    case (1 e)
    then show ?thesis using reopenGuards_error [of root wid w e]
      by (auto simp: look_def archiveKept_def split: reopen_error.splits)
  next
    case (2 x w0)
    then have g: "reopenGuards root wid w = Inr ()" and w0: "w0 = w" by simp_all
    from 2(2) [unfolded w0] show ?thesis
    proof (cases rule: bindW_result)
      case (1 e)
      then have "archiveKept root wid w w'"
        using spares_archiveKept [OF _ assms(5)] quiet.always_if [OF quiet.always_mapErr [OF quiet.commit_routines(2)] quiet.always_ret]
        unfolding always_def by (metis snd_conv)
      moreover have "\<exists>c. e = OPre c" using 1 by (auto simp: mapErr_def ret_def split: if_splits prod.splits sum.splits)
      ultimately show ?thesis using 1 by auto
    next
      case (2 pre u)
      then have sp: "spares sy ?K w u"
        using quiet.always_if [OF quiet.always_mapErr [OF quiet.commit_routines(2)] quiet.always_ret]
        unfolding always_def by (metis snd_conv)
      have f: "files u k = files w k" if "k \<in> ?K" for k using sp assms(5) that by (simp add: spares_def)
      have ar: "files u (archiveKey root wid) = Some DirN" "files u (comps root @ [''archive'']) = Some DirN"
        using f reopenGuards_archive [OF g assms(2,3)] assms(4) keptFile_in by (auto simp: reopenK_def closeK_def)
      note out = restoreWorkspace_outcome [OF _ assms(2,3) ar assms(5)]
      have fl: "fails u = fails w" using sp by (simp add: spares_def same_env_def)
      from 2(2) show ?thesis
      proof (cases rule: bindW_result)
        case (1 e)
        then have "\<forall>c. e \<noteq> OPost c"
          by (auto simp: restoreWorkspace_def Let_def bindW_def mapErr_def onErr_def split: prod.splits sum.splits)
        then show ?thesis
          using out [OF 1(1)] 1(2) fl archiveKept_trans [OF sp assms(5)] by (auto split: reopen_error.splits)
      next
        case (2 y v)
        then have "restored root wid u v" "same_env u v" using out [OF 2(1)] by simp_all
        then have "restored root wid w w'"
          using reopenFinish_restored [OF 2(2) _ _ assms(2,3,5)] restored_trans [OF sp assms(5)] by blast
        then show ?thesis using reopenFinish_error [of sy root wid doCommit pre v _ w'] 2(2) by (cases r) auto
      qed
    qed
  qed
qed

subsection \<open>The example workspace, archived\<close>

definition reopened_world :: world where
  "reopened_world = snd (RenameTree ''/r/archive/T-1'' ''/r/workspaces/T-1'' archived_world)"

lemma demo_archive: "pathJoin [''/r'', ''archive'', ''T-1''] = ''/r/archive/T-1''" "comps ''/r'' = [''r'']"
  "IsAbs ''/r''" "plain ''T-1''"
  by code_simp+

lemma demo_restore: "fst (restoreWorkspace demo_sys ''/r'' ''/p'' ''T-1'' archived_world) = Inr ()"
proof -
  have "fst (RenameTree ''/r/archive/T-1'' ''/r/workspaces/T-1'' archived_world) = Inr ()" by code_simp
  then have r: "RenameTree ''/r/archive/T-1'' ''/r/workspaces/T-1'' archived_world = (Inr (), reopened_world)"
    unfolding reopened_world_def by (metis prod.collapse)
  have "loadWorkspaceMetaFile ''/r/workspaces/T-1'' reopened_world = Inr archived_meta"
  proof (rule load_rendered)
    show "files reopened_world (comps (metaPath ''/r/workspaces/T-1'')) = Some (FileN (renderMeta archived_meta))"
      "\<not> fails reopened_world (SRead (comps (metaPath ''/r/workspaces/T-1'')))" "wf_meta archived_meta" by code_simp+
  qed (simp add: demo_path)
  moreover have "ReposRestore archived_meta = []" by (simp add: archived_meta_def)
  moreover have "fst (bindW (onErr (recreateWorkspaceWorktreesFromMeta demo_sys ''/r'' ''/p'' ''T-1'' []) (\<lambda>_. ret ()) ORecreate) (\<lambda>_.
      onErr (\<lambda>w. writeWorkspaceMetaFile ''/r/workspaces/T-1'' (activated (clock w) archived_meta) w) (\<lambda>_. ret ()) OWriteMeta) reopened_world) = Inr ()"
    by code_simp
  ultimately show ?thesis
    by (auto simp: restoreWorkspace_def Let_def demo_path demo_archive r bindW_def mapErr_def onErr_def look_def
        split: prod.splits sum.splits)
qed

lemma demo_reopen: "\<exists>w'. reopenWorkspace demo_sys ''/r'' ''/p'' ''T-1'' False archived_world
    = (Inr \<lparr>CommitEnabled = False, PreCommitSHA = [], PostCommitSHA = []\<rparr>, w')"
proof -
  have "reopenGuards ''/r'' ''T-1'' archived_world = Inr ()" by code_simp
  moreover obtain u where "restoreWorkspace demo_sys ''/r'' ''/p'' ''T-1'' archived_world = (Inr (), u)"
    using demo_restore by (metis prod.collapse)
  ultimately show ?thesis by (simp add: reopenWorkspace_def bindW_def look_def ret_def ignore_def)
qed

lemma demo_close_world:
  "closeWorkspace demo_sys ''/r'' ''T-1'' False close_world
    = (Inr \<lparr>CommitEnabled = False, PreCommitSHA = [], PostCommitSHA = []\<rparr>, archived_world)"
proof -
  have "\<not> fails archived_world (SRemove (comps (workspaceBaselinePath ''/r'' ''T-1'')))"
    "files archived_world (comps (workspaceBaselinePath ''/r'' ''T-1'')) = None"
    "\<not> below_file (files archived_world) (comps (workspaceBaselinePath ''/r'' ''T-1''))" by code_simp+
  then have "RemoveP demo_sys (workspaceBaselinePath ''/r'' ''T-1'') archived_world = (Inl NotExist, archived_world)"
    by (simp add: RemoveP_def Let_def)
  moreover have "loadWorkspaceWorkStateCache ''/r'' archived_world = Inr emptyCache"
    "LoadMapping ''/r'' archived_world = Inr \<lparr>mapVersion = 1, mapWorkspaces = []\<rparr>" by code_simp+
  ultimately have f: "closeFinish demo_sys ''/r'' ''T-1'' False [''notes.md''] [] archived_world
      = (Inr \<lparr>CommitEnabled = False, PreCommitSHA = [], PostCommitSHA = []\<rparr>, archived_world)"
    by (simp add: closeFinish_def bindW_def ignore_def ret_def removeWorkspaceBaselineAndWorkState_def
        clearWorkspaceWorkStateCacheEntry_def emptyCache_def closeMappedCMUXWorkspacesBestEffort_def)
  have "fst (archiveWorkspace demo_sys ''/r'' ''T-1'' [] demo_meta archived_meta close_world) = Inr ()" by code_simp
  then have "archiveWorkspace demo_sys ''/r'' ''T-1'' [] demo_meta archived_meta close_world = (Inr (), archived_world)"
    unfolding archived_world_def by (metis prod.collapse)
  with f show ?thesis by (simp add: closeWorkspace_def demo_prepare bindW_def)
qed

subsection \<open>Properties of reopening\<close>





subsection \<open>Purging\<close>

definition purgeK :: "string \<Rightarrow> string \<Rightarrow> key set" where
  "purgeK root wid = {wsKey root wid @ k |k. True} \<union> {archiveKey root wid @ k |k. True}"

lemma purgeK_tree: "purgeK root wid \<subseteq> treeK root"
  by (auto simp: purgeK_def treeK_def)

lemma purge_meta_result:
  assumes "collectPurgeWorkspaceMeta sy root wid w = (Inr meta, u)"
  shows "purgeStatus root wid w = Inr (purgeArchived meta)
    \<and> (\<exists>m. loadWorkspaceMetaFile (pathJoin [root, if purgeArchived meta then ''archive'' else ''workspaces'', wid]) w = Inr m
         \<and> purgeGuardActive meta = workspaceMetaPurgeGuardEnabled m)"
  using assms by (auto simp: collectPurgeWorkspaceMeta_def bindW_Inr Let_def split: if_splits)

lemma purgeStatus_archived:
  assumes "purgeStatus root wid w = Inr True"
  shows "Stat w (pathJoin [root, ''archive'', wid]) = Inr DirN \<and> Stat w (pathJoin [root, ''workspaces'', wid]) \<noteq> Inr DirN"
  using assms by (auto simp: purgeStatus_def Let_def split: sum.splits read_error.splits node.splits)

text \<open>The steps from the deletion on.\<close>

lemma RemoveAll_gone:
  assumes "RemoveAll p w = (Inr (), w')"
  shows "\<forall>k. prefix (comps p) k \<longrightarrow> files w' k = None" and "\<forall>k. files w k = None \<longrightarrow> files w' k = None"
  using assms by (auto simp: RemoveAll_def Let_def remove_tree_def split: if_splits)

definition gone :: "string \<Rightarrow> string \<Rightarrow> world \<Rightarrow> bool" where
  "gone root wid w \<longleftrightarrow> (\<forall>k\<in>purgeK root wid. files w k = None)"

lemma removed_gone:
  assumes "RemoveAll (pathJoin [root, ''workspaces'', wid]) w = (Inr (), u)"
    and "RemoveAll (pathJoin [root, ''archive'', wid]) u = (Inr (), v)" and "IsAbs root" and "plain wid"
  shows "gone root wid v"
proof -
  note p = ws_paths [OF assms(3,4)]
  have "files u (wsKey root wid @ k) = None" for k using RemoveAll_gone(1) [OF assms(1)] unfolding p by (metis prefixI)
  then have "files v (wsKey root wid @ k) = None" for k using RemoveAll_gone(2) [OF assms(2)] by blast
  moreover have "files v (archiveKey root wid @ k) = None" for k using RemoveAll_gone(1) [OF assms(2)] unfolding p by (metis prefixI)
  ultimately show ?thesis by (auto simp: gone_def purgeK_def)
qed

abbreviation purgeFinish :: "sys \<Rightarrow> string \<Rightarrow> string \<Rightarrow> bool \<Rightarrow> string \<Rightarrow> (purge_error, commit_trace) prog" where
  "purgeFinish sy root wid doCommit pre \<equiv>
     bindW (ignore (removeWorkspaceBaselineAndWorkState sy root wid)) (\<lambda>_.
     bindW (if doCommit then mapErr PPost (commitPurgeChange sy root wid) else ret []) (\<lambda>postSHA.
       ret \<lparr>CommitEnabled = doCommit, PreCommitSHA = pre, PostCommitSHA = postSHA\<rparr>))"

lemma purgeFinish_gone:
  assumes "purgeFinish sy root wid doCommit pre w = (r, w')" and "gone root wid w" and "IsAbs root" and "plain wid"
    and "tame sy (purgeK root wid)"
  shows "gone root wid w'"
proof -
  have "CHR ''/'' \<notin> set wid" using assms(4) by (simp add: plain_def)
  then have "always (spares sy (purgeK root wid)) (purgeFinish sy root wid doCommit pre)"
    by (intro quiet.always_intros quiet.commit_routines spares_removeBaseline purgeK_tree assms(3))
  from sparesD [OF this assms(1,5)] show ?thesis using assms(2) by (simp add: gone_def)
qed

lemma purge_refused:
  assumes "purgeWorkspace sy root wid doCommit w = (r, w')" and "tame sy K"
    and "\<And>meta u. collectPurgeWorkspaceMeta sy root wid w = (Inr meta, u) \<Longrightarrow> purgeGuardActive meta \<or> \<not> purgeArchived meta"
  shows "(\<exists>e. r = Inl e) \<and> (\<forall>k\<in>K. files w' k = files w k)"
  using assms(1) unfolding purgeWorkspace_def
proof (cases rule: bindW_result)
  case (1 e)
  then show ?thesis using sparesD [OF quiet.purge_meta 1(1) assms(2)] by blast
next
  case (2 meta u)
  then have "w' = u \<and> (\<exists>e. r = Inl e)"
    using assms(3) by (auto simp: bindW_def guardW_def ret_def throw_def split: if_splits)
  then show ?thesis using sparesD [OF quiet.purge_meta 2(1) assms(2)] by blast
qed

lemma locked_meta:
  assumes "writeWorkspaceMetaFile p (setWorkspaceMetaPurgeGuard True now m) w = (Inr (), w')" and "IsAbs p"
    and "wf_meta m" and "in_int64 now" and "loadWorkspaceMetaFile p w' = Inr m'"
  shows "workspaceMetaPurgeGuardEnabled m'"
proof -
  obtain b where b: "files w' (comps p @ [''.kra.meta.json'']) = Some (FileN b)" "parseMeta b = Some m'"
    using load_file [OF assms(5,2)] by blast
  then have "b = renderMeta (setWorkspaceMetaPurgeGuard True now m)"
    using writeMeta_target [OF assms(1,2)] by simp
  then have "m' = setWorkspaceMetaPurgeGuard True now m"
    using b parse_renderMeta [OF wf_setGuard [OF assms(3,4)]] by simp
  then show ?thesis by simp
qed

text \<open>The path a lock writes to is the one a purge reads.\<close>

lemma Stat_Inr: "Stat w p = Inr n \<longleftrightarrow> \<not> fails w (SStat (comps p)) \<and> files w (comps p) = Some n"
  by (auto simp: Stat_def Let_def split: option.splits)

lemma resolve_path:
  assumes "resolveWorkspacePathByID root wid w = Inr (Some p)"
  shows "p = pathJoin [root, if Stat w (pathJoin [root, ''workspaces'', wid]) = Inr DirN then ''workspaces'' else ''archive'', wid]"
  using assms by (auto simp: resolveWorkspacePathByID_def Let_def split: sum.splits read_error.splits node.splits)

lemma purgeStatus_which: "purgeStatus root wid w = Inr archived \<Longrightarrow> archived \<longleftrightarrow> Stat w (pathJoin [root, ''workspaces'', wid]) \<noteq> Inr DirN"
  by (auto simp: purgeStatus_def Let_def split: sum.splits read_error.splits node.splits)

lemma lock_path:
  assumes "resolveWorkspacePathByID root wid w = Inr (Some p)" and "purgeStatus root wid w' = Inr archived"
    and "files w' (comps (pathJoin [root, ''workspaces'', wid])) = files w (comps (pathJoin [root, ''workspaces'', wid]))" and "fails w' = fails w"
  shows "p = pathJoin [root, if archived then ''archive'' else ''workspaces'', wid]"
  using resolve_path [OF assms(1)] purgeStatus_which [OF assms(2)] assms(3,4) by (auto simp: Stat_Inr)

subsection \<open>An archived workspace that is not locked\<close>

definition open_meta :: meta_file where
  "open_meta = setWorkspaceMetaPurgeGuard False 9 demo_meta"

definition purge_world :: world where
  "purge_world = demo_world\<lparr>files := (files demo_world)([''r'', ''archive'', ''T-1''] \<mapsto> DirN,
     [''r'', ''archive'', ''T-1'', ''.kra.meta.json''] \<mapsto> FileN (renderMeta open_meta))\<rparr>"

lemma purge_root: "resolveRoot purge_world = Inr ''/r''"
proof -
  have "LooksLikeRoot purge_world ''/r''" "cleanAbs purge_world ''/r'' = Inr ''/r''" by code_simp+
  then have "FindRoot purge_world ''/r'' = Some (Inr ''/r'')"
    by (simp add: FindRoot_def findRootLoop.simps)
  moreover have "ReadCurrentContext purge_world = Inr None" by code_simp
  moreover have "getwd purge_world = Some ''/r''" by code_simp
  ultimately show ?thesis by (simp add: resolveRoot_def ResolveExistingRoot_def)
qed

lemma purge_paths: "comps (metaPath ''/r/archive/T-1'') = [''r'', ''archive'', ''T-1'', ''.kra.meta.json'']" "TrimSpace ''/r/archive/T-1'' \<noteq> []"
  by code_simp+

lemma purge_load: "loadWorkspaceMetaFile ''/r/archive/T-1'' purge_world = Inr open_meta"
proof (rule load_rendered)
  show "wf_meta open_meta" by code_simp
qed (simp_all add: purge_paths purge_world_def demo_world_def)

lemma purge_list: "listWorkspaceReposForClose demo_sys ''/r'' ''T-1'' purge_world = (Inr [], purge_world)"
proof -
  have "ReadDir demo_sys purge_world (pathJoin [''/r/workspaces/T-1'', ''repos'']) = Inl NotExist"
    "ReadFile purge_world (metaPath ''/r/workspaces/T-1'') = Inl NotExist" by code_simp+
  then show ?thesis
    by (auto simp: listWorkspaceReposForClose_def listWorkspaceReposFromFilesystem_def loadWorkspaceMetaFile_def zero_meta_def
        demo_path restoreByAlias_def Let_def bindW_def ret_def)
qed

lemma demo_purge: "\<exists>t w'. purgeWorkspace demo_sys ''/r'' ''T-1'' False purge_world = (Inr t, w')"
proof -
  have "purgeStatus ''/r'' ''T-1'' purge_world = Inr True" "\<not> workspaceMetaPurgeGuardEnabled open_meta" by code_simp+
  moreover have "ReadDir demo_sys purge_world (pathJoin [''/r'', ''workspaces'', ''T-1'', ''repos'']) = Inl NotExist" by code_simp
  moreover have "\<not> fails purge_world c" for c by (simp add: purge_world_def demo_world_def)
  ultimately show ?thesis
    by (simp add: purgeWorkspace_def collectPurgeWorkspaceMeta_def removeWorkspaceWorktrees_def removeReposDir_def RemoveAll_def
        bindW_def look_def mapErr_def guardW_def ret_def ignore_def Let_def demo_archive purge_load purge_list)
qed

subsection \<open>Properties of purging\<close>

text \<open>
  C11: a purge that succeeds was of an archived workspace that is not active and not locked, and it leaves
  no file of it, neither in \<open>workspaces\<close> nor in the archive.
\<close>

theorem purge_only_archived:
  assumes "purgeWorkspace sy root wid doCommit w = (Inr t, w')" and "IsAbs root" and "plain wid" and "tame sy (purgeK root wid)"
  shows "Stat w (pathJoin [root, ''archive'', wid]) = Inr DirN \<and> Stat w (pathJoin [root, ''workspaces'', wid]) \<noteq> Inr DirN
    \<and> (\<exists>m. loadWorkspaceMetaFile (pathJoin [root, ''archive'', wid]) w = Inr m \<and> \<not> workspaceMetaPurgeGuardEnabled m)
    \<and> gone root wid w'"
proof -
  obtain meta u u1 u2 v pre where c: "collectPurgeWorkspaceMeta sy root wid w = (Inr meta, u)"
    and g: "\<not> purgeGuardActive meta" "purgeArchived meta"
    and r: "RemoveAll (pathJoin [root, ''workspaces'', wid]) u1 = (Inr (), u2)" "RemoveAll (pathJoin [root, ''archive'', wid]) u2 = (Inr (), v)"
    and f: "purgeFinish sy root wid doCommit pre v = (Inr t, w')"
    using assms(1) unfolding purgeWorkspace_def by (auto simp: bindW_Inr)
  have "gone root wid w'" by (rule purgeFinish_gone [OF f removed_gone [OF r assms(2,3)] assms(2-4)])
  then show ?thesis using purge_meta_result [OF c] purgeStatus_archived [of root wid w] g by auto
qed

theorem purge_only_archived_witness:
  "\<exists>w'. gone ''/r'' ''T-1'' w' \<and> files purge_world [''r'', ''archive'', ''T-1''] = Some DirN"
proof -
  obtain t w' where p: "purgeWorkspace demo_sys ''/r'' ''T-1'' False purge_world = (Inr t, w')" using demo_purge by blast
  have "files purge_world [''r'', ''archive'', ''T-1''] = Some DirN" by code_simp
  then show ?thesis using purge_only_archived [OF p demo_archive(3,4) demo_tame] by blast
qed

text \<open>
  C7: after \<open>kra ws lock\<close> has succeeded on a workspace, purging it fails and changes no file that git leaves
  alone, whether the workspace is active or archived and whatever system calls fail.
\<close>

theorem lock_blocks_purge:
  assumes "runWSLock [wid] w = (ExitOK, w1)" and "purgeWorkspace sy root wid doCommit w1 = (r, w')"
    and "resolveRoot w = Inr root" and "IsAbs root" and "plain wid" and "TrimSpace wid = wid" and "\<not> prefix ''-'' wid"
    and "\<forall>d\<in>{''workspaces'', ''archive''}. \<forall>m. loadWorkspaceMetaFile (pathJoin [root, d, wid]) w = Inr m \<longrightarrow> wf_meta m" and "in_int64 (clock w)" and "tame sy K"
  shows "(\<exists>e. r = Inl e) \<and> (\<forall>k\<in>K. files w' k = files w1 k)"
proof -
  obtain p m where p: "resolveWorkspacePathByID root wid w = Inr (Some p)" and m: "loadWorkspaceMetaFile p w = Inr m"
    and wr: "writeWorkspaceMetaFile p (setWorkspaceMetaPurgeGuard True (clock w) m) w = (Inr (), w1)"
    using assms(1,3,6,7) unfolding runWSLock_def runWSPurgeGuardSet_def Let_def
    by (auto split: if_splits sum.splits option.splits prod.splits)
  have abs: "IsAbs p" and pk: "comps p = wsKey root wid \<or> comps p = archiveKey root wid"
    using resolve_path [OF p] ws_paths [OF assms(4,5)] by (auto split: if_splits)
  have "files w1 (wsKey root wid) = files w (wsKey root wid)" and fl: "fails w1 = fails w"
    using writeMeta_other [OF wr abs, of "wsKey root wid"] pk by (auto simp: same_env_def)
  then have path: "p = pathJoin [root, if archived then ''archive'' else ''workspaces'', wid]" if "purgeStatus root wid w1 = Inr archived" for archived
    using lock_path [OF p that] ws_paths [OF assms(4,5)] by simp
  have "wf_meta m" using assms(8) m resolve_path [OF p] by (auto split: if_splits)
  then have "purgeGuardActive meta" if "collectPurgeWorkspaceMeta sy root wid w1 = (Inr meta, u)" for meta u
    using purge_meta_result [OF that] path locked_meta [OF wr abs _ assms(9)] by auto
  then show ?thesis using purge_refused [OF assms(2,10)] by blast
qed

theorem lock_blocks_purge_witness:
  "\<exists>e. fst (purgeWorkspace demo_sys ''/r'' ''T-1'' False (snd (runWSLock [''T-1''] purge_world))) = Inl e"
proof -
  let ?w1 = "snd (runWSLock [''T-1''] purge_world)"
  have "resolveWorkspacePathByID ''/r'' ''T-1'' purge_world = Inr (Some ''/r/archive/T-1'')" "validateWorkspaceID ''T-1''"
    "TrimSpace ''T-1'' = ''T-1''" "\<not> prefix ''-'' ''T-1''" "clock purge_world = 100" by code_simp+
  note facts = this
  have "fst (writeWorkspaceMetaFile ''/r/archive/T-1'' (setWorkspaceMetaPurgeGuard True 100 open_meta) purge_world) = Inr ()" by code_simp
  then have l: "runWSLock [''T-1''] purge_world = (ExitOK, ?w1)"
    using facts by (auto simp: runWSLock_def runWSPurgeGuardSet_def purge_root purge_load Let_def split: prod.splits sum.splits)
  have "ReadFile purge_world (metaPath ''/r/workspaces/T-1'') = Inl NotExist" "wf_meta open_meta" by code_simp+
  then have "\<forall>d\<in>{''workspaces'', ''archive''}. \<forall>m. loadWorkspaceMetaFile (pathJoin [''/r'', d, ''T-1'']) purge_world = Inr m \<longrightarrow> wf_meta m"
    by (auto simp: demo_path demo_archive purge_load loadWorkspaceMetaFile_def [of "''/r/workspaces/T-1''"])
  moreover have "in_int64 (clock purge_world)" by code_simp
  ultimately show ?thesis
    using lock_blocks_purge [OF l surjective_pairing purge_root demo_archive(3,4) facts(3,4) _ _ demo_tame, of False] by blast
qed

end
