(* ===== verification/Ws_Template.thy ===== *)
theory Ws_Template
  imports Ws_Flow Ws_Commit
begin

text \<open>
  Workspace templates: \<open>template_common.go\<close>, \<open>template_create.go\<close>, \<open>template_remove.go\<close>, \<open>template_validate.go\<close> and the
  commit routine of \<open>internal/app/templatecmd/service.go\<close>. A template is a directory below \<open>templates\<close> that is
  copied into a new workspace. Nodes of the file system are directories and regular files here, so the checks for
  symbolic links and special files have nothing to find.
\<close>

record workspaceTemplate =
  tmplName :: string
  tmplPath :: string

record workspaceTemplateViolation =
  vTemplate :: string
  vPath :: string
  vReason :: string

datatype template_error =
    TName | TNoTemplatesDir | TStatTemplates | TTemplatesNotDir | TNotFound | TStat | TNotDir | TWalk
  | TViolations "workspaceTemplateViolation list" | TCopyFile | TMkdir | TExists | TExistsNotDir | TStatPath
  | TNotes | TArtifacts | TAgents | TCopy | TRemove | TReadDir | TNoTemplates

subsection \<open>Finding a template\<close>

definition workspaceTemplatesPath :: "string \<Rightarrow> string" where
  "workspaceTemplatesPath root = pathJoin [root, ''templates'']"

definition workspaceTemplatePath :: "string \<Rightarrow> string \<Rightarrow> string" where
  "workspaceTemplatePath root name = pathJoin [workspaceTemplatesPath root, name]"

definition validateWorkspaceTemplateName :: "string \<Rightarrow> bool" where
  "validateWorkspaceTemplateName name = validateWorkspaceID name"

definition listWorkspaceTemplateNames :: "sys \<Rightarrow> string \<Rightarrow> world \<Rightarrow> template_error + string list" where
  "listWorkspaceTemplateNames sy root w =
     (case ReadDir sy w (workspaceTemplatesPath root) of
        Inl NotExist \<Rightarrow> Inr []
      | Inl ReadFailed \<Rightarrow> Inl TReadDir
      | Inr entries \<Rightarrow> Inr (sort (map fst (filter snd entries))))"

text \<open>The three texts of a missing template differ only in the list of the available ones.\<close>

definition resolveWorkspaceTemplate :: "string \<Rightarrow> string \<Rightarrow> world \<Rightarrow> template_error + workspaceTemplate" where
  "resolveWorkspaceTemplate root name0 w =
     (let name = (if TrimSpace name0 = [] then ''default'' else TrimSpace name0);
          templateDir = workspaceTemplatePath root name
      in if \<not> validateWorkspaceTemplateName name then Inl TName
         else case Stat w (workspaceTemplatesPath root) of
           Inl NotExist \<Rightarrow> Inl TNoTemplatesDir
         | Inl ReadFailed \<Rightarrow> Inl TStatTemplates
         | Inr (FileN _) \<Rightarrow> Inl TTemplatesNotDir
         | Inr DirN \<Rightarrow>
             (case Stat w templateDir of
                Inl NotExist \<Rightarrow> Inl TNotFound
              | Inl ReadFailed \<Rightarrow> Inl TStat
              | Inr (FileN _) \<Rightarrow> Inl TNotDir
              | Inr DirN \<Rightarrow> Inr \<lparr>tmplName = name, tmplPath = templateDir\<rparr>))"

subsection \<open>Checking a template\<close>

definition reservedReason :: "string \<Rightarrow> string option" where
  "reservedReason rel =
     (if rel = ''repos'' then Some (''reserved path '' @ [CHR 0x22] @ ''repos/'' @ [CHR 0x22] @ '' is not allowed'')
      else if rel = ''.git'' then Some (''reserved path '' @ [CHR 0x22] @ ''.git/'' @ [CHR 0x22] @ '' is not allowed'')
      else if rel = ''.kra.meta.json'' then Some (''reserved path '' @ [CHR 0x22] @ ''.kra.meta.json'' @ [CHR 0x22] @ '' is not allowed'')
      else None)"

text \<open>A directory \<open>repos\<close> or \<open>.git\<close> at the top is reported and not entered (\<open>filepath.SkipDir\<close>).\<close>

definition skippedDir :: "key \<Rightarrow> bool" where
  "skippedDir q \<longleftrightarrow> q = [''repos''] \<or> q = [''.git'']"

definition walkTemplate :: "sys \<Rightarrow> world \<Rightarrow> string \<Rightarrow> template_error + key list" where
  "walkTemplate sy w path =
     (let k = comps path;
          qs = filter (\<lambda>q. \<not> (length q > 1 \<and> skippedDir [hd q])) (tree sy (files w) k)
      in if fails w (SReadDir k) \<or> list_ex (\<lambda>q. files w (k @ q) = Some DirN \<and> \<not> skippedDir q \<and> fails w (SReadDir (k @ q))) qs
         then Inl TWalk else Inr qs)"

definition validateWorkspaceTemplate :: "sys \<Rightarrow> workspaceTemplate \<Rightarrow> world \<Rightarrow> template_error + workspaceTemplateViolation list" where
  "validateWorkspaceTemplate sy tmpl w =
     bindR (walkTemplate sy w (tmplPath tmpl)) (\<lambda>qs.
       Inr (sort_key (\<lambda>v. (vTemplate v, vPath v, vReason v))
         (List.map_filter (\<lambda>q. map_option (\<lambda>r. \<lparr>vTemplate = tmplName tmpl, vPath = join [slash] q, vReason = r\<rparr>)
            (reservedReason (join [slash] q))) qs)))"

subsection \<open>Copying a template\<close>

text \<open>\<open>os.OpenFile\<close> with \<open>O_EXCL\<close>, so that no file is overwritten.\<close>

definition copyTemplateFile :: "key \<Rightarrow> string \<Rightarrow> (template_error, unit) prog" where
  "copyTemplateFile src dst w =
     (let d = comps dst
      in if fails w (SRead src) then (Inl TCopyFile, w)
         else case files w src of
           Some (FileN b) \<Rightarrow>
             (if fails w (SCreateTemp d) \<or> files w (butlast d) \<noteq> Some DirN \<or> files w d \<noteq> None then (Inl TCopyFile, w)
              else if fails w (SWrite d) then (Inl TCopyFile, w\<lparr>files := (files w)(d \<mapsto> FileN (torn w))\<rparr>)
              else (Inr (), w\<lparr>files := (files w)(d \<mapsto> FileN b)\<rparr>))
         | _ \<Rightarrow> (Inl TCopyFile, w))"

definition copyEntry :: "key \<Rightarrow> string \<Rightarrow> key \<Rightarrow> (template_error, unit) prog" where
  "copyEntry src wsPath q w =
     (let target = pathJoin [wsPath, Clean (join [slash] q)]
      in case files w (src @ q) of
           None \<Rightarrow> (Inl TWalk, w)
         | Some DirN \<Rightarrow>
             (case MkdirAllP target w of
                (Inl _, w') \<Rightarrow> (Inl TMkdir, w')
              | (Inr _, w') \<Rightarrow> (if fails w (SReadDir (src @ q)) then Inl TWalk else Inr (), w'))
         | Some (FileN _) \<Rightarrow> copyTemplateFile (src @ q) target w)"

definition copyWorkspaceTemplate :: "sys \<Rightarrow> workspaceTemplate \<Rightarrow> string \<Rightarrow> (template_error, unit) prog" where
  "copyWorkspaceTemplate sy tmpl wsPath w =
     (let src = comps (tmplPath tmpl)
      in if fails w (SReadDir src) then (Inl TWalk, w)
         else forW (copyEntry src wsPath) (tree sy (files w) src) w)"

subsection \<open>Creating and removing templates\<close>

definition defaultWorkspaceTemplateAgentsContent :: string where
  "defaultWorkspaceTemplateAgentsContent = concat (map (\<lambda>l. l @ [CHR 0x0A])
     [''# workspace AGENTS guide'', [], ''## Directory map'', [],
      ''- notes/: investigation notes, decisions, TODOs, links'',
      ''- artifacts/: files and evidence (screenshots, logs, dumps, PoCs)'',
      ''- repos/: git worktrees (NOT Git-tracked; added via kra ws add-repo)'', [],
      ''Notes vs artifacts:'', ''- notes/: write what you learned and decided'',
      ''- artifacts/: store evidence files you may need later'', [], ''## Closing'', [],
      ''When you are done, run:'', ''  kra ws close <workspace-id>''])"

definition newTemplatePath :: "string \<Rightarrow> string \<Rightarrow> (template_error, string) prog" where
  "newTemplatePath root name =
     (let templatePath = workspaceTemplatePath root name
      in bindW (mapErr (\<lambda>_. TMkdir) (MkdirAllP (workspaceTemplatesPath root))) (\<lambda>_.
         look (\<lambda>w. case Stat w templatePath of
             Inr DirN \<Rightarrow> Inl TExists
           | Inr (FileN _) \<Rightarrow> Inl TExistsNotDir
           | Inl ReadFailed \<Rightarrow> Inl TStatPath
           | Inl NotExist \<Rightarrow> Inr templatePath)))"

definition createWorkspaceTemplateScaffold :: "string \<Rightarrow> string \<Rightarrow> (template_error, string) prog" where
  "createWorkspaceTemplateScaffold root name =
     bindW (newTemplatePath root name) (\<lambda>templatePath.
     bindW (mapErr (\<lambda>_. TNotes) (MkdirAllP (pathJoin [templatePath, ''notes'']))) (\<lambda>_.
     bindW (mapErr (\<lambda>_. TArtifacts) (MkdirAllP (pathJoin [templatePath, ''artifacts'']))) (\<lambda>_.
     bindW (mapErr (\<lambda>_. TAgents) (WriteFile (pathJoin [templatePath, ''AGENTS.md'']) defaultWorkspaceTemplateAgentsContent)) (\<lambda>_.
       ret templatePath))))"

definition createWorkspaceTemplateFromSource :: "sys \<Rightarrow> string \<Rightarrow> string \<Rightarrow> string \<Rightarrow> (template_error, string) prog" where
  "createWorkspaceTemplateFromSource sy root name from =
     bindW (look (resolveWorkspaceTemplate root from)) (\<lambda>tmpl.
     bindW (look (validateWorkspaceTemplate sy tmpl)) (\<lambda>violations.
     bindW (guardW (violations = []) (TViolations violations)) (\<lambda>_.
     bindW (newTemplatePath root name) (\<lambda>templatePath.
     bindW (mapErr (\<lambda>_. TMkdir) (MkdirAllP templatePath)) (\<lambda>_.
     bindW (onErr (copyWorkspaceTemplate sy tmpl templatePath) (\<lambda>_. ignore (RemoveAll templatePath)) (\<lambda>_. TCopy)) (\<lambda>_.
       ret templatePath))))))"

definition removeWorkspaceTemplate :: "string \<Rightarrow> string \<Rightarrow> (template_error, string) prog" where
  "removeWorkspaceTemplate root name =
     (let templatePath = workspaceTemplatePath root name
      in bindW (look (\<lambda>w. case Stat w templatePath of
                   Inl NotExist \<Rightarrow> Inl TNotFound
                 | Inl ReadFailed \<Rightarrow> Inl TStat
                 | Inr (FileN _) \<Rightarrow> Inl TNotDir
                 | Inr DirN \<Rightarrow> Inr ())) (\<lambda>_.
         bindW (mapErr (\<lambda>_. TRemove) (RemoveAll templatePath)) (\<lambda>_. ret templatePath)))"

text \<open>The commit: nothing is committed, without an error, when git knows no such path or nothing is staged.\<close>

definition templateStaged :: "string \<Rightarrow> string list" where
  "templateStaged out = filter (\<lambda>p. p \<noteq> []) (map TrimSpace (split_on (CHR 0x0A) (TrimSpace out)))"

definition commitTemplateChange :: "sys \<Rightarrow> string \<Rightarrow> string \<Rightarrow> string \<Rightarrow> (commit_error, string) prog" where
  "commitTemplateChange sy root templateName commitPrefix =
     (let templateArg = pathJoin [''templates'', templateName]; reset = resetCreateStaging sy root [templateArg]
      in bindW (mapErr GitError (ensureRootGitWorktree sy root)) (\<lambda>_.
         bindW (topPath sy root templateArg) (\<lambda>top.
         bindW (attempt (addArg sy root templateArg)) (\<lambda>r.
           case r of
             Inl e \<Rightarrow> if didNotMatch e then ret [] else bindW reset (\<lambda>_. throw (GitError e))
           | Inr _ \<Rightarrow>
               bindW (onErr (Run sy root [''diff'', ''--cached'', ''--name-only'']) (\<lambda>_. reset) GitError) (\<lambda>out.
                 let staged = templateStaged out
                 in checkStaged (\<lambda>p. prefix (top @ ''/'') p) reset staged
                      (if staged = [] then ret []
                       else bindW (onErr (Run sy root [''commit'', ''--only'', ''-m'', commitPrefix @ '': '' @ templateName, ''--'', templateArg])
                                     (\<lambda>_. reset) GitError) (\<lambda>_.
                            bindW (mapErr GitError (Run sy root [''rev-parse'', ''HEAD''])) (\<lambda>sha. ret (TrimSpace sha)))))))))"

definition CommitCreate :: "sys \<Rightarrow> string \<Rightarrow> string \<Rightarrow> (commit_error, string) prog" where
  "CommitCreate sy root templateName = commitTemplateChange sy root templateName ''template-create''"

definition CommitRemove :: "sys \<Rightarrow> string \<Rightarrow> string \<Rightarrow> (commit_error, string) prog" where
  "CommitRemove sy root templateName = commitTemplateChange sy root templateName ''template-remove''"

subsection \<open>The commands\<close>

text \<open>The flags \<open>--name\<close> and, for create only, \<open>--from\<close>.\<close>

fun parseTemplateFlags :: "bool \<Rightarrow> string list \<Rightarrow> string \<times> string \<Rightarrow> exit_code + (string \<times> string) \<times> string list" where
  "parseTemplateFlags hasFrom [] f = Inr (f, [])"
| "parseTemplateFlags hasFrom (a # as) f =
     (if \<not> prefix ''-'' a then Inr (f, a # as)
      else if a = ''-h'' \<or> a = ''--help'' then Inl ExitOK
      else if a = ''--name'' then
        (case as of [] \<Rightarrow> Inl ExitUsage | v # bs \<Rightarrow> parseTemplateFlags hasFrom bs (TrimSpace v, snd f))
      else if hasFrom \<and> a = ''--from'' then
        (case as of [] \<Rightarrow> Inl ExitUsage | v # bs \<Rightarrow> parseTemplateFlags hasFrom bs (fst f, TrimSpace v))
      else Inl ExitUsage)"

text \<open>The name: from the flag, the argument or the user; it must be a valid name.\<close>

definition templateNameArg :: "answer \<Rightarrow> string \<Rightarrow> string list \<Rightarrow> exit_code + string" where
  "templateNameArg ans flagName args =
     bindR (case args of
              [] \<Rightarrow> Inr flagName
            | [a] \<Rightarrow> if flagName \<noteq> [] then Inl ExitUsage else Inr (TrimSpace a)
            | _ \<Rightarrow> Inl ExitUsage) (\<lambda>n0.
     bindR (if n0 = [] then (case ans of Inl _ \<Rightarrow> Inl ExitError | Inr line \<Rightarrow> Inr (TrimSpace line)) else Inr n0) (\<lambda>name.
       if validateWorkspaceTemplateName name then Inr name else Inl ExitUsage))"

definition runTemplateCreate :: "sys \<Rightarrow> answer \<Rightarrow> string list \<Rightarrow> world \<Rightarrow> exit_code \<times> world" where
  "runTemplateCreate sy ans args0 w =
     (case bindR (parseTemplateFlags True args0 ([], [])) (\<lambda>((flagName, from), args).
             bindR (templateNameArg ans flagName args) (\<lambda>name.
               if from \<noteq> [] \<and> \<not> validateWorkspaceTemplateName from then Inl ExitUsage else Inr (name, from))) of
        Inl c \<Rightarrow> (c, w)
      | Inr (name, from) \<Rightarrow>
      (case resolveRoot w of
         Inl c \<Rightarrow> (c, w)
       | Inr root \<Rightarrow>
      (case (if from = [] then createWorkspaceTemplateScaffold root name else createWorkspaceTemplateFromSource sy root name from) w of
         (Inl _, w1) \<Rightarrow> (ExitError, w1)
       | (Inr _, w1) \<Rightarrow>
           (case CommitCreate sy root name w1 of (Inl _, w2) \<Rightarrow> (ExitError, w2) | (Inr _, w2) \<Rightarrow> (ExitOK, w2)))))"

definition runTemplateRemove :: "sys \<Rightarrow> answer \<Rightarrow> string list \<Rightarrow> world \<Rightarrow> exit_code \<times> world" where
  "runTemplateRemove sy ans args0 w =
     (case bindR (parseTemplateFlags False args0 ([], [])) (\<lambda>((flagName, from), args). templateNameArg ans flagName args) of
        Inl c \<Rightarrow> (c, w)
      | Inr name \<Rightarrow>
      (case resolveRoot w of
         Inl c \<Rightarrow> (c, w)
       | Inr root \<Rightarrow>
      (case removeWorkspaceTemplate root name w of
         (Inl _, w1) \<Rightarrow> (ExitError, w1)
       | (Inr _, w1) \<Rightarrow>
           (case CommitRemove sy root name w1 of (Inl _, w2) \<Rightarrow> (ExitError, w2) | (Inr _, w2) \<Rightarrow> (ExitOK, w2)))))"

text \<open>One entry of \<open>templates\<close>; the report is its name and its violations.\<close>

definition templateReport :: "sys \<Rightarrow> string \<Rightarrow> world \<Rightarrow> string \<times> bool \<Rightarrow> template_error + string \<times> workspaceTemplateViolation list" where
  "templateReport sy templatesDir w ent =
     (case ent of (name, dir) \<Rightarrow>
        if \<not> dir then Inr (name, [\<lparr>vTemplate = name, vPath = ''.'', vReason = ''template entry must be a directory''\<rparr>])
        else bindR (validateWorkspaceTemplate sy \<lparr>tmplName = name, tmplPath = pathJoin [templatesDir, name]\<rparr> w) (\<lambda>vs.
          Inr (name, (if validateWorkspaceTemplateName name then []
                      else [\<lparr>vTemplate = name, vPath = ''.'', vReason = ''invalid template name''\<rparr>]) @ vs)))"

fun mapR :: "('a \<Rightarrow> 'e + 'b) \<Rightarrow> 'a list \<Rightarrow> 'e + 'b list" where
  "mapR f [] = Inr []"
| "mapR f (x # xs) = bindR (f x) (\<lambda>y. bindR (mapR f xs) (\<lambda>ys. Inr (y # ys)))"

definition validateWorkspaceTemplates :: "sys \<Rightarrow> string \<Rightarrow> string \<Rightarrow> world \<Rightarrow> template_error + (string \<times> workspaceTemplateViolation list) list" where
  "validateWorkspaceTemplates sy root targetName w =
     (if TrimSpace targetName \<noteq> [] then
        bindR (resolveWorkspaceTemplate root targetName w) (\<lambda>tmpl.
        bindR (validateWorkspaceTemplate sy tmpl w) (\<lambda>vs. Inr [(tmplName tmpl, vs)]))
      else case ReadDir sy w (workspaceTemplatesPath root) of
        Inl NotExist \<Rightarrow> Inl TNoTemplatesDir
      | Inl ReadFailed \<Rightarrow> Inl TReadDir
      | Inr entries \<Rightarrow> if entries = [] then Inl TNoTemplates else mapR (templateReport sy (workspaceTemplatesPath root) w) entries)"

definition runTemplateValidate :: "sys \<Rightarrow> string list \<Rightarrow> world \<Rightarrow> exit_code" where
  "runTemplateValidate sy args0 w =
     (case parseTemplateFlags False args0 ([], []) of
        Inl c \<Rightarrow> c
      | Inr ((targetName, _), args) \<Rightarrow>
      if args \<noteq> [] then ExitUsage
      else if targetName \<noteq> [] \<and> \<not> validateWorkspaceTemplateName targetName then ExitUsage
      else case resolveRoot w of
        Inl c \<Rightarrow> c
      | Inr root \<Rightarrow>
          (case validateWorkspaceTemplates sy root targetName w of
             Inl _ \<Rightarrow> ExitError
           | Inr reports \<Rightarrow> if list_all (\<lambda>(n, vs). vs = []) reports then ExitOK else ExitError))"

subsection \<open>What a copy does\<close>

lemma copyTemplateFile_frame:
  assumes "copyTemplateFile src dst w = (r, w')" and "files w' k \<noteq> files w k"
  shows "k = comps dst \<and> files w k = None"
  using assms by (auto simp: copyTemplateFile_def Let_def split: if_splits option.splits node.splits)

lemma MkdirAllP_frame:
  assumes "MkdirAllP p w = (r, w')" and "files w' k \<noteq> files w k"
  shows "prefix k (comps p) \<and> files w k = None"
  using assms by (auto simp: MkdirAllP_def MkdirAll_def mkdirs_def split: if_splits)

lemma MkdirAllP_made:
  assumes "MkdirAllP p w = (Inr u, w')"
  shows "files w' (comps p) = Some DirN"
proof -
  have "\<not> below_file (files w) (comps p @ [[]])" and "w' = w\<lparr>files := mkdirs (files w) (comps p)\<rparr>"
    using assms by (auto simp: MkdirAllP_def MkdirAll_def split: if_splits)
  moreover have "\<not> below_file F (k @ [[]]) \<Longrightarrow> F k \<noteq> Some (FileN b)" for F :: fs and k b
    by (auto simp: below_file_def list_ex_iff prefixes_snoc dest!: bspec [of _ _ k])
  ultimately show ?thesis
    by (cases "files w (comps p)"; cases "the (files w (comps p))") (auto simp: mkdirs_def)
qed

lemma target_comps:
  assumes "IsAbs wsPath" and "plains q" and "q \<noteq> []"
  shows "comps (pathJoin [wsPath, Clean (join [slash] q)]) = comps wsPath @ q"
proof -
  have split: "split_on slash (join [slash] q) = q"
    using assms(2,3) by (auto simp: plain_def list_all_iff intro!: split_join)
  obtain c cs where q: "q = c # cs" "plain c" using assms(2,3) by (cases q) auto
  then obtain x xs where c: "c = x # xs" "x \<noteq> slash" by (cases c) (auto simp: plain_def)
  have j: "join [slash] q = x # (xs @ (if cs = [] then [] else slash # join [slash] cs))"
    unfolding q(1) c by (simp add: join_Cons)
  then have "\<not> IsAbs (join [slash] q)" "join [slash] q \<noteq> []" using c by (simp_all add: IsAbs_def)
  then have "Clean (join [slash] q) = join [slash] q"
    using split assms(2,3) by (simp add: Clean_def Let_def clean_comps_plains)
  moreover have "wsPath \<noteq> []" "IsAbs (wsPath @ slash # join [slash] q)" using assms(1) by (auto simp: IsAbs_def)
  ultimately have "pathJoin [wsPath, Clean (join [slash] q)] = abs_path (comps wsPath @ q)"
    using comps_append_plain [OF assms(2)] by (simp add: pathJoin_def join_Cons Clean_abs)
  then show ?thesis using assms(2) by simp
qed

lemma copyEntry_frame:
  assumes "copyEntry src ws q w = (r, w')" and "files w' k \<noteq> files w k" and "IsAbs ws" and "plains q" and "q \<noteq> []"
  shows "prefix k (comps ws @ q) \<and> files w k = None"
  using assms(1,2) copyTemplateFile_frame MkdirAllP_frame
  unfolding copyEntry_def Let_def target_comps [OF assms(3-5), symmetric]
  by (fastforce split: option.splits node.splits prod.splits sum.splits)

lemma copyEntry_made:
  assumes "copyEntry src ws q w = (Inr (), w')" and "IsAbs ws" and "plains q" and "q \<noteq> []"
  shows "files w' (comps ws @ q) = files w (src @ q)"
proof (cases "files w (src @ q)")
  case None
  then show ?thesis using assms(1) by (simp add: copyEntry_def)
next
  case (Some n)
  note t = target_comps [OF assms(2-4)]
  show ?thesis
  proof (cases n)
    case DirN
    then have "MkdirAllP (pathJoin [ws, Clean (join [slash] q)]) w = (Inr (), w')"
      using assms(1) Some by (auto simp: copyEntry_def Let_def split: prod.splits sum.splits if_splits)
    from MkdirAllP_made [OF this] show ?thesis using t Some DirN by simp
  next
    case (FileN b)
    then show ?thesis
      using assms(1) Some t by (auto simp: copyEntry_def copyTemplateFile_def Let_def split: if_splits)
  qed
qed

lemma copy_frame:
  assumes "forW (copyEntry S ws) qs w = (r, w')" and "IsAbs ws" and "\<forall>q\<in>set qs. plains q \<and> q \<noteq> []"
    and "files w' k \<noteq> files w k"
  shows "files w k = None \<and> (\<exists>q\<in>set qs. prefix k (comps ws @ q))"
  using assms(1,3,4)
proof (induction qs arbitrary: w)
  case (Cons q qs)
  obtain x u where u: "copyEntry S ws q w = (x, u)" by fastforce
  have fr: "files w k = None \<and> prefix k (comps ws @ q)" if "files u k \<noteq> files w k"
    using copyEntry_frame [OF u that assms(2)] Cons.prems(2) by simp
  show ?case
  proof (cases "files u k = files w k")
    case True
    then have "x = Inr ()" and "forW (copyEntry S ws) qs u = (r, w')"
      using Cons.prems(1,3) u by (cases x, auto simp: bindW_def)+
    then show ?thesis using Cons.IH [of u] Cons.prems True by auto
  qed (use fr in simp)
qed (simp add: ret_def)

lemma copy_all:
  assumes "forW (copyEntry S ws) qs w = (Inr (), w')" and "IsAbs ws" and "\<forall>q\<in>set qs. plains q \<and> q \<noteq> []"
    and "\<not> prefix S (comps ws)" and "\<not> prefix (comps ws) S" and "q \<in> set qs"
  shows "files w' (comps ws @ q) = files w (S @ q) \<and> files w (S @ q) \<noteq> None"
  using assms(1,3,6)
proof (induction qs arbitrary: w)
  case (Cons r qs)
  then obtain u where u: "copyEntry S ws r w = (Inr (), u)" and rest: "forW (copyEntry S ws) qs u = (Inr (), w')"
    by (auto simp: bindW_Inr)
  have pr: "plains r" "r \<noteq> []" and pqs: "\<forall>q\<in>set qs. plains q \<and> q \<noteq> []" using Cons.prems by auto
  have S: "files u (S @ t) = files w (S @ t)" for t
  proof (rule ccontr)
    assume "\<not> ?thesis"
    then have "prefix (S @ t) (comps ws @ r)" using copyEntry_frame [OF u _ assms(2) pr] by blast
    then have "prefix S (comps ws @ r)" "prefix (comps ws) (comps ws @ r)" by (auto dest: append_prefixD)
    then show False using assms(4,5) prefix_same_cases by blast
  qed
  show ?case
  proof (cases "q \<in> set qs")
    case True
    then show ?thesis using Cons.IH [OF rest pqs True] S by simp
  next
    case False
    then have "q = r" using Cons.prems by simp
    moreover have "files u (comps ws @ r) = files w (S @ r)" by (rule copyEntry_made [OF u assms(2) pr])
    moreover have "files w (S @ r) \<noteq> None" using u by (auto simp: copyEntry_def Let_def split: option.splits)
    ultimately show ?thesis using copy_frame [OF rest assms(2) pqs, of "comps ws @ r"] by metis
  qed
qed simp

lemma template_path_plain:
  assumes "IsAbs root" and "plain name"
  shows "comps (workspaceTemplatePath root name) = comps root @ [''templates'', name]"
proof -
  have "plains [''templates'']" "plains [name]" using assms(2) by (simp_all add: plain_def)
  then show ?thesis
    by (simp add: workspaceTemplatePath_def workspaceTemplatesPath_def pathJoin_abs [OF assms(1)])
qed

lemma template_path_dotdot:
  assumes "IsAbs root"
  shows "comps (workspaceTemplatePath root ''..'') = comps root"
proof -
  let ?t = "abs_path (comps root @ [''templates''])"
  have pl: "plains [''templates'']" by (simp add: plain_def)
  have "comps (?t @ slash # join [slash] [''..'']) = comps root"
    unfolding comps_join_Cons using pl by simp
  moreover have "workspaceTemplatePath root ''..'' = Clean (?t @ slash # join [slash] [''..''])"
    unfolding workspaceTemplatePath_def workspaceTemplatesPath_def pathJoin_abs [OF assms pl]
    by (simp add: pathJoin_def join_Cons abs_path_def)
  moreover have "IsAbs (?t @ slash # join [slash] [''..''])" by (simp add: IsAbs_def abs_path_def)
  ultimately show ?thesis by (simp add: Clean_abs)
qed

subsection \<open>Properties\<close>

text \<open>
  C39: \<open>kra template remove ..\<close> deletes the whole root: the name of two dots passes the check of names, its path is
  the root itself, and everything below it, workspaces and archive included, is removed.
\<close>

theorem template_remove_escapes:
  assumes "IsAbs root" and "Stat w root = Inr DirN" and "\<not> fails w (SRemoveAll (comps root))"
  shows "templateNameArg ans [] [''..''] = Inr ''..''
    \<and> (\<exists>p w'. removeWorkspaceTemplate root ''..'' w = (Inr p, w') \<and> (\<forall>k. files w' (comps root @ k) = None))"
proof
  have "validateWorkspaceTemplateName ''..''" "TrimSpace ''..'' = ''..''" by code_simp+
  then show "templateNameArg ans [] [''..''] = Inr ''..''" by (simp add: templateNameArg_def)
  have "Stat w (workspaceTemplatePath root ''..'') = Inr DirN"
    using assms(2) by (simp add: Stat_def template_path_dotdot [OF assms(1)])
  moreover have "RemoveAll (workspaceTemplatePath root ''..'') w = (Inr (), w\<lparr>files := remove_tree (files w) (comps root)\<rparr>)"
    using assms(3) by (simp add: RemoveAll_def Let_def template_path_dotdot [OF assms(1)])
  ultimately show "\<exists>p w'. removeWorkspaceTemplate root ''..'' w = (Inr p, w') \<and> (\<forall>k. files w' (comps root @ k) = None)"
    by (simp add: removeWorkspaceTemplate_def Let_def bindW_def look_def mapErr_def ret_def remove_tree_def)
qed

theorem template_remove_escapes_witness:
  "\<exists>w'. files ws_world [''r'', ''workspaces'', ''T-1'', ''notes.md''] = Some (FileN ''hello'')
     \<and> removeWorkspaceTemplate ''/r'' ''..'' ws_world = (Inr ''/r'', w') \<and> files w' [''r'', ''workspaces'', ''T-1'', ''notes.md''] = None"
proof -
  have "IsAbs ''/r''" "Stat ws_world ''/r'' = Inr DirN" and k: "comps ''/r'' = [''r'']"
    and t: "workspaceTemplatePath ''/r'' ''..'' = ''/r''" by code_simp+
  moreover have "\<not> fails ws_world (SRemoveAll (comps ''/r''))" by (simp add: ws_world_def demo_world_def)
  ultimately obtain p w' where w: "removeWorkspaceTemplate ''/r'' ''..'' ws_world = (Inr p, w')" "\<forall>k. files w' (''r'' # k) = None"
    using template_remove_escapes [of "''/r''" ws_world "Inl ()"] by auto
  moreover have "p = ''/r''" using w(1) t by (auto simp: removeWorkspaceTemplate_def bindW_Inr Let_def)
  moreover have "files ws_world [''r'', ''workspaces'', ''T-1'', ''notes.md''] = Some (FileN ''hello'')" by code_simp
  ultimately show ?thesis by auto
qed

end
