(* ===== verification/Kra_Config.thy ===== *)
theory Kra_Config
  imports Kra_Paths Go_Url
begin

text \<open>
  \<open>internal/config/config.go\<close> and \<open>loadMergedConfig\<close> (\<open>internal/cli/config.go\<close>): the user configuration, read from a
  global file and a file of the root. The YAML library is the parameter \<open>yaml\<close>: it decodes a text into the
  configuration or fails.
\<close>

record config =
  cfgTemplate :: string       \<comment> \<open>workspace.defaults.template\<close>
  cfgBranch :: string         \<comment> \<open>workspace.branch.template\<close>
  cfgBaseURL :: string        \<comment> \<open>integration.jira.base_url\<close>
  cfgSpace :: string          \<comment> \<open>integration.jira.defaults.space\<close>
  cfgProject :: string        \<comment> \<open>integration.jira.defaults.project\<close>
  cfgType :: string           \<comment> \<open>integration.jira.defaults.type\<close>

definition zero_config :: config where
  "zero_config = \<lparr>cfgTemplate = [], cfgBranch = [], cfgBaseURL = [], cfgSpace = [], cfgProject = [], cfgType = []\<rparr>"

datatype config_issue = BadBaseURL | BadType | SpaceAndProject

datatype config_error = ConfigPathErr path_error | ConfigReadErr | ConfigYamlErr | ConfigInvalid "config_issue list"

definition NormalizeConfig :: "config \<Rightarrow> config" where
  "NormalizeConfig c =
     \<lparr>cfgTemplate = TrimSpace (cfgTemplate c), cfgBranch = TrimSpace (cfgBranch c), cfgBaseURL = TrimSpace (cfgBaseURL c),
      cfgSpace = ToUpper (TrimSpace (cfgSpace c)), cfgProject = ToUpper (TrimSpace (cfgProject c)),
      cfgType = ToLower (TrimSpace (cfgType c))\<rparr>"

text \<open>\<open>url.Parse\<close> with a scheme and a host: \<open>scheme://host\<close>, where the scheme is a letter followed by letters, digits, plus, minus and dots.\<close>

definition urlScheme :: "string \<Rightarrow> (string \<times> string) option" where
  "urlScheme raw =
     (let s = takeWhile (\<lambda>c. is_alnum c \<or> c \<in> set ''+-.'') raw; rest = drop (length s) raw
      in if s = [] \<or> is_digit (hd s) \<or> hd s \<in> set ''+-.'' \<or> rest = [] \<or> hd rest \<noteq> CHR '':'' then None
         else Some (ToLower s, tl rest))"

definition absoluteURL :: "string \<Rightarrow> bool" where
  "absoluteURL raw =
     (case urlScheme raw of
        None \<Rightarrow> False
      | Some (scheme, rest) \<Rightarrow>
          prefix ''//'' rest \<and> (case parseAfterSlashes (drop 2 rest) of None \<Rightarrow> False | Some (host, path) \<Rightarrow> host \<noteq> []))"

definition configIssues :: "config \<Rightarrow> config_issue list" where
  "configIssues c =
     (if cfgBaseURL c \<noteq> [] \<and> \<not> absoluteURL (cfgBaseURL c) then [BadBaseURL] else [])
     @ (if cfgType c \<noteq> [] \<and> cfgType c \<noteq> ''sprint'' \<and> cfgType c \<noteq> ''jql'' then [BadType] else [])
     @ (if cfgSpace c \<noteq> [] \<and> cfgProject c \<noteq> [] then [SpaceAndProject] else [])"

definition ValidateConfig :: "config \<Rightarrow> config_error + unit" where
  "ValidateConfig c = (if configIssues c = [] then Inr () else Inl (ConfigInvalid (configIssues c)))"

definition LoadConfigFile :: "(string \<Rightarrow> config option) \<Rightarrow> string \<Rightarrow> world \<Rightarrow> config_error + config" where
  "LoadConfigFile yaml path w =
     (case ReadFile w path of
        Inl NotExist \<Rightarrow> Inr zero_config
      | Inl ReadFailed \<Rightarrow> Inl ConfigReadErr
      | Inr b \<Rightarrow>
          if TrimSpace b = [] then Inr zero_config
          else (case yaml b of
                  None \<Rightarrow> Inl ConfigYamlErr
                | Some cfg \<Rightarrow> bindR (ValidateConfig (NormalizeConfig cfg)) (\<lambda>_. Inr (NormalizeConfig cfg))))"

definition over :: "string \<Rightarrow> string \<Rightarrow> string" where
  "over root global = (if root \<noteq> [] then root else global)"

definition MergeConfig :: "config \<Rightarrow> config \<Rightarrow> config" where
  "MergeConfig global0 root0 =
     (let global = NormalizeConfig global0; root = NormalizeConfig root0
      in NormalizeConfig
         \<lparr>cfgTemplate = over (cfgTemplate root) (cfgTemplate global), cfgBranch = over (cfgBranch root) (cfgBranch global),
          cfgBaseURL = over (cfgBaseURL root) (cfgBaseURL global), cfgSpace = over (cfgSpace root) (cfgSpace global),
          cfgProject = over (cfgProject root) (cfgProject global), cfgType = over (cfgType root) (cfgType global)\<rparr>)"

definition loadMergedConfig :: "(string \<Rightarrow> config option) \<Rightarrow> string \<Rightarrow> world \<Rightarrow> config_error + config" where
  "loadMergedConfig yaml root w =
     (case ConfigPath w of
        Inl e \<Rightarrow> Inl (ConfigPathErr e)
      | Inr globalPath \<Rightarrow>
          bindR (LoadConfigFile yaml globalPath w) (\<lambda>globalCfg.
          bindR (LoadConfigFile yaml (RootConfigPath root) w) (\<lambda>rootCfg.
            let merged = MergeConfig globalCfg rootCfg
            in bindR (ValidateConfig merged) (\<lambda>_. Inr merged))))"

subsection \<open>Case and white space\<close>

text \<open>A map of bytes that neither moves nor produces a byte of a white space rune commutes with trimming.\<close>

definition fixesBytes :: "(char \<Rightarrow> char) \<Rightarrow> string list \<Rightarrow> bool" where
  "fixesBytes f seqs \<longleftrightarrow> (\<forall>p\<in>set seqs. \<forall>b\<in>set p. \<forall>x. f x = b \<longleftrightarrow> x = b)"

lemma prefix_map_fixed: "\<forall>b\<in>set p. \<forall>x. f x = b \<longleftrightarrow> x = b \<Longrightarrow> prefix p (map f s) \<longleftrightarrow> prefix p s"
proof (induction p arbitrary: s)
  case (Cons b p)
  then have "\<And>x. b = f x \<longleftrightarrow> b = x" by (metis list.set_intros(1))
  with Cons show ?case by (cases s) auto
qed simp

lemma leading_map: "fixesBytes f seqs \<Longrightarrow> leading seqs (map f s) = leading seqs s"
  unfolding leading_def fixesBytes_def by (intro find_cong) (auto simp: prefix_map_fixed)

lemma strip_map: "fixesBytes f seqs \<Longrightarrow> strip seqs (map f s) = map f (strip seqs s)"
proof (induction seqs s rule: strip.induct)
  case (1 seqs s)
  show ?case
  proof (cases "leading seqs s")
    case None
    then show ?thesis using leading_map [OF 1(2)] by (simp add: strip.simps [of seqs s] strip.simps [of seqs "map f s"])
  next
    case (Some p)
    then show ?thesis
      using leading_map [OF 1(2)] 1(1) [OF Some 1(2)]
      by (simp add: strip.simps [of seqs s] strip.simps [of seqs "map f s"] drop_map)
  qed
qed

lemma TrimSpace_map:
  assumes "fixesBytes f space_runes"
  shows "TrimSpace (map f s) = map f (TrimSpace s)"
proof -
  have "fixesBytes f (map rev space_runes)" using assms by (simp add: fixesBytes_def)
  then show ?thesis
    using strip_map assms by (simp add: TrimSpace_def trimLeftSpace_def trimRightSpace_def rev_map)
qed

lemma space_not_letter: "\<forall>p\<in>set space_runes. \<forall>b\<in>set p. \<not> (CHR ''A'' \<le> b \<and> b \<le> CHR ''Z'') \<and> \<not> (CHR ''a'' \<le> b \<and> b \<le> CHR ''z'')"
  by code_simp

lemma case_letters:
  "CHR ''a'' \<le> c \<Longrightarrow> c \<le> CHR ''z'' \<Longrightarrow> CHR ''A'' \<le> upperByte c \<and> upperByte c \<le> CHR ''Z''"
  "CHR ''A'' \<le> c \<Longrightarrow> c \<le> CHR ''Z'' \<Longrightarrow> CHR ''a'' \<le> lowerByte c \<and> lowerByte c \<le> CHR ''z''"
  by (auto simp: upperByte_def lowerByte_def less_eq_char_def)

lemma case_fixes: "fixesBytes upperByte space_runes" "fixesBytes lowerByte space_runes"
proof -
  have "upperByte x = b \<longleftrightarrow> x = b" "lowerByte x = b \<longleftrightarrow> x = b" if "p \<in> set space_runes" "b \<in> set p" for p b x
    using space_not_letter that case_letters [of x] by (auto simp: upperByte_def lowerByte_def split: if_splits)
  then show "fixesBytes upperByte space_runes" "fixesBytes lowerByte space_runes" by (auto simp: fixesBytes_def)
qed

lemma case_idem: "ToUpper (ToUpper s) = ToUpper s" "ToLower (ToLower s) = ToLower s"
proof -
  have lt: "CHR ''Z'' < CHR ''a''" by code_simp
  have "upperByte (upperByte c) = upperByte c" for c
  proof (cases "CHR ''a'' \<le> c \<and> c \<le> CHR ''z''")
    case True
    then have "\<not> CHR ''a'' \<le> upperByte c" using case_letters(1) lt by (meson leD order_le_less_trans)
    then show ?thesis by (subst upperByte_def) simp
  next
    case False
    then have "upperByte c = c" by (auto simp: upperByte_def)
    then show ?thesis by simp
  qed
  moreover have "lowerByte (lowerByte c) = lowerByte c" for c
  proof (cases "CHR ''A'' \<le> c \<and> c \<le> CHR ''Z''")
    case True
    then have "\<not> lowerByte c \<le> CHR ''Z''" using case_letters(2) lt by (meson leD order_less_le_trans)
    then show ?thesis by (subst lowerByte_def) simp
  next
    case False
    then have "lowerByte c = c" by (auto simp: lowerByte_def)
    then show ?thesis by simp
  qed
  ultimately show "ToUpper (ToUpper s) = ToUpper s" "ToLower (ToLower s) = ToLower s" by (simp_all add: ToUpper_def ToLower_def)
qed

lemma trim_case: "TrimSpace (ToUpper (TrimSpace s)) = ToUpper (TrimSpace s)" "TrimSpace (ToLower (TrimSpace s)) = ToLower (TrimSpace s)"
  by (simp_all add: ToUpper_def ToLower_def TrimSpace_map case_fixes)

lemma normalize_idem: "NormalizeConfig (NormalizeConfig c) = NormalizeConfig c"
  by (simp add: NormalizeConfig_def trim_case case_idem)

lemma over_norm:
  "TrimSpace (over (TrimSpace a) (TrimSpace b)) = over (TrimSpace a) (TrimSpace b)"
  "ToUpper (TrimSpace (over (ToUpper (TrimSpace a)) (ToUpper (TrimSpace b)))) = over (ToUpper (TrimSpace a)) (ToUpper (TrimSpace b))"
  "ToLower (TrimSpace (over (ToLower (TrimSpace a)) (ToLower (TrimSpace b)))) = over (ToLower (TrimSpace a)) (ToLower (TrimSpace b))"
  by (simp_all add: over_def trim_case case_idem)

subsection \<open>Properties\<close>

lemma merge_fields:
  "MergeConfig g r =
     (let g = NormalizeConfig g; r = NormalizeConfig r
      in \<lparr>cfgTemplate = over (cfgTemplate r) (cfgTemplate g), cfgBranch = over (cfgBranch r) (cfgBranch g),
          cfgBaseURL = over (cfgBaseURL r) (cfgBaseURL g), cfgSpace = over (cfgSpace r) (cfgSpace g),
          cfgProject = over (cfgProject r) (cfgProject g), cfgType = over (cfgType r) (cfgType g)\<rparr>)"
  by (simp add: MergeConfig_def Let_def NormalizeConfig_def over_norm)

text \<open>
  C40: when the global file and the file of the root are both valid, the merged configuration has no fault but one: it
  names both a space and a project, which happens exactly when one file sets the space and the other the project,
  so that the file of the root cannot override the scope of the global one.
\<close>

theorem merge_config:
  assumes "configIssues (NormalizeConfig g) = []" and "configIssues (NormalizeConfig r) = []"
  shows "configIssues (MergeConfig g r) =
    (if (cfgSpace (NormalizeConfig g) \<noteq> [] \<and> cfgProject (NormalizeConfig r) \<noteq> [])
        \<or> (cfgProject (NormalizeConfig g) \<noteq> [] \<and> cfgSpace (NormalizeConfig r) \<noteq> []) then [SpaceAndProject] else [])"
  using assms by (auto simp: merge_fields Let_def configIssues_def over_def split: if_splits)

definition global_cfg :: config where
  "global_cfg = zero_config\<lparr>cfgSpace := ''team'', cfgTemplate := '' base ''\<rparr>"

definition root_cfg :: config where
  "root_cfg = zero_config\<lparr>cfgProject := ''app'', cfgType := ''JQL''\<rparr>"

theorem merge_config_witness:
  "configIssues (MergeConfig global_cfg root_cfg) = [SpaceAndProject] \<and> configIssues (MergeConfig global_cfg global_cfg) = []"
proof -
  have "configIssues (NormalizeConfig global_cfg) = []" "configIssues (NormalizeConfig root_cfg) = []"
    "cfgSpace (NormalizeConfig global_cfg) = ''TEAM''" "cfgProject (NormalizeConfig root_cfg) = ''APP''"
    "cfgProject (NormalizeConfig global_cfg) = []" by code_simp+
  then show ?thesis using merge_config [of global_cfg root_cfg] merge_config [of global_cfg global_cfg] by simp
qed

end
