(* ===== verification/Ws_Create.thy ===== *)
theory Ws_Create
  imports Ws_Template Kra_Config State_Registry
begin

text \<open>
  Creating a workspace: \<open>ws_workspace_create_common.go\<close>, the handler of \<open>ws_create.go\<close> and the service of
  \<open>internal/app/wscreate\<close>. A template is copied into a new directory and the metadata is written; a failure
  removes the directory again. The Jira port is the parameter \<open>fetch\<close>, which gives the key and the summary of an issue.
\<close>

datatype create_error =
    CrWsExists | CrStatWs | CrArchived | CrStatArchive | CrTemplate template_error | CrMkdir | CrCopy template_error
  | CrMeta meta_error

definition createGuards :: "string \<Rightarrow> string \<Rightarrow> world \<Rightarrow> create_error + unit" where
  "createGuards root wid w =
     (case Stat w (pathJoin [root, ''workspaces'', wid]) of
        Inr _ \<Rightarrow> Inl CrWsExists
      | Inl ReadFailed \<Rightarrow> Inl CrStatWs
      | Inl NotExist \<Rightarrow>
          (case Stat w (pathJoin [root, ''archive'', wid]) of
             Inr _ \<Rightarrow> Inl CrArchived
           | Inl ReadFailed \<Rightarrow> Inl CrStatArchive
           | Inl NotExist \<Rightarrow> Inr ()))"

definition usableTemplate :: "sys \<Rightarrow> string \<Rightarrow> string \<Rightarrow> world \<Rightarrow> create_error + workspaceTemplate" where
  "usableTemplate sy root name w =
     (case bindR (resolveWorkspaceTemplate root (if TrimSpace name = [] then ''default'' else name) w) (\<lambda>tmpl.
             bindR (validateWorkspaceTemplate sy tmpl w) (\<lambda>vs. if vs = [] then Inr tmpl else Inl (TViolations vs))) of
        Inl e \<Rightarrow> Inl (CrTemplate e)
      | Inr tmpl \<Rightarrow> Inr tmpl)"

definition createWorkspaceAtRoot :: "sys \<Rightarrow> string \<Rightarrow> string \<Rightarrow> string \<Rightarrow> string \<Rightarrow> string \<Rightarrow> (create_error, string) prog" where
  "createWorkspaceAtRoot sy root wid title sourceURL templateName =
     (let wsPath = pathJoin [root, ''workspaces'', wid]; cleanup = ignore (RemoveAll wsPath)
      in bindW (look (createGuards root wid)) (\<lambda>_.
         bindW (look (usableTemplate sy root templateName)) (\<lambda>tmpl.
         bindW (mapErr (\<lambda>exists. if exists then CrWsExists else CrMkdir) (Mkdir wsPath)) (\<lambda>_.
         bindW (onErr (copyWorkspaceTemplate sy tmpl wsPath) (\<lambda>_. cleanup) CrCopy) (\<lambda>_.
         bindW (onErr (\<lambda>w. writeWorkspaceMetaFile wsPath (newWorkspaceMetaFileForCreate wid title sourceURL (clock w)) w) (\<lambda>_. cleanup) CrMeta) (\<lambda>_.
           ret wsPath))))))"

subsection \<open>The command\<close>

record create_flags =
  crNoPrompt :: bool
  crJira :: string
  crID :: string
  crTitle :: string
  crFormat :: string
  crTemplate :: string

definition createDefaults :: create_flags where
  "createDefaults = \<lparr>crNoPrompt = False, crJira = [], crID = [], crTitle = [], crFormat = ''human'', crTemplate = []\<rparr>"

fun parseCreateFlags :: "string list \<Rightarrow> create_flags \<Rightarrow> exit_code + create_flags \<times> string list" where
  "parseCreateFlags [] f = Inr (f, [])"
| "parseCreateFlags (a # as) f =
     (if \<not> prefix ''-'' a then Inr (f, a # as)
      else if a = ''-h'' \<or> a = ''--help'' then Inl ExitOK
      else if a = ''--no-prompt'' then parseCreateFlags as (f\<lparr>crNoPrompt := True\<rparr>)
      else if a = ''--jira'' then
        (case as of [] \<Rightarrow> Inl ExitUsage | v # bs \<Rightarrow> parseCreateFlags bs (f\<lparr>crJira := TrimSpace v\<rparr>))
      else if a = ''--id'' then
        (case as of [] \<Rightarrow> Inl ExitUsage | v # bs \<Rightarrow> parseCreateFlags bs (f\<lparr>crID := TrimSpace v\<rparr>))
      else if a = ''--title'' then
        (case as of [] \<Rightarrow> Inl ExitUsage | v # bs \<Rightarrow> parseCreateFlags bs (f\<lparr>crTitle := v\<rparr>))
      else if a = ''--template'' then
        (case as of [] \<Rightarrow> Inl ExitUsage | v # bs \<Rightarrow> parseCreateFlags bs (f\<lparr>crTemplate := TrimSpace v\<rparr>))
      else if a = ''--format'' then
        (case as of [] \<Rightarrow> Inl ExitUsage | v # bs \<Rightarrow> parseCreateFlags bs (f\<lparr>crFormat := TrimSpace v\<rparr>))
      else if prefix ''--format='' a then parseCreateFlags as (f\<lparr>crFormat := TrimSpace (TrimPrefix a ''--format='')\<rparr>)
      else Inl ExitUsage)"

text \<open>An error in the format of the command: a usage text, or in JSON mode a reply.\<close>

definition createReply :: "create_flags \<Rightarrow> string \<Rightarrow> cli_reply option" where
  "createReply f code = (if crFormat f = ''json'' then Some (failReply ''ws.create'' code) else None)"

definition createArgsOK :: "create_flags \<Rightarrow> string list \<Rightarrow> bool" where
  "createArgsOK f args =
     (if crJira f \<noteq> [] then crID f = [] \<and> crTitle f = [] \<and> args = []
      else \<not> (crID f \<noteq> [] \<and> args \<noteq> []) \<and> length args \<le> 1 \<and> \<not> (crID f = [] \<and> args = []))"

definition resolveWSCreateTemplateName :: "config \<Rightarrow> string \<Rightarrow> string" where
  "resolveWSCreateTemplateName cfg templateFlag =
     (if TrimSpace templateFlag \<noteq> [] then TrimSpace templateFlag
      else if TrimSpace (cfgTemplate cfg) \<noteq> [] then TrimSpace (cfgTemplate cfg) else ''default'')"

definition ResolveJiraWorkspaceInput :: "(string \<Rightarrow> string + string \<times> string) \<Rightarrow> string \<Rightarrow> string + string \<times> string \<times> string" where
  "ResolveJiraWorkspaceInput fetch ticketURL =
     bindR (fetch ticketURL) (\<lambda>(key, summary).
       if key = [] then Inl ''jira issue key is empty'' else Inr (key, summary, ticketURL))"

text \<open>The identifier, the title and the source of the new workspace.\<close>

definition createInput :: "(string \<Rightarrow> string + string \<times> string) \<Rightarrow> create_flags \<Rightarrow> string list \<Rightarrow> string + string \<times> string \<times> string" where
  "createInput fetch f args =
     (if crJira f \<noteq> [] then ResolveJiraWorkspaceInput fetch (crJira f)
      else Inr (if TrimSpace (crID f) \<noteq> [] then TrimSpace (crID f) else (case args of [a] \<Rightarrow> TrimSpace a | _ \<Rightarrow> []), crTitle f, []))"

text \<open>The error code is found by words in the message; the fixed part of each message is here.\<close>

definition classifyWSCreateErrorCode :: "string \<Rightarrow> string" where
  "classifyWSCreateErrorCode err =
     (let msg = ToLower (TrimSpace err)
      in if Contains msg ''already exists'' \<or> Contains msg ''ws reopen'' \<or> Contains msg ''cannot'' then ''conflict''
         else if Contains msg ''not found'' \<or> Contains msg ''no such file or directory'' \<or> Contains msg ''missing'' then ''not_found''
         else if Contains msg ''invalid'' \<or> Contains msg ''requires'' then ''invalid_argument''
         else ''internal_error'')"

definition templateErrText :: "template_error \<Rightarrow> string" where
  "templateErrText e = (case e of
       TName \<Rightarrow> ''invalid template name: '' | TNoTemplatesDir \<Rightarrow> ''templates directory does not exist: ''
     | TStatTemplates \<Rightarrow> ''stat templates directory: '' | TTemplatesNotDir \<Rightarrow> ''templates path is not a directory: ''
     | TNotFound \<Rightarrow> ''template not found under '' | TStat \<Rightarrow> ''stat template: '' | TNotDir \<Rightarrow> ''template is not a directory: ''
     | TWalk \<Rightarrow> ''walk template: '' | TViolations vs \<Rightarrow> ''template validation failed: '' @ concat (map vReason vs)
     | _ \<Rightarrow> [])"

definition createErrText :: "create_error \<Rightarrow> string" where
  "createErrText e = (case e of
       CrWsExists \<Rightarrow> ''workspace directory already exists: '' | CrStatWs \<Rightarrow> ''stat workspace dir: ''
     | CrArchived \<Rightarrow> ''workspace already exists and is archived: '' | CrStatArchive \<Rightarrow> ''stat archived workspace dir: ''
     | CrTemplate t \<Rightarrow> templateErrText t | CrMkdir \<Rightarrow> ''create workspace dir: '' | CrCopy t \<Rightarrow> ''copy template: '' @ templateErrText t
     | CrMeta m \<Rightarrow> ''write .kra.meta.json: '')"

definition titlePrompt :: "create_flags \<Rightarrow> answer \<Rightarrow> string \<Rightarrow> unit + string" where
  "titlePrompt f ans title =
     (if crJira f = [] \<and> title = [] \<and> \<not> crNoPrompt f \<and> crFormat f = ''human'' then bindR ans (\<lambda>line. Inr (TrimSpace line))
      else Inr title)"

definition createRun :: "sys \<Rightarrow> create_flags \<Rightarrow> string \<Rightarrow> string \<Rightarrow> string \<Rightarrow> string \<Rightarrow> string \<Rightarrow> handler" where
  "createRun sy f root wid title sourceURL templateName w =
     (case createWorkspaceAtRoot sy root wid title sourceURL templateName w of
        (Inl e, w1) \<Rightarrow> ((ExitError, createReply f (classifyWSCreateErrorCode (createErrText e))), w1)
      | (Inr _, w1) \<Rightarrow>
      (case createOrRefreshWorkspaceBaseline sy root wid (clock w1) w1 of
         (Inl _, w2) \<Rightarrow> ((ExitError, createReply f ''internal_error''), w2)
       | (Inr _, w2) \<Rightarrow>
      (case commitCreateWorkspace sy root wid w2 of
         (Inl _, w3) \<Rightarrow> ((ExitError, createReply f ''internal_error''), w3)
       | (Inr _, w3) \<Rightarrow> ((ExitOK, if crFormat f = ''json'' then Some (okReply ''ws.create'') else None), w3))))"

definition runWSCreate ::
    "sys \<Rightarrow> (string \<Rightarrow> config option) \<Rightarrow> (string \<Rightarrow> string \<Rightarrow> string + string \<times> string) \<Rightarrow> answer \<Rightarrow> string list \<Rightarrow> handler" where
  "runWSCreate sy yaml fetch ans args0 w =
     (case parseCreateFlags args0 createDefaults of
        Inl c \<Rightarrow> ((c, None), w)
      | Inr (f, args) \<Rightarrow>
      if crFormat f \<noteq> ''human'' \<and> crFormat f \<noteq> ''json'' then ((ExitUsage, None), w)
      else if \<not> createArgsOK f args then ((ExitUsage, createReply f ''invalid_argument''), w)
      else case getwd w of
        None \<Rightarrow> ((ExitError, createReply f ''internal_error''), w)
      | Some _ \<Rightarrow>
      (case resolveRoot w of
         Inl _ \<Rightarrow> ((ExitError, createReply f ''not_found''), w)
       | Inr root \<Rightarrow>
      (case loadMergedConfig yaml root w of
         Inl _ \<Rightarrow> ((ExitError, createReply f ''internal_error''), w)
       | Inr cfg \<Rightarrow>
      (case createInput (fetch (cfgBaseURL cfg)) f args of
         Inl _ \<Rightarrow> ((ExitError, createReply f ''not_found''), w)
       | Inr (wid, title0, sourceURL) \<Rightarrow>
           (let templateName = resolveWSCreateTemplateName cfg (crTemplate f)
            in if \<not> validateWorkspaceID wid \<or> \<not> validateWorkspaceTemplateName templateName
               then ((ExitUsage, createReply f ''invalid_argument''), w)
               else case Touch root (clock w) w of
                 (Some _, w1) \<Rightarrow> ((ExitError, createReply f ''internal_error''), w1)
               | (None, w1) \<Rightarrow>
                   (case titlePrompt f ans title0 of
                      Inl _ \<Rightarrow> ((ExitError, createReply f ''internal_error''), w1)
                    | Inr title \<Rightarrow> createRun sy f root wid title sourceURL templateName w1))))))"

end
