(* ===== verification/Ws_Create_Laws.thy ===== *)
theory Ws_Create_Laws
  imports Ws_Create Ws_Lifecycle
begin

text \<open>
  Creating a workspace makes an exact copy of the template with a metadata file, or nothing. A template may
  be any directory tree; the parameter that enumerates it lists its entries (\<open>lists\<close>).
\<close>

text \<open>Every file is in a directory, and a walk of the directory visits every entry below it.\<close>

definition closedFS :: "fs \<Rightarrow> bool" where
  "closedFS F \<longleftrightarrow> (\<forall>k c. F (k @ [c]) \<noteq> None \<longrightarrow> F k \<noteq> None)"

definition lists :: "sys \<Rightarrow> fs \<Rightarrow> key \<Rightarrow> bool" where
  "lists sy F S \<longleftrightarrow> (\<forall>G. (\<forall>q. G (S @ q) = F (S @ q)) \<longrightarrow> set (tree sy G S) = {q. q \<noteq> [] \<and> F (S @ q) \<noteq> None})
     \<and> (\<forall>q. F (S @ q) \<noteq> None \<longrightarrow> plains q)"

lemma closedFS_prefix:
  assumes "closedFS F" and "F (k @ q) \<noteq> None"
  shows "F k \<noteq> None"
  using assms(2)
proof (induction q rule: rev_induct)
  case (snoc c q)
  then show ?case using assms(1) by (metis append_assoc closedFS_def)
qed simp

lemma closedFS_below: "closedFS F \<Longrightarrow> F k = None \<Longrightarrow> prefix k q \<Longrightarrow> F q = None"
  by (metis closedFS_prefix prefixE)

lemma copyEntry_env: "copyEntry S ws q w = (r, w') \<Longrightarrow> same_env w w'"
  by (auto simp: copyEntry_def copyTemplateFile_def MkdirAllP_def MkdirAll_def same_env_def Let_def
      split: option.splits node.splits prod.splits sum.splits if_splits)

lemma forW_env:
  assumes "forW f xs w = (r, w')" and "\<And>x u v s. f x u = (s, v) \<Longrightarrow> same_env u v"
  shows "same_env w w'"
  using assms(1)
proof (induction xs arbitrary: w)
  case Nil
  then show ?case by (simp add: ret_def same_env_def)
next
  case (Cons x xs)
  then have "bindW (f x) (\<lambda>_. forW f xs) w = (r, w')" by simp
  then show ?case using Cons.IH assms(2) same_env_trans by (cases rule: bindW_result) blast+
qed

lemma RemoveAll_frame:
  assumes "RemoveAll p w = (r, w')"
  shows "\<not> prefix (comps p) k \<Longrightarrow> files w' k = files w k"
    and "\<not> fails w (SRemoveAll (comps p)) \<Longrightarrow> prefix (comps p) k \<Longrightarrow> files w' k = None"
  using assms by (auto simp: RemoveAll_def Let_def remove_tree_def split: if_splits)

text \<open>The three steps that write, on a workspace directory that was not there.\<close>

definition freshWs :: "string \<Rightarrow> world \<Rightarrow> world \<Rightarrow> bool" where
  "freshWs ws w w' \<longleftrightarrow> same_env w w' \<and> (\<forall>k. \<not> prefix (comps ws) k \<longrightarrow> files w' k = files w k)"

lemma freshWs_trans: "freshWs ws u v \<Longrightarrow> freshWs ws v w \<Longrightarrow> freshWs ws u w"
  by (auto simp: freshWs_def intro: same_env_trans)

lemma Mkdir_fresh:
  assumes "Mkdir ws w = (r, w')"
  shows "freshWs ws w w'" and "r = Inl e \<Longrightarrow> w' = w"
    and "r = Inr () \<Longrightarrow> files w (comps ws) = None \<and> files w' = (files w)(comps ws \<mapsto> DirN) \<and> files w (butlast (comps ws)) = Some DirN"
  using assms by (auto simp: Mkdir_def Let_def freshWs_def same_env_def split: if_splits)

lemma copy_fresh:
  assumes "copyWorkspaceTemplate sy tmpl ws w = (r, w')" and "IsAbs ws" and "comps ws \<noteq> []"
    and "closedFS (files w)" and "files w (comps ws) \<noteq> None"
    and "\<forall>q\<in>set (tree sy (files w) (comps (tmplPath tmpl))). plains q \<and> q \<noteq> []"
  shows "freshWs ws w w'"
proof -
  let ?S = "comps (tmplPath tmpl)" and ?qs = "tree sy (files w) (comps (tmplPath tmpl))"
  have "w' = w \<or> forW (copyEntry ?S ws) ?qs w = (r, w')"
    using assms(1) by (auto simp: copyWorkspaceTemplate_def Let_def split: if_splits)
  then show ?thesis
  proof
    assume c: "forW (copyEntry ?S ws) ?qs w = (r, w')"
    have "files w' k = files w k" if "\<not> prefix (comps ws) k" for k
    proof (rule ccontr)
      assume "files w' k \<noteq> files w k"
      then obtain q where q: "files w k = None" "prefix k (comps ws @ q)"
        using copy_frame [OF c assms(2) assms(6)] by blast
      then have "prefix k (comps ws)" using that prefix_same_cases [OF q(2), of "comps ws"] by simp
      from closedFS_below [OF assms(4) q(1) this] show False using assms(5) by simp
    qed
    then show ?thesis using forW_env [OF c copyEntry_env] by (simp add: freshWs_def)
  qed (simp add: freshWs_def same_env_def)
qed

lemma writeMeta_fresh:
  assumes "writeWorkspaceMetaFile ws m w = (r, w')" and "IsAbs ws"
  shows "freshWs ws w w'"
proof -
  have "files w' k = files w k" if "\<not> prefix (comps ws) k" for k
    by (rule writeMeta_other(1) [OF assms]) (use that in auto)
  then show ?thesis using writeMeta_other(2) [OF assms, of "[]"] by (simp add: freshWs_def)
qed

text \<open>After a complete copy the workspace is the template.\<close>

lemma copy_exact:
  assumes "copyWorkspaceTemplate sy tmpl ws w = (Inr u, w')" and "IsAbs ws"
    and "lists sy (files w) S" and "S = comps (tmplPath tmpl)" and "closedFS (files w)"
    and "\<not> prefix S (comps ws)" and "\<not> prefix (comps ws) S"
    and "files w (comps ws) = files w S" and "\<And>q. q \<noteq> [] \<Longrightarrow> files w (comps ws @ q) = None"
  shows "files w' (comps ws @ q) = files w (S @ q)"
proof -
  let ?qs = "tree sy (files w) S"
  have c: "forW (copyEntry S ws) ?qs w = (Inr (), w')"
    using assms(1,4) by (auto simp: copyWorkspaceTemplate_def Let_def split: if_splits)
  have qs: "set ?qs = {q. q \<noteq> [] \<and> files w (S @ q) \<noteq> None}" "\<forall>q\<in>set ?qs. plains q \<and> q \<noteq> []"
    using assms(3) by (auto simp: lists_def)
  note frame = copy_frame [OF c assms(2) qs(2)]
  show ?thesis
  proof (cases "q \<in> set ?qs")
    case True
    then show ?thesis using copy_all [OF c assms(2) qs(2) assms(6,7)] by blast
  next
    case False
    have "files w' (comps ws @ q) = files w (comps ws @ q)"
    proof (rule ccontr)
      assume n: "files w' (comps ws @ q) \<noteq> files w (comps ws @ q)"
      then obtain p where p: "p \<in> set ?qs" "prefix (comps ws @ q) (comps ws @ p)" and none: "files w (comps ws @ q) = None"
        using frame by blast
      then have "files w (S @ q) \<noteq> None" using qs(1) closedFS_prefix [OF assms(5), of "S @ q"] by (auto simp: prefix_def)
      then have "q = []" using False qs(1) by auto
      then show False using none assms(8) \<open>files w (S @ q) \<noteq> None\<close> by simp
    qed
    then show ?thesis using False qs(1) assms(8,9) by (cases "q = []") auto
  qed
qed

subsection \<open>Creation\<close>

lemma usableTemplate_result:
  assumes "usableTemplate sy root tn w = Inr tmpl" and "IsAbs root" and "plain tn" and "TrimSpace tn = tn"
  shows "comps (tmplPath tmpl) = comps root @ [''templates'', tn]" and "files w (comps root @ [''templates'', tn]) = Some DirN"
proof -
  have "tn \<noteq> []" using assms(3) by (simp add: plain_def)
  then have "tmplPath tmpl = workspaceTemplatePath root tn \<and> Stat w (workspaceTemplatePath root tn) = Inr DirN"
    using assms(1,4) by (auto simp: usableTemplate_def resolveWorkspaceTemplate_def bindR_def Let_def
        split: sum.splits if_splits read_error.splits node.splits)
  then show "comps (tmplPath tmpl) = comps root @ [''templates'', tn]" "files w (comps root @ [''templates'', tn]) = Some DirN"
    using template_path_plain [OF assms(2,3)] by (auto simp: Stat_def Let_def split: if_splits option.splits)
qed

lemma createGuards_free: "createGuards root wid w = Inr u \<Longrightarrow> IsAbs root \<Longrightarrow> plain wid
    \<Longrightarrow> files w (wsKey root wid) = None \<and> files w (archiveKey root wid) = None"
  by (auto simp: createGuards_def Stat_def ws_paths Let_def split: sum.splits read_error.splits if_splits option.splits)

lemma cleanup_clean:
  assumes "onErr m (\<lambda>_. ignore (RemoveAll ws)) g w = (Inl e, w')" and "\<And>r u. m w = (r, u) \<Longrightarrow> freshWs ws w u"
  shows "(\<forall>k. \<not> prefix (comps ws) k \<longrightarrow> files w' k = files w k)
    \<and> (fails w (SRemoveAll (comps ws)) \<or> (\<forall>k. prefix (comps ws) k \<longrightarrow> files w' k = None))"
  using assms(1)
proof (cases rule: onErr_result)
  case (2 e u)
  obtain x v where v: "RemoveAll ws u = (x, v)" by fastforce
  have "freshWs ws w u" using assms(2) 2 by blast
  then show ?thesis using RemoveAll_frame [OF v] 2 v by (auto simp: freshWs_def same_env_def ignore_def)
qed simp

definition createdFrom :: "string \<Rightarrow> string \<Rightarrow> string \<Rightarrow> meta_file \<Rightarrow> world \<Rightarrow> world \<Rightarrow> bool" where
  "createdFrom root wid tn m w w' \<longleftrightarrow> files w (wsKey root wid) = None \<and> files w (archiveKey root wid) = None
     \<and> files w' (wsKey root wid @ [''.kra.meta.json'']) = Some (FileN (renderMeta m))
     \<and> (\<forall>q. q \<noteq> [''.kra.meta.json''] \<and> q \<noteq> [metaTemp w]
          \<longrightarrow> files w' (wsKey root wid @ q) = files w (comps root @ [''templates'', tn] @ q))"

definition createOutcome :: "string \<Rightarrow> string \<Rightarrow> string \<Rightarrow> meta_file \<Rightarrow> world \<Rightarrow> create_error + string \<Rightarrow> world \<Rightarrow> bool" where
  "createOutcome root wid tn m w r w' \<longleftrightarrow> (\<forall>k. \<not> prefix (wsKey root wid) k \<longrightarrow> files w' k = files w k)
     \<and> (case r of Inr _ \<Rightarrow> createdFrom root wid tn m w w'
        | Inl _ \<Rightarrow> files w' = files w \<or> fails w (SRemoveAll (wsKey root wid)))"

lemma cleanup_outcome:
  assumes "onErr m (\<lambda>_. ignore (RemoveAll ws)) g w1 = (Inl e, w')" and "\<And>r u. m w1 = (r, u) \<Longrightarrow> freshWs ws w1 u"
    and "freshWs ws w w1" and "comps ws = wsKey root wid" and "closedFS (files w)" and "files w (wsKey root wid) = None"
  shows "createOutcome root wid tn meta w (Inl e') w'"
proof -
  note c = cleanup_clean [OF assms(1,2)]
  have none: "files w k = None" if "prefix (wsKey root wid) k" for k
    by (rule closedFS_below [OF assms(5,6) that])
  have out: "files w' k = files w k" if "\<not> prefix (wsKey root wid) k" for k
    using c assms(3,4) that by (simp add: freshWs_def)
  have "files w' = files w" if "\<not> fails w (SRemoveAll (wsKey root wid))"
  proof
    show "files w' k = files w k" for k
      using c assms(3,4) that none [of k] out [of k] by (cases "prefix (wsKey root wid) k") (simp_all add: freshWs_def same_env_def)
  qed
  then show ?thesis using out by (auto simp: createOutcome_def)
qed

lemma create_filled:
  assumes "bindW (onErr (copyWorkspaceTemplate sy tmpl ws) (\<lambda>_. ignore (RemoveAll ws)) CrCopy) (\<lambda>_.
      bindW (onErr (\<lambda>w. writeWorkspaceMetaFile ws (newWorkspaceMetaFileForCreate wid title url (clock w)) w)
        (\<lambda>_. ignore (RemoveAll ws)) CrMeta) (\<lambda>_. ret ws)) w1 = (r, w')"
    and "IsAbs ws" and ws: "comps ws = wsKey root wid" and "Mkdir ws w = (Inr (), w1)" and "closedFS (files w)"
    and S: "S = comps root @ [''templates'', tn]" and "comps (tmplPath tmpl) = S" and "lists sy (files w) S"
    and "files w S = Some DirN" and "files w (archiveKey root wid) = None"
  shows "createOutcome root wid tn (newWorkspaceMetaFileForCreate wid title url (clock w)) w r w'"
proof -
  note mk = Mkdir_fresh [OF assms(4)]
  have f1: "files w (wsKey root wid) = None" "files w1 = (files w)(wsKey root wid \<mapsto> DirN)" "files w (comps root @ [''workspaces'']) = Some DirN"
    using mk(3) ws by (simp_all add: butlast_append)
  have closed: "closedFS (files w1)"
    using assms(5) f1(3) by (auto simp: closedFS_def f1(2) append_eq_append_conv2)
  have below: "files w (wsKey root wid @ q) = None" for q by (rule closedFS_below [OF assms(5) f1(1)]) simp
  have apart: "\<not> prefix S (wsKey root wid)" "\<not> prefix (wsKey root wid) S" by (auto simp: S prefix_def)
  have S1: "files w1 (S @ q) = files w (S @ q)" for q
    using apart(1) by (metis f1(2) fun_upd_other prefixI)
  have lists1: "lists sy (files w1) S" using assms(8) by (simp add: lists_def S1)
  have tree1: "\<forall>q\<in>set (tree sy (files w1) (comps (tmplPath tmpl))). plains q \<and> q \<noteq> []"
    using lists1 assms(7) by (auto simp: lists_def)
  have copy: "freshWs ws w1 u" if "copyWorkspaceTemplate sy tmpl ws w1 = (x, u)" for x u
    by (rule copy_fresh [OF that assms(2) _ closed _ tree1]) (simp_all add: ws f1(2))
  note clean = cleanup_outcome [OF _ _ _ ws assms(5) f1(1)]
  from assms(1) show ?thesis
  proof (cases rule: bindW_result)
    case (1 e)
    then show ?thesis using clean [OF _ copy mk(1)] by simp
  next
    case (2 v w2)
    then have c: "copyWorkspaceTemplate sy tmpl ws w1 = (Inr v, w2)" by simp
    note fr = freshWs_trans [OF mk(1) copy [OF c]]
    have ex: "files w2 (wsKey root wid @ q) = files w (S @ q)" for q
      using copy_exact [OF c assms(2) lists1 assms(7) [symmetric] closed] apart S1 assms(9) below S1 [of "[]"]
      by (simp add: ws f1(2))
    from 2(2) show ?thesis
    proof (cases rule: bindW_result)
      case (1 e)
      then show ?thesis using clean [OF _ writeMeta_fresh [OF _ assms(2)] fr] by simp
    next
      case (2 x w3)
      then have wr: "writeWorkspaceMetaFile ws (newWorkspaceMetaFileForCreate wid title url (clock w2)) w2 = (Inr (), w')" "r = Inr ws"
        by (auto simp: ret_def)
      have env: "clock w2 = clock w" "metaTemp w2 = metaTemp w" using fr by (auto simp: freshWs_def same_env_def metaTemp_def)
      have "files w' (wsKey root wid @ q) = files w (S @ q)" if "q \<noteq> [''.kra.meta.json'']" "q \<noteq> [metaTemp w]" for q
        using writeMeta_other(1) [OF wr(1) assms(2)] that ex env ws by simp
      then show ?thesis
        using freshWs_trans [OF fr writeMeta_fresh [OF wr(1) assms(2)]] writeMeta_target [OF wr(1) assms(2)] wr(2) f1(1) assms(10) env(1)
        by (simp add: createOutcome_def createdFrom_def freshWs_def ws S)
    qed
  qed
qed

text \<open>
  C3: creating a workspace from a template touches nothing outside the directory of the workspace. When it succeeds,
  there was no workspace and no archive with the identifier, and the new workspace is an exact copy of the template
  together with the metadata; when it fails, every file is as before, unless the removal of the new directory fails too.
\<close>

theorem create_all_or_nothing:
  assumes "createWorkspaceAtRoot sy root wid title sourceURL tn w = (r, w')" and "IsAbs root" and "plain wid"
    and "plain tn" and "TrimSpace tn = tn" and "closedFS (files w)" and "lists sy (files w) (comps root @ [''templates'', tn])"
  shows "createOutcome root wid tn (newWorkspaceMetaFileForCreate wid title sourceURL (clock w)) w r w'"
proof -
  note p = ws_paths [OF assms(2,3)]
  have same: "createOutcome root wid tn m w (Inl e) w" for m e by (simp add: createOutcome_def)
  obtain g w0 where "look (createGuards root wid) w = (g, w0)" by fastforce
  then have [simp]: "w0 = w" "createGuards root wid w = g" by (auto simp: look_def)
  show ?thesis
  proof (cases g)
    case (Inl e)
    then show ?thesis using assms(1) same by (auto simp: createWorkspaceAtRoot_def Let_def bindW_def look_def)
  next
    case g: (Inr v)
    note free = createGuards_free [of root wid w v, OF _ assms(2,3)]
    show ?thesis
    proof (cases "usableTemplate sy root tn w")
      case (Inl e)
      then show ?thesis using assms(1) g same by (auto simp: createWorkspaceAtRoot_def Let_def bindW_def look_def)
    next
      case (Inr tmpl)
      note tm = usableTemplate_result [OF Inr assms(2,4,5)]
      obtain x w1 where m: "Mkdir (pathJoin [root, ''workspaces'', wid]) w = (x, w1)" by fastforce
      show ?thesis
      proof (cases x)
        case (Inl e)
        then show ?thesis using assms(1) g Inr m same Mkdir_fresh(2) [OF m]
          by (auto simp: createWorkspaceAtRoot_def Let_def bindW_def look_def mapErr_def)
      next
        case x: (Inr u)
        show ?thesis
          by (rule create_filled [OF _ p(3,1) _ assms(6) refl tm(1) assms(7) tm(2)])
            (use assms(1) g Inr m x free in \<open>auto simp: createWorkspaceAtRoot_def Let_def bindW_def [of "look _"] bindW_def [of "mapErr _ _"] look_def mapErr_def\<close>)
      qed
    qed
  qed
qed

definition template_sys :: sys where
  "template_sys = demo_sys\<lparr>tree := (\<lambda>F k. if k = [''r'', ''templates'', ''default''] then [[''AGENTS.md''], [''notes'']] else [])\<rparr>"

definition template_world :: world where
  "template_world = demo_world\<lparr>files := (files demo_world)([''r'', ''templates''] \<mapsto> DirN, [''r'', ''templates'', ''default''] \<mapsto> DirN,
     [''r'', ''templates'', ''default'', ''notes''] \<mapsto> DirN, [''r'', ''templates'', ''default'', ''AGENTS.md''] \<mapsto> FileN ''guide'')\<rparr>"

lemma template_lists: "lists template_sys (files template_world) [''r'', ''templates'', ''default'']"
  by (auto simp: lists_def template_sys_def template_world_def demo_world_def plain_def split: if_splits)

lemma template_closed: "closedFS (files template_world)"
  by (auto simp: closedFS_def template_world_def demo_world_def append_eq_Cons_conv Cons_eq_append_conv split: if_splits)

theorem create_all_or_nothing_witness:
  "\<exists>p w'. createWorkspaceAtRoot template_sys ''/r'' ''T-9'' ''title'' [] ''default'' template_world = (Inr p, w')
     \<and> files template_world [''r'', ''workspaces'', ''T-9''] = None
     \<and> files w' [''r'', ''workspaces'', ''T-9'', ''AGENTS.md''] = Some (FileN ''guide'')"
proof -
  obtain r w' where c: "createWorkspaceAtRoot template_sys ''/r'' ''T-9'' ''title'' [] ''default'' template_world = (r, w')" by fastforce
  have "isl (fst (createWorkspaceAtRoot template_sys ''/r'' ''T-9'' ''title'' [] ''default'' template_world)) = False" by code_simp
  then obtain p where r: "r = Inr p" using c by (cases r) auto
  have k: "comps ''/r'' = [''r'']" "IsAbs ''/r''" "plain ''T-9''" "plain ''default''" "TrimSpace ''default'' = ''default''"
    "metaTemp template_world \<noteq> ''AGENTS.md''" "files template_world [''r'', ''templates'', ''default'', ''AGENTS.md''] = Some (FileN ''guide'')"
    "files template_world [''r'', ''workspaces'', ''T-9''] = None" by code_simp+
  have "createOutcome ''/r'' ''T-9'' ''default'' (newWorkspaceMetaFileForCreate ''T-9'' ''title'' [] (clock template_world)) template_world r w'"
    by (rule create_all_or_nothing [OF c]) (simp_all add: k template_closed template_lists)
  then have "files w' [''r'', ''workspaces'', ''T-9'', ''AGENTS.md''] = Some (FileN ''guide'')"
    using k r by (simp add: createOutcome_def createdFrom_def)
  with c r k show ?thesis by blast
qed

end
