(* ===== verification/Repo_Gc.thy ===== *)
theory Repo_Gc
  imports Ws_Frame Registry_Laws Repo_Spec
begin

text \<open>
  The garbage collection of the repository pool: \<open>internal/cli/repo_gc.go\<close> with the session of
  \<open>internal/app/repocmd/usecase.go\<close>. A bare repository may be deleted when no metadata of a workspace in any
  registered root names it and no worktree is linked to it. The interactive selector is the parameter \<open>pick\<close>.
\<close>

record repoGCCandidate =
  gcUID :: string
  gcKey :: string
  gcRemote :: string
  gcBare :: string
  CurrentRootRegistered :: bool
  CurrentWorkspaceBound :: bool
  OtherRootRefCount :: nat
  HasWorktrees :: bool
  Inspectable :: bool
  SkipReason :: string

definition eligible :: "repoGCCandidate \<Rightarrow> bool" where
  "eligible c =
     (if \<not> Inspectable c then False
      else \<not> CurrentRootRegistered c \<and> \<not> CurrentWorkspaceBound c \<and> OtherRootRefCount c = 0 \<and> \<not> HasWorktrees c)"

datatype gc_error = GcWalk | GcRegistryPath path_error | GcRegistry reg_error | GcReadDir | GcMeta meta_error | GcStat

subsection \<open>References\<close>

text \<open>A Go map of counters: a missing key counts zero.\<close>

type_synonym counts = "string \<Rightarrow> nat"

definition countRefs :: "meta_file \<Rightarrow> counts \<Rightarrow> counts" where
  "countRefs meta = fold (\<lambda>r c. let uid = TrimSpace (RepoUID r) in if uid = [] then c else c(uid := c uid + 1)) (ReposRestore meta)"

definition scanScope :: "sys \<Rightarrow> string \<Rightarrow> world \<Rightarrow> string \<Rightarrow> counts \<Rightarrow> gc_error + counts" where
  "scanScope sy root w scope c =
     (let scopeDir = pathJoin [root, scope]
      in case ReadDir sy w scopeDir of
           Inl NotExist \<Rightarrow> Inr c
         | Inl ReadFailed \<Rightarrow> Inl GcReadDir
         | Inr entries \<Rightarrow>
             foldE (\<lambda>(name, dir) c.
               if \<not> dir then Inr c
               else case loadWorkspaceMetaFile (pathJoin [scopeDir, name]) w of
                 Inl e \<Rightarrow> Inl (GcMeta e)
               | Inr meta \<Rightarrow> Inr (countRefs meta c)) entries c)"

definition scanRootRepoRefsFromMetadata :: "sys \<Rightarrow> string \<Rightarrow> world \<Rightarrow> gc_error + counts" where
  "scanRootRepoRefsFromMetadata sy root w = foldE (scanScope sy root w) [''workspaces'', ''archive''] (\<lambda>_. 0)"

record ref_counts =
  seenRoot :: "string list"
  currentMarked :: "string list"
  refCounts :: counts
  currentCounts :: counts

definition addCounts :: "counts \<Rightarrow> counts \<Rightarrow> counts" where
  "addCounts refs c = (\<lambda>uid. c uid + refs uid)"

definition addRoot :: "sys \<Rightarrow> world \<Rightarrow> string \<Rightarrow> bool \<Rightarrow> ref_counts \<Rightarrow> gc_error + ref_counts" where
  "addRoot sy w rootPath0 collectCurrent s =
     (let rootPath = TrimSpace rootPath0
      in if rootPath = [] then Inr s
         else if rootPath \<in> set (seenRoot s) then
           (if collectCurrent \<and> rootPath \<notin> set (currentMarked s) then
              bindR (scanRootRepoRefsFromMetadata sy rootPath w) (\<lambda>refs.
                Inr (s\<lparr>currentCounts := addCounts refs (currentCounts s), currentMarked := rootPath # currentMarked s\<rparr>))
            else Inr s)
         else
           (let s = s\<lparr>seenRoot := rootPath # seenRoot s\<rparr>
            in case Stat w rootPath of
                 Inl NotExist \<Rightarrow> Inr s
               | Inl ReadFailed \<Rightarrow> Inl GcStat
               | Inr _ \<Rightarrow>
                   bindR (scanRootRepoRefsFromMetadata sy rootPath w) (\<lambda>refs.
                     Inr (s\<lparr>refCounts := addCounts refs (refCounts s),
                            currentCounts := (if collectCurrent then addCounts refs (currentCounts s) else currentCounts s),
                            currentMarked := (if collectCurrent then rootPath # currentMarked s else currentMarked s)\<rparr>))))"

definition collectRegistryRepoRefCountsFromMetadata :: "sys \<Rightarrow> string \<Rightarrow> world \<Rightarrow> gc_error + counts \<times> counts" where
  "collectRegistryRepoRefCountsFromMetadata sy currentRoot w =
     (case RegistryPath w of
        Inl e \<Rightarrow> Inl (GcRegistryPath e)
      | Inr registryPath \<Rightarrow>
     (case Load registryPath w of
        Inl e \<Rightarrow> Inl (GcRegistry e)
      | Inr entries \<Rightarrow>
          bindR (foldE (\<lambda>e. addRoot sy w (RootPath e) False) entries
                   \<lparr>seenRoot = [], currentMarked = [], refCounts = (\<lambda>_. 0), currentCounts = (\<lambda>_. 0)\<rparr>) (\<lambda>s.
          bindR (addRoot sy w currentRoot True s) (\<lambda>s. Inr (refCounts s, currentCounts s)))))"

subsection \<open>The pool\<close>

text \<open>
  The walk of \<open>listRepoPoolBareRepos\<close> over the pool (the key \<open>[]\<close>) and the entries below it, in their order: a bare
  repository is recorded and not entered.
\<close>

fun walkPool :: "world \<Rightarrow> key \<Rightarrow> key list \<Rightarrow> key list \<Rightarrow> gc_error + key list" where
  "walkPool w k [] found = Inr found"
| "walkPool w k (q # qs) found =
     (if list_ex (\<lambda>p. prefix p q) found \<or> files w (k @ q) \<noteq> Some DirN then walkPool w k qs found
      else if k @ q \<noteq> [] \<and> suffix ''.git'' (last (k @ q)) \<and> isOK (Stat w (abs_path (k @ q @ [''HEAD''])))
      then walkPool w k qs (found @ [q])
      else if fails w (SReadDir (k @ q)) then Inl GcWalk else walkPool w k qs found)"

definition listRepoPoolBareRepos :: "sys \<Rightarrow> string \<Rightarrow> world \<Rightarrow> gc_error + string list" where
  "listRepoPoolBareRepos sy repoPoolPath w =
     (let k = comps repoPoolPath
      in case Stat w repoPoolPath of
           Inl NotExist \<Rightarrow> Inr []
         | Inl ReadFailed \<Rightarrow> Inl GcWalk
         | Inr (FileN _) \<Rightarrow> Inr []
         | Inr DirN \<Rightarrow> bindR (walkPool w k ([] # tree sy (files w) k) []) (\<lambda>qs. Inr (sort (map (\<lambda>q. abs_path (k @ q)) qs))))"

definition resolveRepoIdentityForGC :: "string \<Rightarrow> string \<Rightarrow> string \<Rightarrow> (string \<times> string) option" where
  "resolveRepoIdentityForGC repoPoolPath barePath remoteURL0 =
     (let remoteURL = TrimSpace remoteURL0;
          byPath = (case Rel repoPoolPath barePath of
              None \<Rightarrow> None
            | Some rel \<Rightarrow>
                (case split_on slash (Clean rel) of
                   [p0, p1, p2] \<Rightarrow>
                     (let host = TrimSpace p0; owner = TrimSpace p1; repoGit = TrimSpace p2; repo = TrimSuffix repoGit ''.git''
                      in if host = [] \<or> owner = [] \<or> \<not> suffix ''.git'' repoGit then None
                         else if TrimSpace repo = [] then None
                         else Some (host @ ''/'' @ owner @ ''/'' @ repo, owner @ ''/'' @ repo))
                 | _ \<Rightarrow> None))
      in if remoteURL \<noteq> [] then
           (case Normalize remoteURL of
              Inr spec \<Rightarrow> Some (Host spec @ ''/'' @ Owner spec @ ''/'' @ Repo spec, Owner spec @ ''/'' @ Repo spec)
            | Inl _ \<Rightarrow> byPath)
         else byPath)"

definition linkedWorktree :: "world \<Rightarrow> string \<Rightarrow> string \<Rightarrow> bool" where
  "linkedWorktree w barePath line0 =
     (let line = TrimSpace line0; path = TrimSpace (TrimPrefix line ''worktree '')
      in prefix ''worktree '' line \<and> path \<noteq> [] \<and> Clean path \<noteq> Clean barePath
         \<and> (case Stat w (pathJoin [path, ''.git'']) of Inr (FileN _) \<Rightarrow> True | _ \<Rightarrow> False))"

definition bareRepoHasLinkedWorktrees :: "sys \<Rightarrow> string \<Rightarrow> (string, bool) prog" where
  "bareRepoHasLinkedWorktrees sy barePath =
     bindW (RunBare sy barePath [''worktree'', ''list'', ''--porcelain'']) (\<lambda>out.
       look (\<lambda>w. Inr (list_ex (linkedWorktree w barePath) (split_on (CHR 0x0A) out))))"

definition describeRepoGCSkipReason :: "repoGCCandidate \<Rightarrow> string" where
  "describeRepoGCSkipReason c =
     (if CurrentWorkspaceBound c then ''workspace bindings exist in current root''
      else if CurrentRootRegistered c then ''still registered in current root''
      else if OtherRootRefCount c > 0 then ''referenced by '' @ Itoa (int (OtherRootRefCount c)) @ '' other root(s)''
      else if HasWorktrees c then ''linked worktrees still exist''
      else ''not eligible'')"

definition gcBlank :: "string \<Rightarrow> string \<Rightarrow> repoGCCandidate" where
  "gcBlank barePath reason = \<lparr>gcUID = [], gcKey = [], gcRemote = [], gcBare = barePath, CurrentRootRegistered = False,
     CurrentWorkspaceBound = False, OtherRootRefCount = 0, HasWorktrees = False, Inspectable = False, SkipReason = reason\<rparr>"

text \<open>\<open>currentRepoSet\<close> is an empty map in the source, so no repository is registered in the current root.\<close>

definition gcIdentified :: "string \<Rightarrow> string \<Rightarrow> string \<Rightarrow> string \<Rightarrow> counts \<Rightarrow> counts \<Rightarrow> repoGCCandidate" where
  "gcIdentified barePath uid key remoteURL globalRef currentRef =
     (gcBlank barePath [])\<lparr>gcUID := uid, gcKey := key, gcRemote := remoteURL, Inspectable := True,
        CurrentWorkspaceBound := currentRef uid > 0, OtherRootRefCount := globalRef uid - currentRef uid\<rparr>"

definition gcJudged :: "string + bool \<Rightarrow> repoGCCandidate \<Rightarrow> repoGCCandidate" where
  "gcJudged hasWorktrees cand =
     (case hasWorktrees of
        Inl _ \<Rightarrow> cand\<lparr>SkipReason := ''cannot inspect worktrees'', Inspectable := False\<rparr>
      | Inr b \<Rightarrow> (let cand = cand\<lparr>HasWorktrees := b\<rparr>
                 in if \<not> eligible cand \<and> TrimSpace (SkipReason cand) = [] then cand\<lparr>SkipReason := describeRepoGCSkipReason cand\<rparr> else cand))"

definition gcCandidate :: "sys \<Rightarrow> string \<Rightarrow> counts \<Rightarrow> counts \<Rightarrow> string \<Rightarrow> (gc_error, repoGCCandidate) prog" where
  "gcCandidate sy repoPoolPath globalRef currentRef barePath =
     bindW (attempt (RunBare sy barePath [''config'', ''--get'', ''remote.origin.url''])) (\<lambda>r.
       let remoteURL = (case r of Inl _ \<Rightarrow> [] | Inr out \<Rightarrow> TrimSpace out)
       in case resolveRepoIdentityForGC repoPoolPath barePath remoteURL of
            None \<Rightarrow> ret (gcBlank barePath (case r of Inl _ \<Rightarrow> ''cannot resolve repo identity (remote/path)''
                                          | Inr _ \<Rightarrow> ''cannot normalize remote.origin.url''))
          | Some (uid, key) \<Rightarrow>
              bindW (attempt (bareRepoHasLinkedWorktrees sy barePath)) (\<lambda>h.
                ret (gcJudged h (gcIdentified barePath uid key remoteURL globalRef currentRef))))"

text \<open>Candidates with a key first, by key; the others by path.\<close>

definition gcOrder :: "repoGCCandidate \<Rightarrow> bool \<times> string \<times> string" where
  "gcOrder c = (let key = TrimSpace (gcKey c) in (key = [], key, if key = [] then gcBare c else []))"

definition buildRepoGCCandidates :: "sys \<Rightarrow> string \<Rightarrow> string \<Rightarrow> (gc_error, repoGCCandidate list) prog" where
  "buildRepoGCCandidates sy root repoPoolPath =
     bindW (look (listRepoPoolBareRepos sy repoPoolPath)) (\<lambda>poolRepos.
       if poolRepos = [] then ret []
       else bindW (look (collectRegistryRepoRefCountsFromMetadata sy root)) (\<lambda>(globalRef, currentRef).
            bindW (mapW (gcCandidate sy repoPoolPath globalRef currentRef) poolRepos) (\<lambda>out.
              ret (sort_key gcOrder out))))"

subsection \<open>Selection and deletion\<close>

datatype gc_select_error = SelCanceled | SelFailed | SelAmbiguous string | SelNotFound string

text \<open>
  The two maps of the candidates and the keys that two repositories share. Of two candidates with one unique
  identifier the later one is found by it; of two candidates with one key and different identifiers the first.
\<close>

definition indexByKey :: "repoGCCandidate list \<Rightarrow> (string \<rightharpoonup> repoGCCandidate) \<times> string list" where
  "indexByKey candidates = fold (\<lambda>it (byKey, ambiguous).
     case byKey (gcKey it) of
       Some prev \<Rightarrow> if gcUID prev \<noteq> gcUID it then (byKey, gcKey it # ambiguous) else (byKey(gcKey it \<mapsto> it), ambiguous)
     | None \<Rightarrow> (byKey(gcKey it \<mapsto> it), ambiguous)) candidates (Map.empty, [])"

definition indexByUID :: "repoGCCandidate list \<Rightarrow> string \<rightharpoonup> repoGCCandidate" where
  "indexByUID candidates = fold (\<lambda>it m. m(gcUID it \<mapsto> it)) candidates Map.empty"

definition gcFind :: "repoGCCandidate list \<Rightarrow> string \<Rightarrow> gc_select_error + repoGCCandidate" where
  "gcFind candidates token =
     (case indexByUID candidates token of
        Some c \<Rightarrow> Inr c
      | None \<Rightarrow>
          (case indexByKey candidates of (byKey, ambiguous) \<Rightarrow>
             if token \<in> set ambiguous then Inl (SelAmbiguous token)
             else case byKey token of Some c \<Rightarrow> Inr c | None \<Rightarrow> Inl (SelNotFound token)))"

definition gcSelectArgs :: "repoGCCandidate list \<Rightarrow> string list \<Rightarrow> gc_select_error + repoGCCandidate list" where
  "gcSelectArgs candidates args =
     foldE (\<lambda>raw selected.
       let token = TrimSpace raw
       in if token = [] then Inr selected
          else bindR (gcFind candidates token) (\<lambda>cand.
            Inr (if gcUID cand \<in> gcUID ` set selected then selected else selected @ [cand]))) args []"

definition selectRepoGCCandidates ::
    "(string list \<Rightarrow> gc_select_error + string list) \<Rightarrow> repoGCCandidate list \<Rightarrow> string list \<Rightarrow> gc_select_error + repoGCCandidate list" where
  "selectRepoGCCandidates pick candidates args =
     (if args \<noteq> [] then gcSelectArgs candidates args
      else bindR (pick (map gcKey candidates)) (\<lambda>selectedIDs.
        Inr (sort_key gcKey (List.map_filter (fst (indexByKey candidates)) selectedIDs))))"

fun applyRepoGC :: "repoGCCandidate list \<Rightarrow> world \<Rightarrow> (repoGCCandidate list \<times> repoGCCandidate list) \<times> world" where
  "applyRepoGC [] w = (([], []), w)"
| "applyRepoGC (it # its) w =
     (case RemoveAll (gcBare it) w of
        (r, w1) \<Rightarrow>
          (case applyRepoGC its w1 of ((removed, failed), w2) \<Rightarrow>
             ((case r of Inr _ \<Rightarrow> (it # removed, failed) | Inl _ \<Rightarrow> (removed, it # failed)), w2)))"

subsection \<open>The command\<close>

record gc_flags =
  gcFormat :: string
  gcYes :: bool
  gcArgs :: "string list"

fun parseGCFlags :: "string list \<Rightarrow> gc_flags \<Rightarrow> exit_code + gc_flags" where
  "parseGCFlags [] f = Inr f"
| "parseGCFlags (a # as) f =
     (let arg = TrimSpace a
      in if arg = ''-h'' \<or> arg = ''--help'' \<or> arg = ''help'' then Inl ExitOK
         else if arg = ''--yes'' then parseGCFlags as (f\<lparr>gcYes := True\<rparr>)
         else if arg = ''--format'' then
           (case as of [] \<Rightarrow> Inl ExitUsage | v # bs \<Rightarrow> parseGCFlags bs (f\<lparr>gcFormat := TrimSpace v\<rparr>))
         else if prefix ''--format='' arg then parseGCFlags as (f\<lparr>gcFormat := TrimSpace (TrimPrefix arg ''--format='')\<rparr>)
         else if prefix ''-'' arg then Inl ExitUsage
         else parseGCFlags as (f\<lparr>gcArgs := gcArgs f @ [arg]\<rparr>))"

text \<open>The session of the repository commands: git, the root, the pool, and the registry touched.\<close>

definition repoSession :: "sys \<Rightarrow> bool \<Rightarrow> bool \<Rightarrow> world \<Rightarrow> (unit + string \<times> string) \<times> world" where
  "repoSession sy requireGit touchRegistry w =
     (if requireGit \<and> git_missing sy \<noteq> None then (Inl (), w)
      else case resolveRoot w of
        Inl _ \<Rightarrow> (Inl (), w)
      | Inr root \<Rightarrow>
      (case DefaultRepoPoolPath w of
         Inl _ \<Rightarrow> (Inl (), w)
       | Inr pool \<Rightarrow>
           if touchRegistry then
             (case Touch root (clock w) w of (Some _, w1) \<Rightarrow> (Inl (), w1) | (None, w1) \<Rightarrow> (Inr (root, pool), w1))
           else (Inr (root, pool), w)))"

definition gcSelectText :: "gc_select_error \<Rightarrow> string" where
  "gcSelectText e = (case e of
       SelAmbiguous t \<Rightarrow> ''ambiguous repo key (use repo_uid): '' @ t
     | SelNotFound t \<Rightarrow> ''repo not found in gc candidates: '' @ t | _ \<Rightarrow> [])"

definition gcReply :: "gc_flags \<Rightarrow> string \<Rightarrow> cli_reply option" where
  "gcReply f code = (if gcFormat f = ''json'' then Some (failReply ''repo.gc'' code) else None)"

definition gcSelectCode :: "gc_select_error \<Rightarrow> string" where
  "gcSelectCode e =
     (if e = SelCanceled then ''conflict''
      else if Contains (ToLower (gcSelectText e)) ''not found'' then ''not_found'' else ''invalid_argument'')"

definition gcDelete :: "gc_flags \<Rightarrow> answer \<Rightarrow> repoGCCandidate list \<Rightarrow> handler" where
  "gcDelete f ans selected w =
     (case (if gcFormat f = ''human'' then confirmContinue ans else Inr True) of
        Inl _ \<Rightarrow> ((ExitError, None), w)
      | Inr ok \<Rightarrow>
          if \<not> ok then ((ExitError, None), w)
          else (case applyRepoGC selected w of ((removed, failed), w') \<Rightarrow>
            if failed = [] then ((ExitOK, if gcFormat f = ''json'' then Some (okReply ''repo.gc'') else None), w')
            else ((ExitError, gcReply f ''internal_error''), w')))"

definition gcRun :: "sys \<Rightarrow> (string list \<Rightarrow> gc_select_error + string list) \<Rightarrow> answer \<Rightarrow> gc_flags \<Rightarrow> string \<Rightarrow> string \<Rightarrow> handler" where
  "gcRun sy pick ans f root pool w =
     (case buildRepoGCCandidates sy root pool w of
        (Inl _, w1) \<Rightarrow> ((ExitError, gcReply f ''internal_error''), w1)
      | (Inr candidates, w1) \<Rightarrow>
          (let selectable = filter Inspectable candidates
           in if selectable = [] then ((ExitError, gcReply f ''not_found''), w1)
              else case selectRepoGCCandidates pick selectable (gcArgs f) of
                Inl e \<Rightarrow> ((ExitError, gcReply f (gcSelectCode e)), w1)
              | Inr selected \<Rightarrow>
                  if selected = [] then ((ExitError, gcReply f ''conflict''), w1)
                  else if list_ex (\<lambda>it. \<not> eligible it) selected then ((ExitError, gcReply f ''conflict''), w1)
                  else gcDelete f ans selected w1))"

definition runRepoGC :: "sys \<Rightarrow> (string list \<Rightarrow> gc_select_error + string list) \<Rightarrow> answer \<Rightarrow> string list \<Rightarrow> handler" where
  "runRepoGC sy pick ans args w =
     (case parseGCFlags args \<lparr>gcFormat = ''human'', gcYes = False, gcArgs = []\<rparr> of
        Inl c \<Rightarrow> ((c, None), w)
      | Inr f \<Rightarrow>
      if gcFormat f \<noteq> ''human'' \<and> gcFormat f \<noteq> ''json'' then ((ExitUsage, None), w)
      else if gcFormat f = ''json'' \<and> (gcArgs f = [] \<or> \<not> gcYes f) then ((ExitUsage, gcReply f ''invalid_argument''), w)
      else (case repoSession sy True True w of
              (Inl _, w1) \<Rightarrow> ((ExitError, gcReply f ''internal_error''), w1)
            | (Inr (root, pool), w1) \<Rightarrow> gcRun sy pick ans f root pool w1))"

subsection \<open>What is counted\<close>

lemma countRefs_count:
  assumes "uid \<noteq> []"
  shows "countRefs meta c uid = c uid + length (filter (\<lambda>r. TrimSpace (RepoUID r) = uid) (ReposRestore meta))"
proof -
  have "fold (\<lambda>r c. let u = TrimSpace (RepoUID r) in if u = [] then c else c(u := c u + 1)) rs c uid
      = c uid + length (filter (\<lambda>r. TrimSpace (RepoUID r) = uid) rs)" for rs
    using assms by (induction rs arbitrary: c) (auto simp: Let_def)
  then show ?thesis by (simp add: countRefs_def)
qed

text \<open>A workspace or an archive of the root whose metadata names the repository.\<close>

definition refersTo :: "sys \<Rightarrow> world \<Rightarrow> string \<Rightarrow> string \<Rightarrow> string \<Rightarrow> bool" where
  "refersTo sy w root scope uid \<longleftrightarrow> (\<exists>entries name m. ReadDir sy w (pathJoin [root, scope]) = Inr entries \<and> (name, True) \<in> set entries
     \<and> loadWorkspaceMetaFile (pathJoin [pathJoin [root, scope], name]) w = Inr m
     \<and> (\<exists>r\<in>set (ReposRestore m). TrimSpace (RepoUID r) = uid))"

definition referenced :: "sys \<Rightarrow> world \<Rightarrow> string \<Rightarrow> string \<Rightarrow> bool" where
  "referenced sy w root uid \<longleftrightarrow> isOK (Stat w root) \<and> (refersTo sy w root ''workspaces'' uid \<or> refersTo sy w root ''archive'' uid)"

lemma scanScope_counts:
  assumes "scanScope sy root w scope c = Inr c'" and "uid \<noteq> []"
  shows "c uid \<le> c' uid" and "refersTo sy w root scope uid \<Longrightarrow> c' uid > 0"
proof -
  let ?f = "\<lambda>(name, dir) c. if \<not> dir then Inr c else case loadWorkspaceMetaFile (pathJoin [pathJoin [root, scope], name]) w of
      Inl e \<Rightarrow> Inl (GcMeta e) | Inr meta \<Rightarrow> Inr (countRefs meta c)"
  have step: "foldE ?f entries c = Inr c' \<Longrightarrow> c uid \<le> c' uid \<and>
      (\<forall>name m r. (name, True) \<in> set entries \<longrightarrow> loadWorkspaceMetaFile (pathJoin [pathJoin [root, scope], name]) w = Inr m
         \<longrightarrow> r \<in> set (ReposRestore m) \<longrightarrow> TrimSpace (RepoUID r) = uid \<longrightarrow> c' uid > 0)" for entries
  proof (induction entries arbitrary: c)
    case (Cons e es)
    then obtain d where d: "?f e c = Inr d" and rest: "foldE ?f es d = Inr c'" by (auto simp: bindR_Inr_iff)
    note IH = Cons.IH [OF rest]
    have le: "c uid \<le> d uid" using d assms(2) by (auto simp: countRefs_count split: if_splits sum.splits prod.splits)
    have pos: "c' uid > 0" if "e = (name, True)" "loadWorkspaceMetaFile (pathJoin [pathJoin [root, scope], name]) w = Inr m"
      "r \<in> set (ReposRestore m)" "TrimSpace (RepoUID r) = uid" for name m r
    proof -
      have "d uid = c uid + length (filter (\<lambda>r. TrimSpace (RepoUID r) = uid) (ReposRestore m))"
        using d that(1,2) assms(2) by (auto simp: countRefs_count)
      moreover have "filter (\<lambda>r. TrimSpace (RepoUID r) = uid) (ReposRestore m) \<noteq> []" using that(3,4) by (auto simp: filter_empty_conv)
      ultimately show ?thesis using IH by (metis add_gr_0 length_greater_0_conv order_less_le_trans)
    qed
    show ?case using IH le pos by (auto intro: order_trans)
  qed simp
  show "c uid \<le> c' uid" "refersTo sy w root scope uid \<Longrightarrow> c' uid > 0"
    using assms(1) step by (fastforce simp: scanScope_def refersTo_def Let_def split: sum.splits read_error.splits)+
qed

lemma scan_unreferenced:
  assumes "scanRootRepoRefsFromMetadata sy root w = Inr refs" and "uid \<noteq> []" and "refs uid = 0"
  shows "\<not> referenced sy w root uid"
proof -
  obtain c where c: "scanScope sy root w ''workspaces'' (\<lambda>_. 0) = Inr c" "scanScope sy root w ''archive'' c = Inr refs"
    using assms(1) by (auto simp: scanRootRepoRefsFromMetadata_def bindR_Inr_iff)
  then show ?thesis using scanScope_counts [OF c(1) assms(2)] scanScope_counts [OF c(2) assms(2)] assms(3)
    by (auto simp: referenced_def)
qed

text \<open>The invariant of the loop over the roots: a repository with count zero is named in none of the roots seen.\<close>

definition countsCover :: "sys \<Rightarrow> world \<Rightarrow> ref_counts \<Rightarrow> bool" where
  "countsCover sy w s \<longleftrightarrow> (\<forall>r\<in>set (seenRoot s). \<forall>uid. uid \<noteq> [] \<longrightarrow> refCounts s uid = 0 \<longrightarrow> \<not> referenced sy w r uid)"

lemma addRoot_cover:
  assumes "addRoot sy w r b s = Inr s'" and "countsCover sy w s"
  shows "countsCover sy w s'" and "TrimSpace r \<noteq> [] \<Longrightarrow> TrimSpace r \<in> set (seenRoot s')" and "set (seenRoot s) \<subseteq> set (seenRoot s')"
  using assms scan_unreferenced [of sy "TrimSpace r" w]
  by (auto simp: addRoot_def countsCover_def addCounts_def bindR_Inr_iff Let_def referenced_def
      split: if_splits sum.splits read_error.splits)

lemma foldE_addRoot:
  assumes "foldE (\<lambda>e. addRoot sy w (RootPath e) False) es s = Inr s'" and "countsCover sy w s"
  shows "countsCover sy w s' \<and> set (seenRoot s) \<subseteq> set (seenRoot s')
    \<and> (\<forall>e\<in>set es. TrimSpace (RootPath e) \<noteq> [] \<longrightarrow> TrimSpace (RootPath e) \<in> set (seenRoot s'))"
  using assms
proof (induction es arbitrary: s)
  case (Cons e es)
  then obtain t where t: "addRoot sy w (RootPath e) False s = Inr t" and rest: "foldE (\<lambda>e. addRoot sy w (RootPath e) False) es t = Inr s'"
    by (auto simp: bindR_Inr_iff)
  note a = addRoot_cover [OF t Cons.prems(2)]
  show ?case using Cons.IH [OF rest a(1)] a(2,3) by auto
qed simp

definition unreferenced :: "sys \<Rightarrow> world \<Rightarrow> string \<Rightarrow> string \<Rightarrow> bool" where
  "unreferenced sy w root uid \<longleftrightarrow> (\<exists>p es. RegistryPath w = Inr p \<and> Load p w = Inr es
     \<and> (\<forall>r\<in>insert root (RootPath ` set es). TrimSpace r \<noteq> [] \<longrightarrow> \<not> referenced sy w (TrimSpace r) uid))"

lemma collect_unreferenced:
  assumes "collectRegistryRepoRefCountsFromMetadata sy root w = Inr (g, cur)" and "uid \<noteq> []" and "g uid = 0"
  shows "unreferenced sy w root uid"
proof -
  obtain p es s s' where "RegistryPath w = Inr p" "Load p w = Inr es"
    and f: "foldE (\<lambda>e. addRoot sy w (RootPath e) False) es
          \<lparr>seenRoot = [], currentMarked = [], refCounts = (\<lambda>_. 0), currentCounts = (\<lambda>_. 0)\<rparr> = Inr s"
    and a: "addRoot sy w root True s = Inr s'" and g: "g = refCounts s'"
    using assms(1) by (auto simp: collectRegistryRepoRefCountsFromMetadata_def bindR_Inr_iff split: sum.splits)
  moreover have fs: "countsCover sy w s \<and> (\<forall>e\<in>set es. TrimSpace (RootPath e) \<noteq> [] \<longrightarrow> TrimSpace (RootPath e) \<in> set (seenRoot s))"
    using foldE_addRoot [OF f] by (simp add: countsCover_def)
  moreover note ad = addRoot_cover [OF a conjunct1 [OF fs]]
  ultimately show ?thesis
    using assms(2,3) unfolding unreferenced_def countsCover_def by blast
qed

subsection \<open>What is deleted\<close>

context step_relation
begin

lemma mapW_result:
  assumes "\<And>x. always R (f x)" and "mapW f xs w = (Inr ys, w')" and "y \<in> set ys"
  shows "\<exists>x\<in>set xs. \<exists>v v'. R w v \<and> f x v = (Inr y, v')"
  using assms(2,3)
proof (induction xs arbitrary: w ys)
  case (Cons x xs)
  then obtain z zs u where z: "f x w = (Inr z, u)" and zs: "mapW f xs u = (Inr zs, w')" and ys: "ys = z # zs" by (auto simp: bindW_Inr)
  have "R w u" using assms(1) z by (metis always_def snd_conv)
  then show ?case using Cons.IH [OF zs] Cons.prems(2) z ys R_refl R_trans by (auto 4 4)
qed simp

end

lemma identity_nonempty: "resolveRepoIdentityForGC pool bare url = Some (uid, key) \<Longrightarrow> uid \<noteq> []"
  by (auto simp: resolveRepoIdentityForGC_def Let_def split: sum.splits option.splits list.splits if_splits)

lemma judged_eligible:
  assumes "eligible (gcJudged h (gcIdentified bare uid key url g cur))"
  shows "h = Inr False \<and> g uid = 0"
  using assms by (cases h) (auto simp: gcJudged_def gcIdentified_def gcBlank_def eligible_def Let_def split: if_splits)

lemma judged_fields: "gcBare (gcJudged h c) = gcBare c" "gcUID (gcJudged h c) = gcUID c"
  by (auto simp: gcJudged_def Let_def split: sum.splits)

lemma candidate_eligible:
  assumes "gcCandidate sy pool g cur bare v = (Inr c, v')" and "eligible c"
  shows "gcBare c = bare \<and> gcUID c \<noteq> [] \<and> g (gcUID c) = 0
    \<and> (\<exists>u u'. spares sy K v u \<and> bareRepoHasLinkedWorktrees sy bare u = (Inr False, u'))"
proof -
  obtain r u where r: "RunBare sy bare [''config'', ''--get'', ''remote.origin.url''] v = (r, u)" by fastforce
  let ?url = "case r of Inl _ \<Rightarrow> [] | Inr out \<Rightarrow> TrimSpace out"
  show ?thesis
  proof (cases "resolveRepoIdentityForGC pool bare ?url")
    case None
    then have "Inspectable c = False" using assms(1) r by (auto simp: gcCandidate_def bindW_def attempt_def ret_def gcBlank_def)
    then show ?thesis using assms(2) by (simp add: eligible_def)
  next
    case (Some i)
    obtain uid key where i: "i = (uid, key)" by fastforce
    obtain h u' where h: "bareRepoHasLinkedWorktrees sy bare u = (h, u')" by fastforce
    have c: "c = gcJudged h (gcIdentified bare uid key ?url g cur)"
      using assms(1) r h Some i by (simp add: gcCandidate_def bindW_def attempt_def ret_def)
    have "gcBare c = bare" "gcUID c = uid" by (simp_all add: c judged_fields gcIdentified_def gcBlank_def)
    moreover have "h = Inr False \<and> g uid = 0" using judged_eligible assms(2) unfolding c by blast
    moreover have "spares sy K v u" using quiet.run_bare r by (metis always_def snd_conv)
    ultimately show ?thesis using h identity_nonempty [OF Some [unfolded i]] by blast
  qed
qed

lemma indexByUID_mem:
  assumes "indexByUID cs t = Some c"
  shows "c \<in> set cs"
proof -
  let ?f = "\<lambda>it m. m(gcUID it \<mapsto> it)"
  have "fold ?f cs m t = Some c \<Longrightarrow> c \<in> set cs \<or> m t = Some c" for m
  proof (induction cs arbitrary: m)
    case (Cons x cs)
    from Cons.IH [of "?f x m"] Cons.prems have "c \<in> set cs \<or> ?f x m t = Some c" by (simp del: fun_upd_apply)
    then show ?case by (auto split: if_splits)
  qed simp
  then show ?thesis using assms by (fastforce simp: indexByUID_def)
qed

lemma indexByKey_mem:
  assumes "fst (indexByKey cs) t = Some c"
  shows "c \<in> set cs"
proof -
  let ?f = "\<lambda>it (byKey, ambiguous). case byKey (gcKey it) of
       Some prev \<Rightarrow> if gcUID prev \<noteq> gcUID it then (byKey, gcKey it # ambiguous) else (byKey(gcKey it \<mapsto> it), ambiguous)
     | None \<Rightarrow> (byKey(gcKey it \<mapsto> it), ambiguous)"
  have "fst (fold ?f cs s) t = Some c \<Longrightarrow> c \<in> set cs \<or> fst s t = Some c" for s
  proof (induction cs arbitrary: s)
    case (Cons x xs)
    then have "c \<in> set xs \<or> fst (?f x s) t = Some c" by simp
    then show ?case by (auto split: prod.splits option.splits if_splits)
  qed simp
  then show ?thesis using assms by (fastforce simp: indexByKey_def)
qed

lemma gcFind_mem: "gcFind cs t = Inr c \<Longrightarrow> c \<in> set cs"
  using indexByUID_mem [of cs t] indexByKey_mem [of cs t] by (auto simp: gcFind_def split: option.splits prod.splits if_splits)

lemma select_mem:
  assumes "selectRepoGCCandidates pick cs args = Inr sel"
  shows "set sel \<subseteq> set cs"
proof (cases "args = []")
  case True
  then show ?thesis using assms indexByKey_mem by (auto simp: selectRepoGCCandidates_def bindR_Inr_iff map_filter_def)
next
  case False
  then have "gcSelectArgs cs args = Inr sel" using assms by (simp add: selectRepoGCCandidates_def)
  then show ?thesis
    unfolding gcSelectArgs_def
    by (rule foldE_induct [where P = "\<lambda>s. set s \<subseteq> set cs"]) (auto simp: bindR_Inr_iff Let_def gcFind_mem split: if_splits)
qed

lemma apply_frame:
  assumes "applyRepoGC cs w = (x, w')" and "files w' k \<noteq> files w k"
  shows "\<exists>c\<in>set cs. prefix (comps (gcBare c)) k"
  using assms
proof (induction cs arbitrary: w x)
  case (Cons c cs)
  obtain r w1 where r: "RemoveAll (gcBare c) w = (r, w1)" by fastforce
  obtain y where y: "applyRepoGC cs w1 = (y, w')" using Cons.prems(1) r by (auto split: prod.splits)
  have "files w1 k \<noteq> files w k \<Longrightarrow> prefix (comps (gcBare c)) k"
    using r by (auto simp: RemoveAll_def Let_def remove_tree_def split: if_splits)
  then show ?case using Cons.IH [OF y] Cons.prems(2) by force
qed simp

lemma candidate_spares: "always (spares sy K) (gcCandidate sy pool g cur b)"
proof -
  have "always (spares sy K) (bareRepoHasLinkedWorktrees sy b)"
    unfolding bareRepoHasLinkedWorktrees_def by (intro quiet.always_intros quiet.run_bare)
  then show ?thesis
    unfolding gcCandidate_def Let_def
    by (intro quiet.always_bind quiet.always_attempt quiet.run_bare)
      (auto intro!: quiet.always_intros split: option.splits sum.splits)
qed

lemma build_spares: "always (spares sy K) (buildRepoGCCandidates sy root pool)"
  unfolding buildRepoGCCandidates_def
  by (intro quiet.always_intros) (auto intro!: quiet.always_intros quiet.map_steps candidate_spares)

lemma build_eligible:
  assumes "buildRepoGCCandidates sy root pool w = (Inr cs, w')" and "c \<in> set cs" and "eligible c"
  shows "unreferenced sy w root (gcUID c) \<and> (\<exists>u u'. spares sy K w u \<and> bareRepoHasLinkedWorktrees sy (gcBare c) u = (Inr False, u'))"
proof -
  obtain repos g cur out v where g: "collectRegistryRepoRefCountsFromMetadata sy root w = Inr (g, cur)"
    and m: "mapW (gcCandidate sy pool g cur) repos w = (Inr out, v)" "c \<in> set out"
    using assms(1,2) by (auto simp: buildRepoGCCandidates_def bindW_Inr split: if_splits)
  obtain bare x x' where "spares sy K w x" and b: "gcCandidate sy pool g cur bare x = (Inr c, x')"
    using quiet.mapW_result [OF candidate_spares m] by blast
  then show ?thesis
    using candidate_eligible [OF b assms(3), of K] collect_unreferenced [OF g] quiet.R_trans by metis
qed

text \<open>The registry is beside the pool, so touching it does not reach into the pool.\<close>

lemma Touch_pool:
  assumes "Touch root now w = (r, u)" and "DefaultRepoPoolPath w = Inr pool" and "env_ok w" and "prefix (comps pool) k"
  shows "files u k = files w k"
proof (cases "u = w")
  case False
  then obtain p es where reg: "RegistryPath w = Inr p" and wr: "snd (writeAtomic p es w) = u"
    using assms(1) unfolding Touch_def by (auto split: sum.splits) (metis snd_conv)
  obtain h where h: "KraHomeDir w = Inr h" and pool: "pool = pathJoin [h, ''repo-pool'']" and p: "p = pathJoin [h, ''state'', ''root-registry.json'']"
    using assms(2) reg by (auto simp: DefaultRepoPoolPath_def RegistryPath_def bindR_Inr_iff)
  have pl: "plains [''repo-pool'']" "plains [''state'', ''root-registry.json'']" by (simp_all add: plain_def)
  have "pool = abs_path (comps h @ [''repo-pool''])" "p = abs_path (comps h @ [''state'', ''root-registry.json''])"
    using pathJoin_abs_path [of "comps h"] KraHomeDir_canonical [OF h assms(3)] pl pool p by (metis plains_comps)+
  then have c: "comps pool = comps h @ [''repo-pool'']" "comps p = comps h @ [''state'', ''root-registry.json'']" using pl by simp_all
  have "comps (Dir p) = comps h @ [''state'']" using RegistryPath_shape(1) [OF reg assms(3)] c(2) by simp
  moreover obtain t where "k = comps h @ ''repo-pool'' # t" using assms(4) c(1) by (auto simp: prefix_def)
  moreover obtain e where "atomicReplace True ''.registry-'' ''.tmp'' (comps (Dir p)) (comps p) (renderRegistry es) w = (e, u)"
    using wr by (auto simp: writeAtomic_def split: prod.splits)
  ultimately show ?thesis using c(2) by (intro atomicReplace_other) (auto simp: tempKey_def)
qed simp

lemma session_pool:
  assumes "repoSession sy rg tr w = (r, u)" and "DefaultRepoPoolPath w = Inr pool" and "env_ok w" and "prefix (comps pool) k"
  shows "files u k = files w k"
  using assms(1) Touch_pool [OF _ assms(2-4)]
  by (fastforce simp: repoSession_def split: if_splits sum.splits prod.splits option.splits)

lemma gcRun_deletes:
  assumes "gcRun sy pick ans f root pool u = (x, w')" and "tame sy K" and "k \<in> K" and "files w' k \<noteq> files u k"
  shows "\<exists>cs w1. \<exists>c\<in>set cs. buildRepoGCCandidates sy root pool u = (Inr cs, w1) \<and> prefix (comps (gcBare c)) k \<and> unreferenced sy u root (gcUID c)
    \<and> (\<exists>v v'. spares sy K u v \<and> bareRepoHasLinkedWorktrees sy (gcBare c) v = (Inr False, v'))"
proof -
  obtain r w1 where b: "buildRepoGCCandidates sy root pool u = (r, w1)" by fastforce
  have same: "files w1 k = files u k" using sparesD [OF build_spares b assms(2,3)] .
  then obtain cs sel where r: "r = Inr cs" and sel: "selectRepoGCCandidates pick (filter Inspectable cs) (gcArgs f) = Inr sel"
    and el: "list_all eligible sel" and d: "gcDelete f ans sel w1 = (x, w')"
    using assms(1,4) b by (auto simp: gcRun_def Let_def list_all_iff list_ex_iff split: sum.splits if_splits)
  have "\<exists>y. applyRepoGC sel w1 = (y, w')"
    using d assms(4) same by (auto simp: gcDelete_def split: sum.splits if_splits prod.splits)
  then obtain c where c: "c \<in> set sel" "prefix (comps (gcBare c)) k" using apply_frame assms(4) same by metis
  then have "c \<in> set cs" "eligible c" using select_mem [OF sel] el by (auto simp: list_all_iff)
  then show ?thesis using build_eligible [OF b [unfolded r], of c K] c(2) b r by blast
qed


text \<open>A pool with one repository that nothing names.\<close>

definition pool_world :: world where
  "pool_world = demo_world\<lparr>files := (files demo_world)([''h'', ''.kra''] \<mapsto> DirN, [''h'', ''.kra'', ''repo-pool''] \<mapsto> DirN,
     [''h'', ''.kra'', ''repo-pool'', ''o.git''] \<mapsto> DirN, [''h'', ''.kra'', ''repo-pool'', ''o.git'', ''HEAD''] \<mapsto> FileN ''ref'')\<rparr>"

definition pool_sys :: sys where
  "pool_sys = demo_sys\<lparr>git := (\<lambda>dir args w. (GitOK (if ''config'' \<in> set args then ''https://g.com/o/r'' else []), files w)),
     tree := (\<lambda>F k. if k = [''h'', ''.kra'', ''repo-pool''] then [[''o.git''], [''o.git'', ''HEAD'']] else [])\<rparr>"

lemma pool_tame: "tame pool_sys K"
  by (simp add: tame_def pool_sys_def demo_sys_def)

lemma resolveRoot_here:
  assumes "getwd w = Some r" and "LooksLikeRoot w r" and "cleanAbs w r = Inr r" and "ReadCurrentContext w = Inr None"
  shows "resolveRoot w = Inr r"
  using assms by (simp add: resolveRoot_def ResolveExistingRoot_def FindRoot_def findRootLoop.simps)

definition pool_registry :: string where
  "pool_registry = ''/h/.kra/state/root-registry.json''"

definition pool_entry :: reg_entry where
  "pool_entry = \<lparr>ContextName = [], RootPath = ''/r'', FirstSeenAt = 100, LastUsedAt = 100\<rparr>"

definition touched_pool :: world where
  "touched_pool = snd (writeAtomic pool_registry [pool_entry] pool_world)"

lemma pool_write: "writeAtomic pool_registry [pool_entry] pool_world = (None, touched_pool)"
proof -
  have "fst (writeAtomic pool_registry [pool_entry] pool_world) = None" by code_simp
  then show ?thesis unfolding touched_pool_def by (metis prod.collapse)
qed

lemma pool_session: "repoSession pool_sys True True pool_world = (Inr (''/r'', ''/h/.kra/repo-pool''), touched_pool)"
proof -
  have "resolveRoot pool_world = Inr ''/r''" by (rule resolveRoot_here; code_simp)
  moreover have "cleanAbs pool_world ''/r'' = Inr ''/r''" "RegistryPath pool_world = Inr pool_registry" "Load pool_registry pool_world = Inr []"
    "touchEntries ''/r'' (nowUnix 100 pool_world) [] = [pool_entry]" by code_simp+
  then have "Touch ''/r'' 100 pool_world = (None, touched_pool)" by (simp add: Touch_def pool_write)
  moreover have "DefaultRepoPoolPath pool_world = Inr ''/h/.kra/repo-pool''"
    "git_missing pool_sys = None" "clock pool_world = 100" by code_simp+
  ultimately show ?thesis by (simp add: repoSession_def)
qed

lemma pool_counts: "collectRegistryRepoRefCountsFromMetadata pool_sys ''/r'' touched_pool = Inr (\<lambda>_. 0, \<lambda>_. 0)"
proof -
  have "RegistryPath pool_world = Inr pool_registry" "env_ok pool_world" "wf_entry pool_entry" "\<not> fails pool_world (SRead (comps pool_registry))"
    by code_simp+
  then have l: "Load pool_registry touched_pool = Inr [pool_entry]" by (intro Load_after_write [OF pool_write]) simp_all
  have r: "RegistryPath touched_pool = Inr pool_registry" by code_simp
  have "Stat touched_pool ''/r'' = Inr DirN" "ReadDir pool_sys touched_pool ''/r/workspaces'' = Inr []" "ReadDir pool_sys touched_pool ''/r/archive'' = Inr []"
    "pathJoin [''/r'', ''workspaces''] = ''/r/workspaces''" "pathJoin [''/r'', ''archive''] = ''/r/archive''" "TrimSpace ''/r'' = ''/r''"
    "RootPath pool_entry = ''/r''" by code_simp+
  then show ?thesis
    by (simp add: collectRegistryRepoRefCountsFromMetadata_def l r addRoot_def scanRootRepoRefsFromMetadata_def scanScope_def addCounts_def Let_def)
qed

definition pool_candidate :: repoGCCandidate where
  "pool_candidate = gcIdentified ''/h/.kra/repo-pool/o.git'' ''g.com/o/r'' ''o/r'' ''https://g.com/o/r'' (\<lambda>_. 0) (\<lambda>_. 0)"

lemma pool_build: "fst (buildRepoGCCandidates pool_sys ''/r'' ''/h/.kra/repo-pool'' touched_pool) = Inr [pool_candidate]"
proof -
  have "listRepoPoolBareRepos pool_sys ''/h/.kra/repo-pool'' touched_pool = Inr [''/h/.kra/repo-pool/o.git'']" by code_simp
  moreover have "fst (gcCandidate pool_sys ''/h/.kra/repo-pool'' (\<lambda>_. 0) (\<lambda>_. 0) ''/h/.kra/repo-pool/o.git'' touched_pool) = Inr pool_candidate"
    by code_simp
  ultimately show ?thesis
    by (auto simp: buildRepoGCCandidates_def bindW_def look_def pool_counts ret_def split: prod.splits)
qed


text \<open>
  C25: the interactive selection of \<open>kra repo gc\<close> goes by the key, which two hosts can share. Of two such repositories the
  user who picks the second one gets the first one deleted, while the same key as an argument is refused as ambiguous.
\<close>

theorem gc_pick_by_key:
  fixes c1 c2 :: repoGCCandidate
  assumes "gcKey c1 = gcKey c2" and "gcUID c1 \<noteq> gcUID c2" and "TrimSpace (gcKey c2) = gcKey c2" and "gcKey c2 \<noteq> []"
    and "gcKey c2 \<noteq> gcUID c1" and "gcKey c2 \<noteq> gcUID c2"
  shows "selectRepoGCCandidates (\<lambda>_. Inr [gcKey c2]) [c1, c2] [] = Inr [c1]
    \<and> selectRepoGCCandidates pick [c1, c2] [gcKey c2] = Inl (SelAmbiguous (gcKey c2))"
  using assms
  by (simp add: selectRepoGCCandidates_def indexByKey_def indexByUID_def gcSelectArgs_def gcFind_def map_filter_def Let_def)

theorem gc_pick_by_key_witness:
  "selectRepoGCCandidates (\<lambda>_. Inr [''o/r'']) [pool_candidate, pool_candidate\<lparr>gcUID := ''h.com/o/r'', gcBare := ''/h/.kra/repo-pool/p.git''\<rparr>] []
     = Inr [pool_candidate]"
proof -
  let ?c2 = "pool_candidate\<lparr>gcUID := ''h.com/o/r'', gcBare := ''/h/.kra/repo-pool/p.git''\<rparr>"
  have "gcKey pool_candidate = gcKey ?c2" "gcUID pool_candidate \<noteq> gcUID ?c2" "TrimSpace (gcKey ?c2) = gcKey ?c2"
    "gcKey ?c2 \<noteq> []" "gcKey ?c2 \<noteq> gcUID pool_candidate" "gcKey ?c2 \<noteq> gcUID ?c2" and k: "gcKey ?c2 = ''o/r''" by code_simp+
  from gc_pick_by_key [OF this(1-6)] show ?thesis unfolding k by blast
qed

end
