(* ===== verification/Repo_Lock.thy ===== *)
theory Repo_Lock
  imports Ws_Flow Repo_Spec
begin

text \<open>
  The lock of \<open>kra ws add-repo\<close>: \<open>acquireWorkspaceAddRepoLock\<close> and its helpers in \<open>internal/cli/ws_add_repo.go\<close>. It is a
  file made with \<open>O_EXCL\<close> that holds the process identifier; a lock whose process is gone, or whose
  text has no identifier, is removed and taken. The process table is the parameter \<open>alive\<close>. First the routine as
  one process runs it alone, then the same routine one system call at a time, for several processes at once.
\<close>

subsection \<open>One process\<close>

fun pidOfLines :: "string list \<Rightarrow> int option" where
  "pidOfLines [] = None"
| "pidOfLines (l # ls) =
     (let line = TrimSpace l
      in if \<not> prefix ''pid='' line then pidOfLines ls
         else let raw = TrimSpace (TrimPrefix line ''pid='') in if raw = [] then None else Atoi raw)"

definition parseWorkspaceAddRepoLockPID :: "string \<Rightarrow> int option" where
  "parseWorkspaceAddRepoLockPID content = pidOfLines (split_on (CHR 0x0A) content)"

text \<open>A signal 0 reaches the process, or is refused because it belongs to somebody else.\<close>

definition isProcessAlive :: "(int \<Rightarrow> bool) \<Rightarrow> int \<Rightarrow> bool" where
  "isProcessAlive alive pid = (if pid \<le> 0 then False else alive pid)"

definition staleContent :: "(int \<Rightarrow> bool) \<Rightarrow> string \<Rightarrow> bool" where
  "staleContent alive raw =
     (case parseWorkspaceAddRepoLockPID raw of
        None \<Rightarrow> True
      | Some pid \<Rightarrow> if pid \<le> 0 then True else \<not> isProcessAlive alive pid)"

definition isWorkspaceAddRepoLockStale :: "(int \<Rightarrow> bool) \<Rightarrow> string \<Rightarrow> world \<Rightarrow> unit + bool" where
  "isWorkspaceAddRepoLockStale alive lockPath w =
     (case ReadFile w lockPath of
        Inl NotExist \<Rightarrow> Inr True
      | Inl ReadFailed \<Rightarrow> Inl ()
      | Inr raw \<Rightarrow> Inr (staleContent alive raw))"

text \<open>The text of the lock; what follows the identifier (the time and the platform) is the parameter \<open>stamp\<close>.\<close>

definition lockText :: "int \<Rightarrow> string \<Rightarrow> string" where
  "lockText pid stamp = ''pid='' @ Itoa pid @ [CHR 0x0A] @ stamp"

datatype lock_error = LkDir | LkAcquire | LkWrite | LkInspect | LkHeld | LkRemoveStale

text \<open>\<open>os.OpenFile\<close> with \<open>O_CREATE|O_EXCL\<close>: \<open>True\<close> as error means that the file exists.\<close>

definition createExcl :: "string \<Rightarrow> (bool, unit) prog" where
  "createExcl p w =
     (let k = comps p
      in if fails w (SCreateTemp k) \<or> files w (butlast k) \<noteq> Some DirN then (Inl False, w)
         else if files w k \<noteq> None then (Inl True, w)
         else (Inr (), w\<lparr>files := (files w)(k \<mapsto> FileN [])\<rparr>))"

definition writeWorkspaceAddRepoLockMetadata :: "int \<Rightarrow> string \<Rightarrow> string \<Rightarrow> (unit, unit) prog" where
  "writeWorkspaceAddRepoLockMetadata pid stamp p w =
     (let k = comps p
      in if fails w (SWrite k) then (Inl (), w\<lparr>files := (files w)(k \<mapsto> FileN (torn w))\<rparr>)
         else (Inr (), w\<lparr>files := (files w)(k \<mapsto> FileN (lockText pid stamp))\<rparr>))"

fun lockLoop :: "sys \<Rightarrow> (int \<Rightarrow> bool) \<Rightarrow> int \<Rightarrow> string \<Rightarrow> string \<Rightarrow> nat \<Rightarrow> (lock_error, unit) prog" where
  "lockLoop sy alive pid stamp lockPath 0 w = (Inl LkHeld, w)"
| "lockLoop sy alive pid stamp lockPath (Suc attempts) w =
     (case createExcl lockPath w of
        (Inr _, w1) \<Rightarrow>
          onErr (writeWorkspaceAddRepoLockMetadata pid stamp lockPath) (\<lambda>_. ignore (RemoveP sy lockPath)) (\<lambda>_. LkWrite) w1
      | (Inl False, w1) \<Rightarrow> (Inl LkAcquire, w1)
      | (Inl True, w1) \<Rightarrow>
          (case isWorkspaceAddRepoLockStale alive lockPath w1 of
             Inl _ \<Rightarrow> (Inl LkInspect, w1)
           | Inr False \<Rightarrow> (Inl LkHeld, w1)
           | Inr True \<Rightarrow>
               (case RemoveP sy lockPath w1 of
                  (Inl ReadFailed, w2) \<Rightarrow> (Inl LkRemoveStale, w2)
                | (_, w2) \<Rightarrow> lockLoop sy alive pid stamp lockPath attempts w2)))"

definition lockPathOf :: "string \<Rightarrow> string \<Rightarrow> string" where
  "lockPathOf root workspaceID = pathJoin [pathJoin [root, ''.kra'', ''locks''], ''ws-add-repo-'' @ workspaceID @ ''.lock'']"

definition acquireWorkspaceAddRepoLock :: "sys \<Rightarrow> (int \<Rightarrow> bool) \<Rightarrow> int \<Rightarrow> string \<Rightarrow> string \<Rightarrow> string \<Rightarrow> (lock_error, unit) prog" where
  "acquireWorkspaceAddRepoLock sy alive pid stamp root workspaceID =
     bindW (mapErr (\<lambda>_. LkDir) (MkdirAllP (pathJoin [root, ''.kra'', ''locks'']))) (\<lambda>_.
       lockLoop sy alive pid stamp (lockPathOf root workspaceID) 2)"

definition releaseLock :: "sys \<Rightarrow> string \<Rightarrow> string \<Rightarrow> ('e, unit) prog" where
  "releaseLock sy root workspaceID = ignore (RemoveP sy (lockPathOf root workspaceID))"

subsection \<open>Several processes\<close>

text \<open>
  Where a process stands in the routine; the number is the attempt. The lock file remembers which process made it, because a
  process writes through its file descriptor: when the file has been removed meanwhile, the path stays as it is.
\<close>

datatype lock_pc = AtOpen nat | AtWrite | AtInspect nat | AtRemove nat | Held | Refused | Released

record lock_state =
  lockFile :: "(int \<times> string) option"
  lockPC :: "int \<Rightarrow> lock_pc"

definition goto :: "int \<Rightarrow> lock_pc \<Rightarrow> lock_state \<Rightarrow> lock_state" where
  "goto p c s = s\<lparr>lockPC := (lockPC s)(p := c)\<rparr>"

inductive lock_step :: "(int \<Rightarrow> bool) \<Rightarrow> string \<Rightarrow> lock_state \<Rightarrow> lock_state \<Rightarrow> bool" for alive stamp where
  open_new: "lockPC s p = AtOpen n \<Longrightarrow> n < 2 \<Longrightarrow> lockFile s = None
    \<Longrightarrow> lock_step alive stamp s (goto p AtWrite (s\<lparr>lockFile := Some (p, [])\<rparr>))"
| open_exists: "lockPC s p = AtOpen n \<Longrightarrow> n < 2 \<Longrightarrow> lockFile s = Some f \<Longrightarrow> lock_step alive stamp s (goto p (AtInspect n) s)"
| give_up: "lockPC s p = AtOpen n \<Longrightarrow> n \<ge> 2 \<Longrightarrow> lock_step alive stamp s (goto p Refused s)"
| write_pid: "lockPC s p = AtWrite \<Longrightarrow> lock_step alive stamp s
    (goto p Held (case lockFile s of Some (q, c) \<Rightarrow> if q = p then s\<lparr>lockFile := Some (p, lockText p stamp)\<rparr> else s | None \<Rightarrow> s))"
| found_gone: "lockPC s p = AtInspect n \<Longrightarrow> lockFile s = None \<Longrightarrow> lock_step alive stamp s (goto p (AtRemove n) s)"
| found_stale: "lockPC s p = AtInspect n \<Longrightarrow> lockFile s = Some (q, c) \<Longrightarrow> staleContent alive c
    \<Longrightarrow> lock_step alive stamp s (goto p (AtRemove n) s)"
| found_alive: "lockPC s p = AtInspect n \<Longrightarrow> lockFile s = Some (q, c) \<Longrightarrow> \<not> staleContent alive c
    \<Longrightarrow> lock_step alive stamp s (goto p Refused s)"
| remove_stale: "lockPC s p = AtRemove n \<Longrightarrow> lock_step alive stamp s (goto p (AtOpen (Suc n)) (s\<lparr>lockFile := None\<rparr>))"
| release: "lockPC s p = Held \<Longrightarrow> lock_step alive stamp s (goto p Released (s\<lparr>lockFile := None\<rparr>))"

inductive_cases lock_stepE: "lock_step alive stamp s t"

subsection \<open>What the lock says\<close>

lemma Itoa_inner: "c \<in> set (Itoa i) \<Longrightarrow> inner_byte c \<and> c \<noteq> CHR 0x0A"
proof -
  have "is_digit c \<Longrightarrow> inner_byte c \<and> c \<noteq> CHR 0x0A" for c by (auto simp: is_digit_def inner_byte_def)
  moreover have "inner_byte (CHR ''-'')" by code_simp
  ultimately show "c \<in> set (Itoa i) \<Longrightarrow> inner_byte c \<and> c \<noteq> CHR 0x0A"
    by (auto simp: Itoa_def dest: nat_digits_digits split: if_splits)
qed

lemma TrimSpace_pid: "TrimSpace (Itoa i) = Itoa i" "TrimSpace (''pid='' @ Itoa i) = ''pid='' @ Itoa i"
proof -
  have ne: "Itoa i \<noteq> []" by (simp add: Itoa_def)
  then have "inner_byte (hd (Itoa i))" "inner_byte (last (Itoa i))" using Itoa_inner [of "hd (Itoa i)" i] Itoa_inner [of "last (Itoa i)" i] by simp_all
  then show "TrimSpace (Itoa i) = Itoa i" using ne by (intro TrimSpace_inner)
  have "inner_byte (CHR ''p'')" by code_simp
  then show "TrimSpace (''pid='' @ Itoa i) = ''pid='' @ Itoa i"
    using ne \<open>inner_byte (last (Itoa i))\<close> by (intro TrimSpace_inner) simp_all
qed

lemma parse_lockText:
  assumes "in_int64 p"
  shows "parseWorkspaceAddRepoLockPID (lockText p stamp) = Some p"
proof -
  have "split_on (CHR 0x0A) (lockText p stamp) = (''pid='' @ Itoa p) # split_on (CHR 0x0A) stamp"
    using split_on_append [of "CHR 0x0A" "''pid='' @ Itoa p" stamp] Itoa_inner by (auto simp: lockText_def)
  then show ?thesis
    using assms TrimSpace_pid [of p] TrimPrefix_append [of "''pid=''" "Itoa p"] Atoi_Itoa [of p]
    by (auto simp: parseWorkspaceAddRepoLockPID_def Itoa_def)
qed

lemma staleContent_own: "in_int64 p \<Longrightarrow> p > 0 \<Longrightarrow> staleContent alive (lockText p stamp) \<longleftrightarrow> \<not> alive p"
  by (simp add: staleContent_def parse_lockText isProcessAlive_def)

lemma staleContent_empty: "staleContent alive []"
  by code_simp

subsection \<open>Exclusion\<close>

definition holdsAlone :: "string \<Rightarrow> int \<Rightarrow> lock_state \<Rightarrow> bool" where
  "holdsAlone stamp p s \<longleftrightarrow> lockFile s = Some (p, lockText p stamp) \<and> lockPC s p = Held
     \<and> (\<forall>q. q \<noteq> p \<longrightarrow> lockPC s q \<notin> insert AtWrite (insert Held (range AtRemove)))"

lemma holdsAlone_step:
  assumes "lock_step alive stamp s t" and "holdsAlone stamp p s" and "in_int64 p" and "p > 0" and "alive p"
  shows "holdsAlone stamp p t \<or> lockPC t p = Released"
  using assms(1)
proof (cases rule: lock_step.cases)
  case (release q)
  then show ?thesis using assms(2) by (cases "q = p") (auto simp: holdsAlone_def goto_def)
next
  case (remove_stale q n)
  then show ?thesis using assms(2) by (cases "q = p") (auto simp: holdsAlone_def)
qed (use assms(2) staleContent_own [OF assms(3,4), of alive stamp] assms(5) in \<open>auto simp: holdsAlone_def goto_def\<close>)

lemma released_step: "lock_step alive stamp s t \<Longrightarrow> lockPC s p = Released \<Longrightarrow> lockPC t p = Released"
  by (erule lock_stepE) (auto simp: goto_def split: option.splits)

lemma holdsAlone_run:
  assumes "(lock_step alive stamp)\<^sup>*\<^sup>* s t" and "holdsAlone stamp p s" and "in_int64 p" and "p > 0" and "alive p"
  shows "holdsAlone stamp p t \<or> lockPC t p = Released"
  using assms(1)
proof (induction rule: rtranclp_induct)
  case base
  then show ?case using assms(2) by simp
next
  case (step t u)
  then show ?case using holdsAlone_step [OF step.hyps(2) _ assms(3-5)] released_step [OF step.hyps(2)] by blast
qed


definition one_holder :: lock_state where
  "one_holder = \<lparr>lockFile = Some (7, lockText 7 []), lockPC = (\<lambda>p. if p = 7 then Held else AtOpen 0)\<rparr>"


text \<open>
  C24: two processes can hold the lock at the same time. The file is made first and the identifier written later; a
  second process that looks in between finds no identifier, takes the lock for a stale one, removes it and takes it.
  No stale lock and no crash is needed.
\<close>

theorem lock_race:
  assumes "p \<noteq> q"
  shows "\<exists>t. (lock_step alive stamp)\<^sup>*\<^sup>* \<lparr>lockFile = None, lockPC = (\<lambda>_. AtOpen 0)\<rparr> t \<and> lockPC t p = Held \<and> lockPC t q = Held"
proof -
  let ?s0 = "\<lparr>lockFile = None, lockPC = (\<lambda>_. AtOpen 0)\<rparr>"
  let ?s1 = "goto p AtWrite (?s0\<lparr>lockFile := Some (p, [])\<rparr>)"
  let ?s2 = "goto q (AtInspect 0) ?s1"
  let ?s3 = "goto q (AtRemove 0) ?s2"
  let ?s4 = "goto q (AtOpen 1) (?s3\<lparr>lockFile := None\<rparr>)"
  let ?s5 = "goto q AtWrite (?s4\<lparr>lockFile := Some (q, [])\<rparr>)"
  let ?s6 = "goto q Held (?s5\<lparr>lockFile := Some (q, lockText q stamp)\<rparr>)"
  let ?s7 = "goto p Held ?s6"
  note d = goto_def
  have "lock_step alive stamp ?s0 ?s1" by (rule open_new [of _ _ 0]) simp_all
  moreover have "lock_step alive stamp ?s1 ?s2" by (rule open_exists) (use assms in \<open>simp_all add: d\<close>)
  moreover have "lock_step alive stamp ?s2 ?s3" by (rule found_stale [of _ _ _ p "[]"]) (simp_all add: d staleContent_empty)
  moreover have "lock_step alive stamp ?s3 ?s4" using remove_stale [of ?s3 q 0] by (simp add: d)
  moreover have "lock_step alive stamp ?s4 ?s5" by (rule open_new [of _ _ 1]) (simp_all add: d)
  moreover have "lock_step alive stamp ?s5 ?s6" using write_pid [of ?s5 q alive stamp] by (simp add: d)
  moreover have "lock_step alive stamp ?s6 ?s7" using write_pid [of ?s6 p alive stamp] assms by (simp add: d)
  ultimately have "(lock_step alive stamp)\<^sup>*\<^sup>* ?s0 ?s7" by (meson converse_rtranclp_into_rtranclp rtranclp.rtrancl_refl)
  moreover have "lockPC ?s7 p = Held" "lockPC ?s7 q = Held" using assms by (simp_all add: d)
  ultimately show ?thesis by blast
qed

theorem lock_race_witness:
  "\<exists>t. (lock_step (\<lambda>_. True) [])\<^sup>*\<^sup>* \<lparr>lockFile = None, lockPC = (\<lambda>_. AtOpen 0)\<rparr> t \<and> lockPC t 7 = Held \<and> lockPC t 8 = Held"
  by (rule lock_race) simp

subsection \<open>One process after another\<close>

text \<open>The routine touches nothing but the lock file, and a success leaves the own text in it.\<close>

definition onlyAt :: "key \<Rightarrow> world \<Rightarrow> world \<Rightarrow> bool" where
  "onlyAt k w w' \<longleftrightarrow> fails w' = fails w \<and> (\<forall>q. q \<noteq> k \<longrightarrow> files w' q = files w q)"

interpretation lock_frame: step_relation "onlyAt k" for k
  by unfold_locales (auto simp: onlyAt_def)

lemma onlyAt_ops:
  "always (onlyAt (comps p)) (createExcl p)" "always (onlyAt (comps p)) (RemoveP sy p)"
  "always (onlyAt (comps p)) (writeWorkspaceAddRepoLockMetadata pid stamp p)"
  by (auto simp: always_def onlyAt_def createExcl_def RemoveP_def writeWorkspaceAddRepoLockMetadata_def Let_def split: option.splits)

lemma lockLoop_frame: "always (onlyAt (comps p)) (lockLoop sy alive pid stamp p n)"
proof (induction n)
  case (Suc n)
  have wr: "always (onlyAt (comps p)) (onErr (writeWorkspaceAddRepoLockMetadata pid stamp p) (\<lambda>_. ignore (RemoveP sy p)) (\<lambda>_. LkWrite))"
    by (intro lock_frame.always_intros onlyAt_ops)
  have "onlyAt (comps p) w (snd (lockLoop sy alive pid stamp p (Suc n) w))" for w
  proof -
    obtain r w1 where c: "createExcl p w = (r, w1)" by fastforce
    then have 1: "onlyAt (comps p) w w1" using onlyAt_ops(1) by (metis always_def snd_conv)
    obtain x w2 where x: "RemoveP sy p w1 = (x, w2)" by fastforce
    then have 2: "onlyAt (comps p) w1 w2" using onlyAt_ops(2) by (metis always_def snd_conv)
    have 3: "onlyAt (comps p) w1 (snd (onErr (writeWorkspaceAddRepoLockMetadata pid stamp p) (\<lambda>_. ignore (RemoveP sy p)) (\<lambda>_. LkWrite) w1))"
      "onlyAt (comps p) w2 (snd (lockLoop sy alive pid stamp p n w2))" using wr Suc by (simp_all add: always_def)
    have 4: "onlyAt (comps p) w (snd (lockLoop sy alive pid stamp p n w2))" using 1 2 3(2) lock_frame.R_trans by blast
    have 5: "onlyAt (comps p) w w2" using 1 2 lock_frame.R_trans by blast
    consider v where "r = Inr v" | "r = Inl False" | "r = Inl True" by (metis (full_types) sum.exhaust)
    then show ?thesis
    proof cases
      case 1
      then show ?thesis using c lock_frame.R_trans [OF \<open>onlyAt (comps p) w w1\<close> 3(1)] by simp
    next
      case 2
      then show ?thesis using c \<open>onlyAt (comps p) w w1\<close> by simp
    next
      case 3
      then show ?thesis
        using c x \<open>onlyAt (comps p) w w1\<close> 4 5
        by (cases "isWorkspaceAddRepoLockStale alive p w1"; cases x) (auto split: bool.splits read_error.splits)
    qed
  qed
  then show ?case by (simp add: always_def)
qed (simp add: always_def onlyAt_def)

lemma lockLoop_taken:
  "lockLoop sy alive pid stamp p n w = (Inr u, w') \<Longrightarrow> files w' (comps p) = Some (FileN (lockText pid stamp))"
  by (induction n arbitrary: w)
    (auto simp: writeWorkspaceAddRepoLockMetadata_def Let_def split: prod.splits sum.splits bool.splits read_error.splits if_splits)

lemma lockLoop_refused:
  assumes "files w (comps p) = Some (FileN (lockText owner st))" and "in_int64 owner" and "owner > 0" and "alive owner"
  shows "\<exists>e. lockLoop sy alive pid stamp p (Suc n) w = (Inl e, w)"
  using assms staleContent_own [of owner alive st]
  by (auto simp: createExcl_def isWorkspaceAddRepoLockStale_def ReadFile_def Let_def split: if_splits)

lemma lockLoop_recovers:
  assumes "files w (comps p) = Some (FileN (lockText owner st))" and "in_int64 owner" and "owner > 0" and "\<not> alive owner"
    and "\<forall>c. \<not> fails w c" and "files w (butlast (comps p)) = Some DirN" and "comps p \<noteq> []"
  shows "\<exists>w'. lockLoop sy alive pid stamp p 2 w = (Inr (), w')"
proof -
  have ne: "butlast (comps p) \<noteq> comps p" using assms(7) by (metis append_butlast_last_id append_self_conv not_Cons_self2)
  show ?thesis
    using assms ne staleContent_own [of owner alive st]
    by (simp add: numeral_2_eq_2 createExcl_def isWorkspaceAddRepoLockStale_def ReadFile_def RemoveP_def
        writeWorkspaceAddRepoLockMetadata_def onErr_def Let_def)
qed

lemma lock_paths:
  assumes "IsAbs root" and "slash \<notin> set wid"
  shows "comps (pathJoin [root, ''.kra'', ''locks'']) = comps root @ [''.kra'', ''locks'']"
    and "comps (lockPathOf root wid) = comps root @ [''.kra'', ''locks'', ''ws-add-repo-'' @ wid @ ''.lock'']"
proof -
  have pl: "plains [''.kra'', ''locks'']" "plains [''ws-add-repo-'' @ wid @ ''.lock'']" using assms(2) by (simp_all add: plain_def)
  show a: "comps (pathJoin [root, ''.kra'', ''locks'']) = comps root @ [''.kra'', ''locks'']"
    using pathJoin_abs [OF assms(1) pl(1)] pl(1) by simp
  show "comps (lockPathOf root wid) = comps root @ [''.kra'', ''locks'', ''ws-add-repo-'' @ wid @ ''.lock'']"
    using pathJoin_abs [OF assms(1) pl(1)] pathJoin_abs [OF _ pl(2), of "abs_path (comps root @ [''.kra'', ''locks''])"] pl
    by (simp add: lockPathOf_def)
qed

lemma below_file_snoc: "below_file F (d @ [x]) \<longleftrightarrow> (\<exists>k b. prefix k d \<and> F k = Some (FileN b))"
  by (auto simp: below_file_def list_ex_iff prefixes_snoc in_set_prefixes split: option.splits node.splits) (metis node.exhaust)

lemma MkdirAllP_Inr:
  "MkdirAllP p w = (Inr u, w') \<Longrightarrow> files w' = mkdirs (files w) (comps p) \<and> fails w' = fails w \<and> \<not> below_file (files w) (comps p @ [[]])"
  by (cases "fails w (SMkdirAll (comps p)) \<or> below_file (files w) (comps p @ [[]])") (auto simp: MkdirAllP_def MkdirAll_def)

text \<open>
  one process after another. After a process took the lock, another process is refused and changes no file as
  long as the first one lives; when the first one died, the other one recovers the lock.
\<close>

theorem lock_sequential:
  assumes "acquireWorkspaceAddRepoLock sy alive p stamp root wid w = (Inr u, w1)" and "in_int64 p" and "p > 0"
    and "IsAbs root" and "slash \<notin> set wid"
  shows "(alive' p \<longrightarrow> (\<exists>e w2. acquireWorkspaceAddRepoLock sy alive' q stamp' root wid w1 = (Inl e, w2) \<and> files w2 = files w1))
    \<and> (\<not> alive' p \<longrightarrow> (\<forall>c. \<not> fails w c) \<longrightarrow>
        (\<exists>w2. acquireWorkspaceAddRepoLock sy alive' q stamp' root wid w1 = (Inr (), w2)
           \<and> files w2 (comps (lockPathOf root wid)) = Some (FileN (lockText q stamp'))))"
proof -
  let ?d = "comps root @ [''.kra'', ''locks'']" and ?p = "lockPathOf root wid"
  note lp = lock_paths [OF assms(4,5)]
  obtain w0 where mk: "MkdirAllP (pathJoin [root, ''.kra'', ''locks'']) w = (Inr (), w0)" and l: "lockLoop sy alive p stamp ?p 2 w0 = (Inr u, w1)"
    using assms(1) by (auto simp: acquireWorkspaceAddRepoLock_def bindW_Inr)
  have w0: "files w0 = mkdirs (files w) ?d" "fails w0 = fails w" and nofile: "\<not> below_file (files w) (?d @ [[]])"
    using MkdirAllP_Inr [OF mk] unfolding lp(1) by blast+
  have "onlyAt (comps ?p) w0 (snd (lockLoop sy alive p stamp ?p 2 w0))" using lockLoop_frame unfolding always_def by blast
  then have fr: "onlyAt (comps ?p) w0 w1" unfolding l snd_conv .
  have cont: "files w1 (comps ?p) = Some (FileN (lockText p stamp))" by (rule lockLoop_taken [OF l])
  have dirs: "files w1 k = mkdirs (files w) ?d k" if "prefix k ?d" for k
  proof -
    have "length k \<le> length ?d" using that by (rule prefix_length_le)
    then have "k \<noteq> comps ?p" unfolding lp(2) by auto
    then show ?thesis using fr w0(1) by (simp add: onlyAt_def)
  qed
  then have same: "mkdirs (files w1) ?d = files w1" by (auto simp: mkdirs_def fun_eq_iff)
  have again: "MkdirAllP (pathJoin [root, ''.kra'', ''locks'']) w1 = (if fails w1 (SMkdirAll ?d) \<or> below_file (files w1) (?d @ [[]]) then Inl () else Inr (), w1)"
    using same lp(1) by (simp add: MkdirAllP_def MkdirAll_def)
  show ?thesis
  proof (intro conjI impI)
    assume "alive' p"
    then obtain e where "lockLoop sy alive' q stamp' ?p 2 w1 = (Inl e, w1)"
      using lockLoop_refused [OF cont assms(2,3), of alive' sy q stamp' 1] by (auto simp: numeral_2_eq_2)
    then show "\<exists>e w2. acquireWorkspaceAddRepoLock sy alive' q stamp' root wid w1 = (Inl e, w2) \<and> files w2 = files w1"
      using again by (auto simp: acquireWorkspaceAddRepoLock_def bindW_def mapErr_def)
  next
    assume dead: "\<not> alive' p" "\<forall>c. \<not> fails w c"
    have nf: "\<forall>c. \<not> fails w1 c" using fr w0 dead(2) by (simp add: onlyAt_def)
    have noFile: "files w1 k \<noteq> Some (FileN b)" if "prefix k ?d" for k b
      using dirs [OF that] nofile that unfolding below_file_snoc by (auto simp: mkdirs_def split: if_splits)
    then have "\<not> below_file (files w1) (?d @ [[]])" unfolding below_file_snoc by blast
    then have m: "MkdirAllP (pathJoin [root, ''.kra'', ''locks'']) w1 = (Inr (), w1)" using again nf by simp
    have "files w1 ?d \<noteq> None" using dirs [of ?d] by (simp add: mkdirs_def)
    then have "files w1 ?d = Some DirN" using noFile [of ?d] by (metis node.exhaust not_None_eq prefix_order.refl)
    then obtain w2 where "lockLoop sy alive' q stamp' ?p 2 w1 = (Inr (), w2)"
      using lockLoop_recovers [OF cont assms(2,3), of alive' sy q stamp'] dead(1) nf lp(2) by (auto simp: butlast_append)
    then show "\<exists>w2. acquireWorkspaceAddRepoLock sy alive' q stamp' root wid w1 = (Inr (), w2)
           \<and> files w2 (comps (lockPathOf root wid)) = Some (FileN (lockText q stamp'))"
      using m lockLoop_taken by (auto simp: acquireWorkspaceAddRepoLock_def bindW_def mapErr_def)
  qed
qed

theorem lock_sequential_witness:
  "\<exists>w1. fst (acquireWorkspaceAddRepoLock demo_sys (\<lambda>_. True) 7 [] ''/r'' ''T-1'' demo_world) = Inr ()
     \<and> (\<exists>e w2. acquireWorkspaceAddRepoLock demo_sys (\<lambda>p. p = 7) 8 [] ''/r'' ''T-1'' w1 = (Inl e, w2) \<and> files w2 = files w1)
     \<and> (\<exists>w2. acquireWorkspaceAddRepoLock demo_sys (\<lambda>p. p \<noteq> 7) 8 [] ''/r'' ''T-1'' w1 = (Inr (), w2))"
proof -
  let ?a = "acquireWorkspaceAddRepoLock demo_sys (\<lambda>_. True) 7 [] ''/r'' ''T-1'' demo_world"
  have ok: "fst ?a = Inr ()" by code_simp
  then have r: "?a = (Inr (), snd ?a)" by (metis prod.collapse)
  have h: "in_int64 7" "IsAbs ''/r''" "slash \<notin> set ''T-1''" by code_simp+
  have nf: "\<forall>c. \<not> fails demo_world c" by (simp add: demo_world_def)
  note l = lock_sequential [OF r h(1) _ h(2,3)]
  show ?thesis using ok l [of "\<lambda>p. p = 7" 8 "[]"] l [of "\<lambda>p. p \<noteq> 7" 8 "[]"] nf by auto
qed

subsection \<open>Progress\<close>

text \<open>How many moves a process has left at most.\<close>

fun movesLeft :: "lock_pc \<Rightarrow> nat" where
  "movesLeft (AtOpen n) = (if n < 2 then 3 * (2 - n) + 4 else 1)"
| "movesLeft (AtInspect n) = 3 * (2 - n) + 3"
| "movesLeft (AtRemove n) = 3 * (2 - n) + 2"
| "movesLeft AtWrite = 2"
| "movesLeft Held = 1"
| "movesLeft Refused = 0"
| "movesLeft Released = 0"

lemma movesLeft_0: "movesLeft c = 0 \<longleftrightarrow> c = Refused \<or> c = Released"
  by (cases c) auto

lemma lock_step_moves:
  assumes "lock_step alive stamp s t"
  shows "\<exists>p c. lockPC t = (lockPC s)(p := c) \<and> movesLeft c < movesLeft (lockPC s p)"
  using assms by (cases rule: lock_step.cases) (fastforce simp: goto_def split: option.splits prod.splits)+

lemma lock_step_enabled:
  assumes "movesLeft (lockPC s p) \<noteq> 0"
  shows "\<exists>t. lock_step alive stamp s t"
proof (cases "lockPC s p")
  case (AtOpen n)
  then show ?thesis by (cases "n < 2"; cases "lockFile s") (force intro: open_new open_exists give_up)+
next
  case (AtInspect n)
  then show ?thesis by (cases "lockFile s"; cases "staleContent alive (snd (the (lockFile s)))") (force intro: found_gone found_stale found_alive)+
qed (use assms in \<open>auto intro: write_pid remove_stale release\<close>)

lemma movesLeft_le: "movesLeft c \<le> 10"
  by (cases c) auto

lemma lock_run_moves:
  assumes "(lock_step alive stamp ^^ n) s t" and "finite P" and "\<And>p. p \<notin> P \<Longrightarrow> movesLeft (lockPC s p) = 0"
  shows "n + (\<Sum>p\<in>P. movesLeft (lockPC t p)) \<le> (\<Sum>p\<in>P. movesLeft (lockPC s p)) \<and> (\<forall>p. p \<notin> P \<longrightarrow> movesLeft (lockPC t p) = 0)"
  using assms(1)
proof (induction n arbitrary: t)
  case (Suc n)
  then obtain u where u: "(lock_step alive stamp ^^ n) s u" "lock_step alive stamp u t" by auto
  note IH = Suc.IH [OF u(1)]
  obtain p c where p: "lockPC t = (lockPC u)(p := c)" "movesLeft c < movesLeft (lockPC u p)" using lock_step_moves [OF u(2)] by blast
  then have "p \<in> P" using IH by force
  moreover have "(\<Sum>q\<in>P. movesLeft (lockPC t q)) < (\<Sum>q\<in>P. movesLeft (lockPC u q))"
    using p \<open>p \<in> P\<close> by (intro sum_strict_mono_ex1 assms(2)) auto
  ultimately show ?case using IH p by auto
qed (use assms(3) in auto)

text \<open>
  C23: With finitely many processes at work the lock routine never hangs: a run has at most ten steps for each of them, and where no step is
  possible every process was refused or has released the lock.
\<close>

theorem lock_progress:
  assumes "(lock_step alive stamp ^^ n) s t" and "finite P" and "\<And>p. p \<notin> P \<Longrightarrow> lockPC s p = Refused \<or> lockPC s p = Released"
  shows "n \<le> 10 * card P \<and> ((\<nexists>u. lock_step alive stamp t u) \<longrightarrow> (\<forall>p. lockPC t p = Refused \<or> lockPC t p = Released))"
proof -
  have "\<And>p. p \<notin> P \<Longrightarrow> movesLeft (lockPC s p) = 0" using assms(3) movesLeft_0 by blast
  from lock_run_moves [OF assms(1,2) this] have "n \<le> (\<Sum>p\<in>P. movesLeft (lockPC s p))" by linarith
  also have "\<dots> \<le> 10 * card P" using sum_bounded_above [of P "\<lambda>p. movesLeft (lockPC s p)" 10] movesLeft_le by (simp add: mult.commute)
  finally show ?thesis using lock_step_enabled movesLeft_0 by metis
qed

definition idle_lock :: lock_state where
  "idle_lock = \<lparr>lockFile = None, lockPC = (\<lambda>_. Released)(1 := AtOpen 0)\<rparr>"

theorem lock_progress_witness:
  "\<exists>t. (lock_step (\<lambda>_. True) [] ^^ 1) idle_lock t \<and> 1 \<le> 10 * card {1 :: int}
    \<and> ((\<nexists>u. lock_step (\<lambda>_. True) [] t u) \<longrightarrow> (\<forall>p. lockPC t p = Refused \<or> lockPC t p = Released))"
proof -
  let ?t = "goto 1 AtWrite (idle_lock\<lparr>lockFile := Some (1, [])\<rparr>)"
  have "lock_step (\<lambda>_. True) [] idle_lock ?t" by (rule open_new [of _ 1 0]) (simp_all add: idle_lock_def)
  then have r: "(lock_step (\<lambda>_. True) [] ^^ 1) idle_lock ?t" by (simp add: eq_OO)
  have "finite {1 :: int}" "\<And>p. p \<notin> {1 :: int} \<Longrightarrow> lockPC idle_lock p = Refused \<or> lockPC idle_lock p = Released"
    by (simp_all add: idle_lock_def)
  from lock_progress [OF r this] r show ?thesis by blast
qed

end
