(* ===== verification/Kra_Select.thy ===== *)
theory Kra_Select
  imports Ws_Flow "HOL-Library.Sublist"
begin

text \<open>
  Choosing from a list without a terminal: the fuzzy filter (\<open>internal/cli/filter_match.go\<close>), the parsing of a
  selection by numbers and the loop that asks for one (\<open>parseMultiSelectIndices\<close> and
  \<open>promptAddRepoPoolSelectionFallback\<close> in \<open>internal/cli/ws_add_repo.go\<close>), and \<open>promptLine\<close> of \<open>ws_create.go\<close>. What the user types is the list of
  the lines still to be read; an element \<open>Inl ()\<close> is a read that fails, and at the end of the list the reader returns an empty line.
\<close>

type_synonym input_lines = "answer list"

fun promptLine :: "input_lines \<Rightarrow> (unit + string) \<times> input_lines" where
  "promptLine [] = (Inr [], [])"
| "promptLine (Inl e # ls) = (Inl e, ls)"
| "promptLine (Inr l # ls) = (Inr (TrimSpace l), ls)"

text \<open>The scan of the text with an index into the query.\<close>

fun scanQuery :: "string \<Rightarrow> string \<Rightarrow> string" where
  "scanQuery [] q = q"
| "scanQuery (h # hs) [] = []"
| "scanQuery (h # hs) (c # cs) = (if h = c then scanQuery hs cs else scanQuery hs (c # cs))"

definition fuzzyFilterMatch :: "string \<Rightarrow> string \<Rightarrow> bool" where
  "fuzzyFilterMatch haystack needle =
     (let q0 = ToLower (TrimSpace needle); q = concat (Fields q0); h = ToLower haystack
      in if q0 = [] then True
         else if q = [] then True
         else if h = [] then False
         else scanQuery h q = [])"

text \<open>\<open>strings.FieldsFunc\<close> with the separators of a selection.\<close>

definition selectSep :: "char \<Rightarrow> bool" where
  "selectSep c \<longleftrightarrow> c = CHR '','' \<or> c = CHR '' '' \<or> c = CHR 0x09"

fun fieldsFunc :: "string \<Rightarrow> string \<Rightarrow> string list" where
  "fieldsFunc acc [] = (if acc = [] then [] else [rev acc])"
| "fieldsFunc acc (c # cs) =
     (if selectSep c then (if acc = [] then fieldsFunc [] cs else rev acc # fieldsFunc [] cs) else fieldsFunc (c # acc) cs)"

fun selectIndices :: "nat \<Rightarrow> nat list \<Rightarrow> string list \<Rightarrow> nat list option" where
  "selectIndices mx out [] = Some out"
| "selectIndices mx out (f # fs) =
     (case Atoi (TrimSpace f) of
        None \<Rightarrow> None
      | Some v \<Rightarrow>
          if v < 1 \<or> v > int mx then None
          else let idx = nat (v - 1) in selectIndices mx (if idx \<in> set out then out else out @ [idx]) fs)"

definition parseMultiSelectIndices :: "string \<Rightarrow> nat \<Rightarrow> nat list option" where
  "parseMultiSelectIndices inp mx =
     (if mx = 0 then None
      else let fields = fieldsFunc [] inp
           in if fields = [] then None
              else case selectIndices mx [] fields of
                None \<Rightarrow> None
              | Some out \<Rightarrow> if out = [] then None else Some out)"

definition filterAddRepoPoolCandidates :: "('a \<Rightarrow> string) \<Rightarrow> 'a list \<Rightarrow> string \<Rightarrow> 'a list" where
  "filterAddRepoPoolCandidates key candidates flt = (if TrimSpace flt = [] then candidates else filter (\<lambda>it. fuzzyFilterMatch (key it) flt) candidates)"

datatype select_error = SelectorCanceled | SelectorRead

text \<open>The loop reads a line per turn and stops at the end of the input, where the line is empty.\<close>

fun selectLoop :: "('a \<Rightarrow> string) \<Rightarrow> 'a list \<Rightarrow> string \<Rightarrow> input_lines \<Rightarrow> (select_error + 'a list) \<times> input_lines" where
  "selectLoop key candidates flt [] = (Inl SelectorCanceled, [])"
| "selectLoop key candidates flt (Inl e # ls) = (Inl SelectorRead, ls)"
| "selectLoop key candidates flt (Inr l # ls) =
     (let visible = filterAddRepoPoolCandidates key candidates flt; line = TrimSpace (TrimSpace l)
      in if line = [] then (Inl SelectorCanceled, ls)
         else if prefix ''/'' line then selectLoop key candidates (TrimSpace (TrimPrefix line ''/'')) ls
         else case parseMultiSelectIndices line (length visible) of
           None \<Rightarrow> selectLoop key candidates flt ls
         | Some indices \<Rightarrow> (Inr (map ((!) visible) indices), ls))"

definition promptAddRepoPoolSelectionFallback :: "('a \<Rightarrow> string) \<Rightarrow> 'a list \<Rightarrow> input_lines \<Rightarrow> (select_error + 'a list) \<times> input_lines" where
  "promptAddRepoPoolSelectionFallback key candidates ls = (if candidates = [] then (Inl SelectorCanceled, ls) else selectLoop key candidates [] ls)"

subsection \<open>The filter is the subsequence test\<close>

lemma scanQuery_subseq: "scanQuery h q = [] \<longleftrightarrow> subseq q h"
proof (induction h q rule: scanQuery.induct)
  case (3 h hs c cs)
  then show ?case by (cases "h = c") (auto simp: subseq_Cons2_iff)
qed auto

text \<open>C30: The filter accepts exactly the texts that contain the query, blanks and case aside, as a subsequence.\<close>

lemma fuzzy_is_subseq: "fuzzyFilterMatch h n \<longleftrightarrow> subseq (concat (Fields (ToLower (TrimSpace n)))) (ToLower h)"
proof -
  have "Fields [] = []" by code_simp
  then show ?thesis
    by (cases "concat (Fields (ToLower (TrimSpace n))) = []")
      (simp_all add: fuzzyFilterMatch_def Let_def scanQuery_subseq del: concat_eq_Nil_conv Nil_eq_concat_conv)
qed

subsection \<open>A selection\<close>

lemma selectIndices_ok:
  "selectIndices mx out fs = Some ix \<Longrightarrow> distinct out \<Longrightarrow> set out \<subseteq> {..<mx} \<Longrightarrow> distinct ix \<and> set ix \<subseteq> {..<mx} \<and> set out \<subseteq> set ix"
proof (induction mx out fs arbitrary: ix rule: selectIndices.induct)
  case (2 mx out f fs)
  obtain v where v: "Atoi (TrimSpace f) = Some v" "1 \<le> v" "v \<le> int mx"
    using "2.prems"(1) by (auto split: option.splits if_splits)
  define out' where "out' = (if nat (v - 1) \<in> set out then out else out @ [nat (v - 1)])"
  have "selectIndices mx out' fs = Some ix" using "2.prems"(1) v by (simp add: out'_def Let_def)
  moreover have "distinct out'" "set out' \<subseteq> {..<mx}" using "2.prems" v by (auto simp: out'_def)
  ultimately have "distinct ix \<and> set ix \<subseteq> {..<mx} \<and> set out' \<subseteq> set ix"
    using "2.IH" [OF v(1) _ refl] v(2,3) unfolding out'_def by (simp split: if_splits)
  then show ?case by (auto simp: out'_def split: if_splits)
qed auto

lemma parseMultiSelectIndices_ok:
  assumes "parseMultiSelectIndices inp mx = Some ix"
  shows "distinct ix \<and> set ix \<subseteq> {..<mx} \<and> ix \<noteq> []"
  using assms selectIndices_ok [of mx "[]" "fieldsFunc [] inp"]
  by (auto simp: parseMultiSelectIndices_def Let_def split: if_splits option.splits)

lemma filterAddRepoPoolCandidates_subset: "set (filterAddRepoPoolCandidates key cs flt) \<subseteq> set cs" "distinct cs \<Longrightarrow> distinct (filterAddRepoPoolCandidates key cs flt)"
  by (auto simp: filterAddRepoPoolCandidates_def)

lemma selectLoop_ok:
  "selectLoop key cs flt ls = (Inr sel, ls') \<Longrightarrow> distinct cs \<Longrightarrow> sel \<noteq> [] \<and> distinct sel \<and> set sel \<subseteq> set cs"
proof (induction key cs flt ls rule: selectLoop.induct)
  case (3 key cs flt l ls)
  let ?visible = "filterAddRepoPoolCandidates key cs flt" and ?line = "TrimSpace (TrimSpace l)"
  show ?case
  proof (cases "prefix ''/'' ?line \<or> parseMultiSelectIndices ?line (length ?visible) = None")
    case True
    then show ?thesis using 3 by (auto simp: Let_def split: if_splits option.splits)
  next
    case False
    then obtain ix where ix: "parseMultiSelectIndices ?line (length ?visible) = Some ix" by auto
    then have sel: "sel = map ((!) ?visible) ix" using False "3.prems"(1) by (auto simp: Let_def split: if_splits)
    have d: "distinct ?visible" using filterAddRepoPoolCandidates_subset(2) "3.prems"(2) by blast
    have k: "distinct ix" "set ix \<subseteq> {..<length ?visible}" "ix \<noteq> []" using parseMultiSelectIndices_ok [OF ix] by auto
    have "inj_on ((!) ?visible) (set ix)" using d k(2) by (metis inj_on_nth lessThan_iff subset_iff)
    moreover have "set sel \<subseteq> set ?visible" using k(2) unfolding sel by auto
    ultimately show ?thesis using k(1,3) filterAddRepoPoolCandidates_subset(1) [of key cs flt] unfolding sel by (auto simp: distinct_map)
  qed
qed auto

text \<open>
  C31: The question for a selection ends on every input, and what it returns is well formed: at least one candidate, each of them from the list that was offered, none twice.
\<close>

theorem selection_wellformed:
  assumes "distinct candidates"
  shows "case fst (promptAddRepoPoolSelectionFallback key candidates ls) of
      Inl _ \<Rightarrow> True | Inr sel \<Rightarrow> sel \<noteq> [] \<and> distinct sel \<and> set sel \<subseteq> set candidates"
proof (cases "promptAddRepoPoolSelectionFallback key candidates ls")
  case (Pair r ls')
  then show ?thesis using selectLoop_ok [of key candidates "[]" ls _ ls'] assms
    by (auto simp: promptAddRepoPoolSelectionFallback_def split: sum.splits if_splits)
qed

theorem selection_wellformed_witness:
  "fst (promptAddRepoPoolSelectionFallback (\<lambda>x. x) [''o/a'', ''o/b''] [Inr ''/b'', Inr ''2'', Inr ''1,1'']) = Inr [''o/b'']
    \<and> (case fst (promptAddRepoPoolSelectionFallback (\<lambda>x. x) [''o/a'', ''o/b''] [Inr ''/b'', Inr ''2'', Inr ''1,1'']) of
        Inl _ \<Rightarrow> True | Inr sel \<Rightarrow> sel \<noteq> [] \<and> distinct sel \<and> set sel \<subseteq> set [''o/a'', ''o/b''])"
proof
  show "fst (promptAddRepoPoolSelectionFallback (\<lambda>x. x) [''o/a'', ''o/b''] [Inr ''/b'', Inr ''2'', Inr ''1,1'']) = Inr [''o/b'']" by code_simp
  have "distinct [''o/a'', ''o/b'']" by simp
  then show "case fst (promptAddRepoPoolSelectionFallback (\<lambda>x. x) [''o/a'', ''o/b''] [Inr ''/b'', Inr ''2'', Inr ''1,1'']) of
      Inl _ \<Rightarrow> True | Inr sel \<Rightarrow> sel \<noteq> [] \<and> distinct sel \<and> set sel \<subseteq> set [''o/a'', ''o/b'']"
    by (rule selection_wellformed)
qed

end
