(* ===== verification/Ws_Add_Repo.thy ===== *)
theory Ws_Add_Repo
  imports Repo_Lock Repo_Spec Kra_Config Kra_Select Ws_Frame
begin

text \<open>
  Adding repositories of the pool to a workspace: \<open>internal/cli/ws_add_repo.go\<close>. The candidates, the choice of branches
  and base references, the fetch policy, the checks before the change, the change with its rollback, and
  the handler in both modes. In human mode the answers are read as lines, as they are when the input is no terminal. The age of \<open>FETCH_HEAD\<close> in nanoseconds is the parameter \<open>age\<close>. The texts that only show the reason of a fetch are left out.
\<close>

record addRepoPoolCandidate =
  arUID :: string
  arKey :: string
  arRemote :: string
  arAlias :: string
  arBare :: string

record addRepoPlanItem =
  Candidate :: addRepoPoolCandidate
  BaseRefInput :: string
  DefaultBaseRef :: string
  BaseRefUsed :: string
  Branch :: string
  WorktreePath :: string
  LocalBranchExists :: bool
  RemoteBranchExists :: bool

record addRepoAppliedItem =
  Plan :: addRepoPlanItem
  CreatedLocalBranch :: bool
  CreatedWorktree :: bool

record addRepoFetchOptions =
  Refresh :: bool
  NoFetch :: bool

datatype add_error =
    AScan | ANoBaseRef | ANoRepo | AList state_error | ANoAlias | AAliasTaken string | AWorktreeExists string | AStatWorktree | AStatFetchHead
  | ABaseRefRequired | ABaseRefInvalid string | ABaseRefMissing string | ABranchInUse string | AGit string

subsection \<open>The workspace\<close>

definition workspaceActiveOnFilesystem :: "string \<Rightarrow> string \<Rightarrow> world \<Rightarrow> unit + bool \<times> bool" where
  "workspaceActiveOnFilesystem root workspaceID w =
     (case Stat w (pathJoin [root, ''workspaces'', workspaceID]) of
        Inl NotExist \<Rightarrow> Inr (False, False)
      | Inl ReadFailed \<Rightarrow> Inl ()
      | Inr (FileN _) \<Rightarrow> Inr (False, False)
      | Inr DirN \<Rightarrow>
          (case Stat w (pathJoin [root, ''archive'', workspaceID]) of
             Inr DirN \<Rightarrow> Inr (True, False)
           | Inl ReadFailed \<Rightarrow> Inl ()
           | _ \<Rightarrow> Inr (True, True)))"

definition resolveWorkspaceIDForAddRepo :: "string \<Rightarrow> string \<Rightarrow> string list \<Rightarrow> unit + string" where
  "resolveWorkspaceIDForAddRepo root cwd args =
     (case args of
        [a] \<Rightarrow> if validateWorkspaceID (TrimSpace a) then Inr (TrimSpace a) else Inl ()
      | _ \<Rightarrow>
          (case Rel (pathJoin [root, ''workspaces'']) cwd of
             None \<Rightarrow> Inl ()
           | Some r \<Rightarrow>
               (let rel = Clean r; first = hd (split_on slash rel)
                in if rel = ''.'' \<or> outside rel then Inl ()
                   else if validateWorkspaceID first then Inr first else Inl ())))"

subsection \<open>Candidates of the pool\<close>

text \<open>The path of a \<open>file\<close> URL; an opaque one has none.\<close>

definition fileURLPath :: "string \<Rightarrow> string option" where
  "fileURLPath remote =
     (case urlScheme remote of
        None \<Rightarrow> None
      | Some (scheme, rest) \<Rightarrow>
          if scheme \<noteq> ''file'' then None
          else if prefix ''//'' rest then map_option snd (parseAfterSlashes (drop 2 rest))
          else if prefix ''/'' rest then unescape EncPath (fst (cut CHR ''?'' (fst (cut CHR ''#'' rest))))
          else Some [])"

definition missingLocalFileRemotePath :: "string \<Rightarrow> world \<Rightarrow> bool" where
  "missingLocalFileRemotePath remote0 w =
     (let remote = TrimSpace remote0
      in if remote = [] then False
         else case fileURLPath remote of
           None \<Rightarrow> False
         | Some u \<Rightarrow> (let p = TrimSpace u in if p = [] then False else Stat w p = Inl NotExist))"

text \<open>The candidate a bare repository gives, from the output of git.\<close>

definition poolCandidate :: "string \<Rightarrow> string \<Rightarrow> world \<Rightarrow> addRepoPoolCandidate option" where
  "poolCandidate path out w =
     (let remoteURL = TrimSpace out
      in if missingLocalFileRemotePath remoteURL w then None
         else case Normalize remoteURL of
           Inl _ \<Rightarrow> None
         | Inr spec \<Rightarrow>
             (let repoKey = Owner spec @ ''/'' @ Repo spec
              in Some \<lparr>arUID = Host spec @ ''/'' @ repoKey, arKey = repoKey, arRemote = remoteURL, arAlias = Repo spec, arBare = path\<rparr>))"

fun scanPool :: "sys \<Rightarrow> key \<Rightarrow> key list \<Rightarrow> key list \<Rightarrow> addRepoPoolCandidate list \<Rightarrow> (add_error, addRepoPoolCandidate list) prog" where
  "scanPool sy k [] found items w = (Inr items, w)"
| "scanPool sy k (q # qs) found items w =
     (let path = abs_path (k @ q)
      in if list_ex (\<lambda>p. prefix p q) found \<or> files w (k @ q) \<noteq> Some DirN then scanPool sy k qs found items w
         else if \<not> suffix ''.git'' path then
           (if fails w (SReadDir (k @ q)) then (Inl AScan, w) else scanPool sy k qs found items w)
         else (case RunBare sy path [''config'', ''--get'', ''remote.origin.url''] w of
             (r, w1) \<Rightarrow>
               (case (case r of Inl _ \<Rightarrow> None | Inr out \<Rightarrow> poolCandidate path out w1) of
                  None \<Rightarrow> if fails w1 (SReadDir (k @ q)) then (Inl AScan, w1) else scanPool sy k qs found items w1
                | Some c \<Rightarrow> scanPool sy k qs (q # found) (items @ [c]) w1)))"

definition scanRepoPoolCandidatesFromFilesystem :: "sys \<Rightarrow> string \<Rightarrow> (add_error, addRepoPoolCandidate list) prog" where
  "scanRepoPoolCandidatesFromFilesystem sy repoPoolPath w =
     (let k = comps repoPoolPath
      in case Stat w repoPoolPath of
           Inl NotExist \<Rightarrow> (Inr [], w)
         | Inl ReadFailed \<Rightarrow> (Inl AScan, w)
         | Inr (FileN _) \<Rightarrow> (Inr [], w)
         | Inr DirN \<Rightarrow> scanPool sy k ([] # tree sy (files w) k) [] [] w)"

definition deriveAliasFromRepoKey :: "string \<Rightarrow> string" where
  "deriveAliasFromRepoKey repoKey = last (split_on slash (TrimSpace repoKey))"

text \<open>The repositories the workspace has already are left out; an error in listing them counts as none.\<close>

definition listAddRepoPoolCandidates :: "sys \<Rightarrow> string \<Rightarrow> string \<Rightarrow> string \<Rightarrow> (add_error, addRepoPoolCandidate list) prog" where
  "listAddRepoPoolCandidates sy root repoPoolPath workspaceID =
     bindW (scanRepoPoolCandidatesFromFilesystem sy repoPoolPath) (\<lambda>base.
     bindW (attempt (listWorkspaceReposForClose sy root workspaceID)) (\<lambda>r.
       let bound = (case r of Inl _ \<Rightarrow> [] | Inr repos \<Rightarrow> map wr_uid repos)
       in look (\<lambda>w. Inr (List.map_filter (\<lambda>it.
            if arUID it \<in> set bound then None
            else case Normalize (arRemote it) of
              Inl _ \<Rightarrow> None
            | Inr spec \<Rightarrow>
                (let barePath = StorePath repoPoolPath spec
                 in case Stat w barePath of
                      Inr DirN \<Rightarrow> Some (it\<lparr>arAlias := deriveAliasFromRepoKey (arKey it), arBare := barePath\<rparr>)
                    | _ \<Rightarrow> None)) base))))"

subsection \<open>Base reference and branch\<close>

definition detectDefaultBaseRefFromBare :: "sys \<Rightarrow> string \<Rightarrow> (add_error, string) prog" where
  "detectDefaultBaseRefFromBare sy barePath =
     bindW (attempt (RunBare sy barePath [''symbolic-ref'', ''--quiet'', ''refs/remotes/origin/HEAD''])) (\<lambda>r.
       let branch = (case r of Inl _ \<Rightarrow> []
             | Inr out \<Rightarrow> (let ref = TrimSpace out in if prefix ''refs/remotes/origin/'' ref then TrimSpace (TrimPrefix ref ''refs/remotes/origin/'') else []))
       in if branch \<noteq> [] then ret (''origin/'' @ branch)
          else bindW (mapErr AGit (ShowRefExistsBare sy barePath ''refs/remotes/origin/main'')) (\<lambda>okMain.
            if okMain then ret ''origin/main''
            else bindW (mapErr AGit (ShowRefExistsBare sy barePath ''refs/remotes/origin/master'')) (\<lambda>okMaster.
              if okMaster then ret ''origin/master'' else throw ANoBaseRef)))"

definition resolveBaseRefInput :: "string \<Rightarrow> string \<Rightarrow> string option" where
  "resolveBaseRefInput rawInput defaultBaseRef =
     (let v = TrimSpace rawInput
      in if v = [] then Some (TrimSpace defaultBaseRef)
         else if prefix ''origin/'' v then (if length v \<le> length ''origin/'' then None else Some v)
         else if prefix ''/'' v then
           (let branch = TrimSpace (TrimPrefix v ''/'') in if branch = [] then None else Some (''origin/'' @ branch))
         else Some (''origin/'' @ v))"

definition resolveBranchInput :: "string \<Rightarrow> string \<Rightarrow> string" where
  "resolveBranchInput rawInput defaultPrefix = (let v = TrimSpace rawInput in if v = [] then TrimSpace defaultPrefix else v)"

definition addRepoBranchTemplateRepoName :: "string \<Rightarrow> string" where
  "addRepoBranchTemplateRepoName repoKey =
     (let trimmed = TrimSpace repoKey
      in if slash \<notin> set trimmed \<or> (trimmed \<noteq> [] \<and> last trimmed = slash) then trimmed else last (split_on slash trimmed))"

text \<open>A match of \<open>\{\{\s*([a-z_]+)\s*\}\}\<close> at the start of a text: the name and what follows.\<close>

definition re_space :: "char \<Rightarrow> bool" where
  "re_space c \<longleftrightarrow> c = CHR 0x09 \<or> c = CHR 0x0A \<or> c = CHR 0x0C \<or> c = CHR 0x0D \<or> c = CHR '' ''"

definition matchPlaceholder :: "string \<Rightarrow> (string \<times> string) option" where
  "matchPlaceholder s =
     (if \<not> prefix ''{{'' s then None
      else let t = dropWhile re_space (drop 2 s);
               name = takeWhile (\<lambda>c. (CHR ''a'' \<le> c \<and> c \<le> CHR ''z'') \<or> c = CHR ''_'') t;
               rest = dropWhile re_space (drop (length name) t)
           in if name = [] \<or> \<not> prefix ''}}'' rest then None else Some (name, drop 2 rest))"

lemma matchPlaceholder_shorter: "matchPlaceholder s = Some (n, r) \<Longrightarrow> length r < length s"
proof -
  assume m: "matchPlaceholder s = Some (n, r)"
  then have p: "prefix ''{{'' s" by (auto simp: matchPlaceholder_def split: if_splits)
  define t where "t = dropWhile re_space (drop 2 s)"
  have "length r \<le> length t" using m
    by (auto simp: matchPlaceholder_def Let_def t_def split: if_splits)
      (metis diff_le_self le_trans length_dropWhile_le length_drop)
  moreover have "length t \<le> length s - 2" unfolding t_def by (metis length_dropWhile_le length_drop)
  moreover have "length s \<ge> 2" using p prefix_length_le by fastforce
  ultimately show ?thesis by linarith
qed

function replacePlaceholders :: "(string \<rightharpoonup> string) \<Rightarrow> string \<Rightarrow> string" where
  "replacePlaceholders allowed s =
     (case matchPlaceholder s of
        Some (key, rest) \<Rightarrow>
          (case allowed key of Some v \<Rightarrow> v | None \<Rightarrow> ''{{invalid:'' @ key @ ''}}'') @ replacePlaceholders allowed rest
      | None \<Rightarrow> (case s of [] \<Rightarrow> [] | c # cs \<Rightarrow> c # replacePlaceholders allowed cs))"
  by pat_completeness auto
termination by (relation "measure (\<lambda>(_, s). length s)") (auto dest: matchPlaceholder_shorter)

definition renderAddRepoDefaultBranch :: "string \<Rightarrow> string \<Rightarrow> string \<Rightarrow> string option" where
  "renderAddRepoDefaultBranch template workspaceID repoKey =
     (let trimmed = TrimSpace template
      in if trimmed = [] then Some workspaceID
         else let rendered = replacePlaceholders [''workspace_id'' \<mapsto> workspaceID, ''repo_key'' \<mapsto> repoKey,
                      ''repo_name'' \<mapsto> addRepoBranchTemplateRepoName repoKey] trimmed
              in if Contains rendered ''{{invalid:'' then None
                 else if Contains rendered ''{{'' \<or> Contains rendered ''}}'' then None
                 else Some (TrimSpace rendered))"

subsection \<open>Fetching\<close>

definition addRepoFetchTTL :: int where
  "addRepoFetchTTL = 5 * 60 * 1000000000"

definition baseRefWanted :: "addRepoPlanItem \<Rightarrow> string" where
  "baseRefWanted p =
     (let used = TrimSpace (BaseRefUsed p); inp = TrimSpace (BaseRefInput p)
      in if used \<noteq> [] then used else if inp \<noteq> [] then inp else TrimSpace (DefaultBaseRef p))"

text \<open>Whether to fetch. The reference of the branch is looked up and its presence is not used.\<close>

definition evaluateAddRepoFetchDecision :: "sys \<Rightarrow> (world \<Rightarrow> string \<Rightarrow> int) \<Rightarrow> addRepoPlanItem \<Rightarrow> addRepoFetchOptions \<Rightarrow> (add_error, bool) prog" where
  "evaluateAddRepoFetchDecision sy age p opts =
     (if NoFetch opts then ret False
      else if Refresh opts then ret True
      else let baseRef = baseRefWanted p; bare = arBare (Candidate p)
           in bindW (guardW (baseRef \<noteq> []) ABaseRefRequired) (\<lambda>_.
              bindW (mapErr AGit (ShowRefExistsBare sy bare (''refs/remotes/'' @ baseRef))) (\<lambda>okBaseRef.
                if \<not> okBaseRef then ret True
                else bindW (mapErr AGit (ShowRefExistsBare sy bare (''refs/remotes/origin/'' @ Branch p))) (\<lambda>okBranchRef.
                  look (\<lambda>w. let fetchHead = pathJoin [bare, ''FETCH_HEAD'']
                    in case Stat w fetchHead of
                         Inl NotExist \<Rightarrow> Inr True
                       | Inl ReadFailed \<Rightarrow> Inl AStatFetchHead
                       | Inr _ \<Rightarrow> Inr (age w fetchHead > addRepoFetchTTL))))))"

definition isRetryableFetchError :: "string \<Rightarrow> bool" where
  "isRetryableFetchError err =
     list_ex (Contains (ToLower err)) [''timeout'', ''timed out'', ''connection reset'', ''connection refused'', ''temporary'',
       ''network is unreachable'', ''tls handshake timeout'']"

definition runAddRepoFetchWithPolicy :: "sys \<Rightarrow> string \<Rightarrow> (string, unit) prog" where
  "runAddRepoFetchWithPolicy sy barePath =
     bindW (attempt (RunBare sy barePath [''fetch'', ''origin'', ''--prune'', ''--no-tags''])) (\<lambda>r.
       case r of
         Inr _ \<Rightarrow> ret ()
       | Inl err \<Rightarrow> if \<not> isRetryableFetchError err then throw err
                    else bindW (RunBare sy barePath [''fetch'', ''origin'', ''--prune'', ''--no-tags'']) (\<lambda>_. ret ()))"

text \<open>The repositories whose fetch beside the prompts succeeded are \<open>prefetched\<close>; in JSON mode there are none.\<close>

definition ensureAddRepoPlanFetchPhaseB :: "sys \<Rightarrow> (world \<Rightarrow> string \<Rightarrow> int) \<Rightarrow> addRepoPlanItem list \<Rightarrow> addRepoFetchOptions \<Rightarrow> (string \<Rightarrow> bool) \<Rightarrow> (add_error, unit) prog" where
  "ensureAddRepoPlanFetchPhaseB sy age plan opts prefetched =
     forW (\<lambda>p. bindW (evaluateAddRepoFetchDecision sy age p opts) (\<lambda>shouldFetch.
       if \<not> shouldFetch \<or> prefetched (arKey (Candidate p)) then ret ()
       else mapErr AGit (runAddRepoFetchWithPolicy sy (arBare (Candidate p))))) plan"

subsection \<open>Checks before the change\<close>

definition isBranchCheckedOutInBare :: "sys \<Rightarrow> string \<Rightarrow> string \<Rightarrow> (string, bool) prog" where
  "isBranchCheckedOutInBare sy barePath branch =
     bindW (RunBare sy barePath [''worktree'', ''list'', ''--porcelain'']) (\<lambda>out.
       let target = ''refs/heads/'' @ TrimSpace branch
       in ret (list_ex (\<lambda>l. let line = TrimSpace l in prefix ''branch '' line \<and> TrimSpace (TrimPrefix line ''branch '') = target)
            (split_on (CHR 0x0A) out)))"

definition worktreePathOf :: "string \<Rightarrow> string \<Rightarrow> addRepoPlanItem \<Rightarrow> string" where
  "worktreePathOf root workspaceID p = pathJoin [root, ''workspaces'', workspaceID, ''repos'', arAlias (Candidate p)]"

text \<open>The checks of one item, given the aliases taken so far; the item returns with its path, base reference and what is known of its branch.\<close>

definition preflightNames :: "string \<Rightarrow> string \<Rightarrow> string list \<Rightarrow> addRepoPlanItem \<Rightarrow> (add_error, addRepoPlanItem) prog" where
  "preflightNames root workspaceID taken p =
     (let al = arAlias (Candidate p); path = worktreePathOf root workspaceID p;
          base = (let v = TrimSpace (BaseRefInput p) in if v = [] then TrimSpace (DefaultBaseRef p) else v)
      in bindW (guardW (al \<noteq> []) ANoAlias) (\<lambda>_.
         bindW (guardW (al \<notin> set taken) (AAliasTaken al)) (\<lambda>_.
         bindW (look (\<lambda>w. case Stat w path of Inr _ \<Rightarrow> Inl (AWorktreeExists path) | Inl NotExist \<Rightarrow> Inr () | Inl ReadFailed \<Rightarrow> Inl AStatWorktree)) (\<lambda>_.
         bindW (guardW (base \<noteq> []) ABaseRefRequired) (\<lambda>_.
         bindW (guardW (prefix ''origin/'' base) (ABaseRefInvalid base)) (\<lambda>_.
           ret (p\<lparr>WorktreePath := path, BaseRefUsed := base\<rparr>)))))))"

definition preflightRefs :: "sys \<Rightarrow> addRepoPlanItem \<Rightarrow> (add_error, addRepoPlanItem) prog" where
  "preflightRefs sy p =
     (let bare = arBare (Candidate p)
      in bindW (mapErr AGit (ShowRefExistsBare sy bare (''refs/remotes/'' @ BaseRefUsed p))) (\<lambda>ok.
         bindW (guardW ok (ABaseRefMissing (BaseRefUsed p))) (\<lambda>_.
         bindW (mapErr AGit (ShowRefExistsBare sy bare (''refs/heads/'' @ Branch p))) (\<lambda>lcl.
         bindW (mapErr AGit (ShowRefExistsBare sy bare (''refs/remotes/origin/'' @ Branch p))) (\<lambda>remote.
         bindW (if lcl then mapErr AGit (isBranchCheckedOutInBare sy bare (Branch p)) else ret False) (\<lambda>inUse.
         bindW (guardW (\<not> inUse) (ABranchInUse (Branch p))) (\<lambda>_.
           ret (p\<lparr>LocalBranchExists := lcl, RemoteBranchExists := remote\<rparr>))))))))"

fun preflightItems :: "sys \<Rightarrow> string \<Rightarrow> string \<Rightarrow> string list \<Rightarrow> addRepoPlanItem list \<Rightarrow> (add_error, addRepoPlanItem list) prog" where
  "preflightItems sy root workspaceID taken [] = ret []"
| "preflightItems sy root workspaceID taken (p # ps) =
     bindW (preflightNames root workspaceID taken p) (\<lambda>p1.
     bindW (preflightRefs sy p1) (\<lambda>p2.
     bindW (preflightItems sy root workspaceID (arAlias (Candidate p) # taken) ps) (\<lambda>rest. ret (p2 # rest))))"

definition preflightAddRepoPlan :: "sys \<Rightarrow> string \<Rightarrow> string \<Rightarrow> addRepoPlanItem list \<Rightarrow> (add_error, addRepoPlanItem list) prog" where
  "preflightAddRepoPlan sy root workspaceID plan =
     (if plan = [] then throw ANoRepo
      else bindW (mapErr AList (listWorkspaceReposForClose sy root workspaceID)) (\<lambda>existing.
        preflightItems sy root workspaceID (map wr_alias existing) plan))"

subsection \<open>The change\<close>

definition undoItem :: "sys \<Rightarrow> addRepoAppliedItem \<Rightarrow> ('e, unit) prog" where
  "undoItem sy it =
     (let bare = arBare (Candidate (Plan it)); path = WorktreePath (Plan it)
      in bindW (if CreatedWorktree it
                then bindW (ignore (RunBare sy bare [''worktree'', ''remove'', ''--force'', path])) (\<lambda>_. ignore (RemoveAll path))
                else ret ()) (\<lambda>_.
         if CreatedLocalBranch it then ignore (RunBare sy bare [''branch'', ''-D'', Branch (Plan it)]) else ret ()))"

definition rollbackAddRepoApplied :: "sys \<Rightarrow> addRepoAppliedItem list \<Rightarrow> ('e, unit) prog" where
  "rollbackAddRepoApplied sy applied = forW (undoItem sy) (rev applied)"

definition addBranchArgs :: "addRepoPlanItem \<Rightarrow> string list" where
  "addBranchArgs p = (if RemoteBranchExists p then [''branch'', ''--track'', Branch p, ''origin/'' @ Branch p] else [''branch'', Branch p, BaseRefUsed p])"

definition makeBranch :: "sys \<Rightarrow> addRepoPlanItem \<Rightarrow> (string, string) prog" where
  "makeBranch sy p = (if LocalBranchExists p then ret [] else RunBare sy (arBare (Candidate p)) (addBranchArgs p))"

fun applyItems :: "sys \<Rightarrow> addRepoAppliedItem list \<Rightarrow> addRepoPlanItem list \<Rightarrow> (string, addRepoAppliedItem list) prog" where
  "applyItems sy applied [] = ret applied"
| "applyItems sy applied (p # ps) =
     (let bare = arBare (Candidate p); made = \<not> LocalBranchExists p
      in bindW (onErr (makeBranch sy p) (\<lambda>_. rollbackAddRepoApplied sy applied) id) (\<lambda>_.
         bindW (onErr (RunBare sy bare [''worktree'', ''add'', WorktreePath p, Branch p])
           (\<lambda>_. rollbackAddRepoApplied sy (applied @ [\<lparr>Plan = p, CreatedLocalBranch = made, CreatedWorktree = False\<rparr>])) id) (\<lambda>_.
           applyItems sy (applied @ [\<lparr>Plan = p, CreatedLocalBranch = made, CreatedWorktree = True\<rparr>]) ps)))"

definition applyAddRepoPlanAllOrNothing :: "sys \<Rightarrow> addRepoPlanItem list \<Rightarrow> (string, addRepoAppliedItem list) prog" where
  "applyAddRepoPlanAllOrNothing sy plan = applyItems sy [] plan"

definition buildWorkspaceMetaReposRestore :: "addRepoAppliedItem list \<Rightarrow> meta_restore list" where
  "buildWorkspaceMetaReposRestore applied =
     map (\<lambda>it. let c = Candidate (Plan it)
       in \<lparr>RepoUID = arUID c, restoreKey = arKey c, RemoteURL = arRemote c, Alias = arAlias c, restoreBranch = Branch (Plan it),
           BaseRef = BaseRefUsed (Plan it)\<rparr>) applied"

subsection \<open>The command\<close>

record add_flags =
  afID :: string
  afFormat :: string
  afYes :: bool
  afOpts :: addRepoFetchOptions
  afRepos :: "string list"
  afBranch :: string
  afBase :: string

definition addDefaults :: add_flags where
  "addDefaults = \<lparr>afID = [], afFormat = ''human'', afYes = False, afOpts = \<lparr>Refresh = False, NoFetch = False\<rparr>, afRepos = [], afBranch = [], afBase = []\<rparr>"

definition addValueFlag :: "string \<Rightarrow> (string \<Rightarrow> add_flags \<Rightarrow> add_flags) option" where
  "addValueFlag name =
     (if name = ''--format'' then Some (\<lambda>v f. f\<lparr>afFormat := v\<rparr>)
      else if name = ''--repo'' then Some (\<lambda>v f. f\<lparr>afRepos := afRepos f @ [v]\<rparr>)
      else if name = ''--branch'' then Some (\<lambda>v f. f\<lparr>afBranch := v\<rparr>)
      else if name = ''--base-ref'' then Some (\<lambda>v f. f\<lparr>afBase := v\<rparr>)
      else if name = ''--id'' then Some (\<lambda>v f. f\<lparr>afID := v\<rparr>) else None)"

text \<open>A flag, with its value after it or after an equals sign; only the flags with a value have the second form.\<close>

fun parseAddFlags :: "string list \<Rightarrow> add_flags \<Rightarrow> exit_code + add_flags \<times> string list" where
  "parseAddFlags [] f = Inr (f, [])"
| "parseAddFlags (a # args) f =
     (if \<not> prefix ''-'' a then Inr (f, a # args)
      else if a = ''-h'' \<or> a = ''--help'' then Inl ExitOK
      else if a = ''--yes'' then parseAddFlags args (f\<lparr>afYes := True\<rparr>)
      else if a = ''--refresh'' then parseAddFlags args (f\<lparr>afOpts := (afOpts f)\<lparr>Refresh := True\<rparr>\<rparr>)
      else if a = ''--no-fetch'' then parseAddFlags args (f\<lparr>afOpts := (afOpts f)\<lparr>NoFetch := True\<rparr>\<rparr>)
      else case addValueFlag a of
        Some set_to \<Rightarrow> (case args of [] \<Rightarrow> Inl ExitUsage | v # rest \<Rightarrow> parseAddFlags rest (set_to (TrimSpace v) f))
      | None \<Rightarrow>
          (case (if CHR ''='' \<in> set a then addValueFlag (fst (cut CHR ''='' a)) else None) of
             Some set_to \<Rightarrow> parseAddFlags args (set_to (TrimSpace (drop (length (fst (cut CHR ''='' a)) + 1) a)) f)
           | None \<Rightarrow> Inl ExitUsage))"

text \<open>The last candidate with a key; an error of the handler is its exit code with the error code of the reply.\<close>

definition byRepoKey :: "addRepoPoolCandidate list \<Rightarrow> string \<Rightarrow> addRepoPoolCandidate option" where
  "byRepoKey candidates key = find (\<lambda>c. arKey c = key) (rev candidates)"

definition planItem :: "sys \<Rightarrow> string \<Rightarrow> string \<Rightarrow> string \<Rightarrow> string \<Rightarrow> addRepoPoolCandidate \<Rightarrow> (exit_code \<times> string, addRepoPlanItem) prog" where
  "planItem sy workspaceID baseRefInput branchInput branchTemplate cand =
     bindW (mapErr (\<lambda>_. (ExitError, ''internal_error'')) (detectDefaultBaseRefFromBare sy (arBare cand))) (\<lambda>defaultBaseRef.
       case resolveBaseRefInput baseRefInput defaultBaseRef of
         None \<Rightarrow> throw (ExitUsage, ''invalid_argument'')
       | Some baseRefUsed \<Rightarrow>
           (case renderAddRepoDefaultBranch branchTemplate workspaceID (arKey cand) of
              None \<Rightarrow> throw (ExitUsage, ''invalid_argument'')
            | Some defaultBranch \<Rightarrow>
                (let branch = resolveBranchInput branchInput defaultBranch
                 in bindW (mapErr (\<lambda>_. (ExitUsage, ''invalid_argument'')) (CheckRefFormat sy (''refs/heads/'' @ branch))) (\<lambda>_.
                      ret \<lparr>Candidate = cand, BaseRefInput = baseRefInput, DefaultBaseRef = defaultBaseRef, BaseRefUsed = baseRefUsed,
                           Branch = branch, WorktreePath = [], LocalBranchExists = False, RemoteBranchExists = False\<rparr>))))"

fun planItems ::
    "(addRepoPoolCandidate \<Rightarrow> (exit_code \<times> string, addRepoPlanItem) prog) \<Rightarrow> addRepoPoolCandidate list \<Rightarrow> string list \<Rightarrow> string list
      \<Rightarrow> (exit_code \<times> string, addRepoPlanItem list) prog" where
  "planItems item candidates seen [] = ret []"
| "planItems item candidates seen (k # ks) =
     (let key = TrimSpace k
      in if key = [] \<or> key \<in> set seen then planItems item candidates seen ks
         else case byRepoKey candidates key of
           None \<Rightarrow> throw (ExitUsage, ''invalid_argument'')
         | Some cand \<Rightarrow> bindW (item cand) (\<lambda>p. bindW (planItems item candidates (key # seen) ks) (\<lambda>ps. ret (p # ps))))"

text \<open>The change, then the metadata; what was made is undone when the metadata cannot be written.\<close>

definition addRepoFinish :: "sys \<Rightarrow> string \<Rightarrow> string \<Rightarrow> addRepoPlanItem list \<Rightarrow> (exit_code \<times> string, addRepoAppliedItem list) prog" where
  "addRepoFinish sy root workspaceID plan =
     bindW (mapErr (\<lambda>_. (ExitError, ''internal_error'')) (applyAddRepoPlanAllOrNothing sy plan)) (\<lambda>applied.
     bindW (onErr (\<lambda>w. upsertWorkspaceMetaReposRestore (pathJoin [root, ''workspaces'', workspaceID]) (buildWorkspaceMetaReposRestore applied) (clock w) w)
       (\<lambda>_. rollbackAddRepoApplied sy applied) (\<lambda>_. (ExitError, ''internal_error''))) (\<lambda>_.
       ret applied))"

definition addRepoLocked ::
    "sys \<Rightarrow> (world \<Rightarrow> string \<Rightarrow> int) \<Rightarrow> string \<Rightarrow> string \<Rightarrow> string \<Rightarrow> string list \<Rightarrow> string \<Rightarrow> string \<Rightarrow> string \<Rightarrow> addRepoFetchOptions
      \<Rightarrow> (exit_code \<times> string, addRepoAppliedItem list) prog" where
  "addRepoLocked sy age workspaceID root repoPoolPath repoKeys baseRefInput branchInput branchTemplate opts =
     bindW (mapErr (\<lambda>_. (ExitError, ''internal_error'')) (listAddRepoPoolCandidates sy root repoPoolPath workspaceID)) (\<lambda>candidates.
     bindW (planItems (planItem sy workspaceID baseRefInput branchInput branchTemplate) candidates [] repoKeys) (\<lambda>plan0.
     bindW (mapErr (\<lambda>_. (ExitError, ''internal_error'')) (ensureAddRepoPlanFetchPhaseB sy age plan0 opts (\<lambda>_. False))) (\<lambda>_.
     bindW (mapErr (\<lambda>_. (ExitError, ''conflict'')) (preflightAddRepoPlan sy root workspaceID plan0)) (\<lambda>plan.
       addRepoFinish sy root workspaceID plan))))"

definition runWSAddRepoJSON ::
    "sys \<Rightarrow> (int \<Rightarrow> bool) \<Rightarrow> int \<Rightarrow> string \<Rightarrow> (world \<Rightarrow> string \<Rightarrow> int) \<Rightarrow> string \<Rightarrow> string \<Rightarrow> string \<Rightarrow> string list \<Rightarrow> string \<Rightarrow> string \<Rightarrow> string
      \<Rightarrow> bool \<Rightarrow> addRepoFetchOptions \<Rightarrow> handler" where
  "runWSAddRepoJSON sy alive pid stamp age workspaceID root repoPoolPath repoKeys baseRefInput branchInput branchTemplate yes opts w =
     (let fail = (\<lambda>c code. (c, Some (failReply ''add-repo'' code)))
      in if repoKeys = [] \<or> \<not> yes then (fail ExitUsage ''invalid_argument'', w)
         else case workspaceActiveOnFilesystem root workspaceID w of
           Inl _ \<Rightarrow> (fail ExitError ''internal_error'', w)
         | Inr (existsFS, activeFS) \<Rightarrow>
             if \<not> existsFS then (fail ExitError ''workspace_not_found'', w)
             else if \<not> activeFS then (fail ExitError ''conflict'', w)
             else case acquireWorkspaceAddRepoLock sy alive pid stamp root workspaceID w of
               (Inl _, w1) \<Rightarrow> (fail ExitError ''conflict'', w1)
             | (Inr _, w1) \<Rightarrow>
                 (case addRepoLocked sy age workspaceID root repoPoolPath repoKeys baseRefInput branchInput branchTemplate opts w1 of
                    (r, w2) \<Rightarrow>
                      ((case r of Inl (c, code) \<Rightarrow> fail c code | Inr _ \<Rightarrow> (ExitOK, Some (okReply ''add-repo''))),
                       snd (releaseLock sy root workspaceID w2 :: (unit + unit) \<times> world))))"

subsection \<open>The questions of the human mode\<close>

text \<open>The value typed and whether it was typed; an empty line keeps the value shown.\<close>

definition promptAddRepoEditableInput :: "string \<Rightarrow> input_lines \<Rightarrow> (unit + string \<times> bool) \<times> input_lines" where
  "promptAddRepoEditableInput initialValue ls =
     (case promptLine ls of
        (Inl e, ls') \<Rightarrow> (Inl e, ls')
      | (Inr l, ls') \<Rightarrow> (let line = TrimSpace l in (Inr (if line = [] then (TrimSpace initialValue, False) else (line, True)), ls')))"

text \<open>The questions about one repository: its item of the plan, whether it is to be fetched, and the lines left.\<close>

definition askItem ::
    "sys \<Rightarrow> (world \<Rightarrow> string \<Rightarrow> int) \<Rightarrow> string \<Rightarrow> string \<Rightarrow> addRepoFetchOptions \<Rightarrow> input_lines \<Rightarrow> addRepoPoolCandidate
      \<Rightarrow> (unit, addRepoPlanItem \<times> bool \<times> input_lines) prog" where
  "askItem sy age workspaceID branchTemplate opts ls0 cand =
     bindW (mapErr (\<lambda>_. ()) (detectDefaultBaseRefFromBare sy (arBare cand))) (\<lambda>defaultBaseRef.
       case promptAddRepoEditableInput defaultBaseRef ls0 of
         (Inl _, ls1) \<Rightarrow> throw ()
       | (Inr (baseRefInput, edited), ls1) \<Rightarrow>
       (case resolveBaseRefInput baseRefInput defaultBaseRef of
          None \<Rightarrow> throw ()
        | Some baseRefUsed \<Rightarrow>
       (case renderAddRepoDefaultBranch branchTemplate workspaceID (arKey cand) of
          None \<Rightarrow> throw ()
        | Some branchDefault \<Rightarrow>
       (case promptAddRepoEditableInput branchDefault ls1 of
          (Inl _, ls2) \<Rightarrow> throw ()
        | (Inr (branchInput, _), ls2) \<Rightarrow>
            (let branch = resolveBranchInput branchInput branchDefault;
                 item = \<lparr>Candidate = cand, BaseRefInput = (if edited then baseRefUsed else []), DefaultBaseRef = defaultBaseRef, BaseRefUsed = [],
                         Branch = branch, WorktreePath = [], LocalBranchExists = False, RemoteBranchExists = False\<rparr>
             in bindW (mapErr (\<lambda>_. ()) (CheckRefFormat sy (''refs/heads/'' @ branch))) (\<lambda>_.
                bindW (mapErr (\<lambda>_. ()) (evaluateAddRepoFetchDecision sy age item opts)) (\<lambda>shouldFetch.
                  ret (item, shouldFetch, ls2))))))))"

text \<open>
  The fetches that run beside the questions. A fetch is one step; the scheduler \<open>sched\<close> says, after each item, which of the fetches under way
  end there and which later, in any order. What is left ends where the command waits for all of them.
\<close>

type_synonym fetch_queue = "(string \<times> string) list"
type_synonym scheduler = "nat \<Rightarrow> fetch_queue \<Rightarrow> fetch_queue \<times> fetch_queue"

fun runPrefetch :: "sys \<Rightarrow> fetch_queue \<Rightarrow> (string \<Rightarrow> bool) \<Rightarrow> ('e, string \<Rightarrow> bool) prog" where
  "runPrefetch sy [] prefetched = ret prefetched"
| "runPrefetch sy ((key, bare) # q) prefetched =
     bindW (attempt (runAddRepoFetchWithPolicy sy bare)) (\<lambda>r.
       runPrefetch sy q (prefetched(key := (case r of Inl _ \<Rightarrow> False | Inr _ \<Rightarrow> True))))"

fun askItems ::
    "sys \<Rightarrow> scheduler \<Rightarrow> (input_lines \<Rightarrow> addRepoPoolCandidate \<Rightarrow> (unit, addRepoPlanItem \<times> bool \<times> input_lines) prog) \<Rightarrow> nat \<Rightarrow> fetch_queue
      \<Rightarrow> (string \<Rightarrow> bool) \<Rightarrow> input_lines \<Rightarrow> addRepoPoolCandidate list \<Rightarrow> (unit, addRepoPlanItem list \<times> (string \<Rightarrow> bool) \<times> input_lines) prog" where
  "askItems sy sched ask i q prefetched ls [] =
     bindW (runPrefetch sy (fst (sched i q) @ snd (sched i q)) prefetched) (\<lambda>p. ret ([], p, ls))"
| "askItems sy sched ask i q prefetched ls (cand # cands) =
     bindW (ask ls cand) (\<lambda>(item, shouldFetch, ls1).
       let q1 = (if shouldFetch then q @ [(arKey cand, arBare cand)] else q)
       in bindW (runPrefetch sy (fst (sched i q1)) prefetched) (\<lambda>p.
          bindW (askItems sy sched ask (Suc i) (snd (sched i q1)) p ls1 cands) (\<lambda>(items, p', ls2). ret (item # items, p', ls2))))"

definition applyConfirmed :: "string \<Rightarrow> bool" where
  "applyConfirmed line \<longleftrightarrow> (let a = ToLower (TrimSpace line) in a = [] \<or> a = ''y'' \<or> a = ''yes'')"

definition addRepoHumanLocked ::
    "sys \<Rightarrow> scheduler \<Rightarrow> (world \<Rightarrow> string \<Rightarrow> int) \<Rightarrow> string \<Rightarrow> string \<Rightarrow> string \<Rightarrow> string \<Rightarrow> addRepoFetchOptions \<Rightarrow> input_lines
      \<Rightarrow> (unit, addRepoAppliedItem list) prog" where
  "addRepoHumanLocked sy sched age workspaceID root repoPoolPath branchTemplate opts ls0 =
     bindW (mapErr (\<lambda>_. ()) (listAddRepoPoolCandidates sy root repoPoolPath workspaceID)) (\<lambda>candidates.
     bindW (guardW (candidates \<noteq> []) ()) (\<lambda>_.
       case promptAddRepoPoolSelectionFallback arKey candidates ls0 of
         (Inl _, ls1) \<Rightarrow> throw ()
       | (Inr selected, ls1) \<Rightarrow>
     bindW (guardW (selected \<noteq> []) ()) (\<lambda>_.
     bindW (askItems sy sched (askItem sy age workspaceID branchTemplate opts) 0 [] (\<lambda>_. False) ls1 selected) (\<lambda>(plan0, prefetched, ls2).
     bindW (mapErr (\<lambda>_. ()) (ensureAddRepoPlanFetchPhaseB sy age plan0 opts prefetched)) (\<lambda>_.
     bindW (mapErr (\<lambda>_. ()) (preflightAddRepoPlan sy root workspaceID plan0)) (\<lambda>plan.
       case fst (promptLine ls2) of
         Inl _ \<Rightarrow> throw ()
       | Inr line \<Rightarrow>
           bindW (guardW (applyConfirmed line) ()) (\<lambda>_.
           bindW (mapErr (\<lambda>_. ()) (ensureAddRepoPlanFetchPhaseB sy age plan opts prefetched)) (\<lambda>_.
             mapErr (\<lambda>_. ()) (addRepoFinish sy root workspaceID plan)))))))))"

definition runWSAddRepoHuman ::
    "sys \<Rightarrow> (int \<Rightarrow> bool) \<Rightarrow> int \<Rightarrow> string \<Rightarrow> scheduler \<Rightarrow> (world \<Rightarrow> string \<Rightarrow> int) \<Rightarrow> input_lines \<Rightarrow> string \<Rightarrow> string \<Rightarrow> string \<Rightarrow> string
      \<Rightarrow> addRepoFetchOptions \<Rightarrow> handler" where
  "runWSAddRepoHuman sy alive pid stamp sched age ls workspaceID root repoPoolPath branchTemplate opts w =
     (case workspaceActiveOnFilesystem root workspaceID w of
        Inl _ \<Rightarrow> ((ExitError, None), w)
      | Inr (existsFS, activeFS) \<Rightarrow>
          if \<not> existsFS \<or> \<not> activeFS then ((ExitError, None), w)
          else case acquireWorkspaceAddRepoLock sy alive pid stamp root workspaceID w of
            (Inl _, w1) \<Rightarrow> ((ExitError, None), w1)
          | (Inr _, w1) \<Rightarrow>
              (case addRepoHumanLocked sy sched age workspaceID root repoPoolPath branchTemplate opts ls w1 of
                 (r, w2) \<Rightarrow>
                   ((case r of Inl _ \<Rightarrow> ExitError | Inr _ \<Rightarrow> ExitOK, None),
                    snd (releaseLock sy root workspaceID w2 :: (unit + unit) \<times> world))))"

definition addFlagsOK :: "add_flags \<Rightarrow> string list \<Rightarrow> bool" where
  "addFlagsOK f args \<longleftrightarrow> (afFormat f = ''human'' \<or> afFormat f = ''json'') \<and> \<not> (Refresh (afOpts f) \<and> NoFetch (afOpts f))
     \<and> \<not> (afFormat f = ''human'' \<and> (afRepos f \<noteq> [] \<or> afBranch f \<noteq> [] \<or> afBase f \<noteq> [] \<or> afYes f)) \<and> length args \<le> 1"

definition runWSAddRepo ::
    "sys \<Rightarrow> (string \<Rightarrow> config option) \<Rightarrow> (int \<Rightarrow> bool) \<Rightarrow> int \<Rightarrow> string \<Rightarrow> scheduler \<Rightarrow> (world \<Rightarrow> string \<Rightarrow> int)
      \<Rightarrow> input_lines \<Rightarrow> string list \<Rightarrow> handler" where
  "runWSAddRepo sy yaml alive pid stamp sched age ls args0 w =
     (case parseAddFlags args0 addDefaults of
        Inl c \<Rightarrow> ((c, None), w)
      | Inr (f, args) \<Rightarrow>
      if \<not> addFlagsOK f args then ((ExitUsage, None), w)
      else if git_missing sy \<noteq> None then ((ExitError, None), w)
      else case getwd w of
        None \<Rightarrow> ((ExitError, None), w)
      | Some wd \<Rightarrow>
      (case resolveRoot w of
         Inl c \<Rightarrow> ((c, None), w)
       | Inr root \<Rightarrow>
      (case loadMergedConfig yaml root w of
         Inl _ \<Rightarrow> ((ExitError, if afFormat f = ''json'' then Some (failReply ''add-repo'' ''internal_error'') else None), w)
       | Inr cfg \<Rightarrow>
      (case DefaultRepoPoolPath w of
         Inl _ \<Rightarrow> ((ExitError, None), w)
       | Inr pool \<Rightarrow>
      if afID f \<noteq> [] \<and> args \<noteq> [] then ((ExitUsage, None), w)
      else case resolveWorkspaceIDForAddRepo root wd (if afID f \<noteq> [] then [afID f] else args) of
        Inl _ \<Rightarrow> ((ExitUsage, if afFormat f = ''json'' then Some (failReply ''add-repo'' ''invalid_argument'') else None), w)
      | Inr wid \<Rightarrow>
          if afFormat f = ''json''
          then runWSAddRepoJSON sy alive pid stamp age wid root pool (afRepos f) (afBase f) (afBranch f) (cfgBranch cfg) (afYes f) (afOpts f) w
          else runWSAddRepoHuman sy alive pid stamp sched age ls wid root pool (cfgBranch cfg) (afOpts f) w))))"

end
