(* ===== verification/Ws_Add_Laws.thy ===== *)
theory Ws_Add_Laws
  imports Ws_Add_Repo Repo_Gc Ws_Lifecycle
begin

text \<open>
  What \<open>kra ws add-repo\<close> promises: what the checks before the change establish, that a failed change is undone call by call,
  how often it fetches, and what the metadata of the workspace says afterwards.
\<close>

subsection \<open>The checks before the change\<close>

lemma preflightNames_Inr:
  "preflightNames root wid taken p w = (Inr p1, w1) \<longleftrightarrow>
     (let al = arAlias (Candidate p); base = (let v = TrimSpace (BaseRefInput p) in if v = [] then TrimSpace (DefaultBaseRef p) else v)
      in w1 = w \<and> al \<noteq> [] \<and> al \<notin> set taken \<and> Stat w (worktreePathOf root wid p) = Inl NotExist \<and> prefix ''origin/'' base
       \<and> p1 = p\<lparr>WorktreePath := worktreePathOf root wid p, BaseRefUsed := base\<rparr>)"
  by (auto simp: preflightNames_def Let_def prog_Inr split: sum.splits read_error.splits)

lemma preflightRefs_Inr:
  assumes "preflightRefs sy p w = (Inr q, w')"
  shows "\<exists>l r. q = p\<lparr>LocalBranchExists := l, RemoteBranchExists := r\<rparr>"
  using assms by (auto simp: preflightRefs_def Let_def prog_Inr)

text \<open>What a checked item looks like.\<close>

definition checkedItem :: "string \<Rightarrow> string \<Rightarrow> addRepoPlanItem \<Rightarrow> addRepoPlanItem \<Rightarrow> bool" where
  "checkedItem root wid p q \<longleftrightarrow> Candidate q = Candidate p \<and> Branch q = Branch p \<and> WorktreePath q = worktreePathOf root wid p
     \<and> prefix ''origin/'' (BaseRefUsed q)
     \<and> BaseRefUsed q = (if TrimSpace (BaseRefInput p) = [] then TrimSpace (DefaultBaseRef p) else TrimSpace (BaseRefInput p))"

lemma preflightItems_ok:
  "preflightItems sy root wid taken ps w = (Inr qs, w') \<Longrightarrow>
     list_all2 (checkedItem root wid) ps qs \<and> distinct (map (arAlias \<circ> Candidate) ps) \<and> set (map (arAlias \<circ> Candidate) ps) \<inter> set taken = {}
     \<and> [] \<notin> set (map (arAlias \<circ> Candidate) ps)"
proof (induction sy root wid taken ps arbitrary: w qs w' rule: preflightItems.induct)
  case (2 sy root wid taken p ps)
  from "2.prems" obtain p1 w1 p2 w2 rest w3 where s:
    "preflightNames root wid taken p w = (Inr p1, w1)" "preflightRefs sy p1 w1 = (Inr p2, w2)"
    "preflightItems sy root wid (arAlias (Candidate p) # taken) ps w2 = (Inr rest, w3)" "qs = p2 # rest"
    by (auto simp: prog_Inr)
  have "checkedItem root wid p p2"
    using s(1) preflightRefs_Inr [OF s(2)] by (auto simp: preflightNames_Inr checkedItem_def Let_def)
  then show ?case using s(1,4) "2.IH" [OF s(3)] by (auto simp: preflightNames_Inr Let_def)
qed (auto simp: prog_Inr)

lemma preflight_ok:
  assumes "preflightAddRepoPlan sy root wid plan w = (Inr qs, w')"
  shows "plan \<noteq> [] \<and> list_all2 (checkedItem root wid) plan qs \<and> distinct (map (arAlias \<circ> Candidate) plan)
     \<and> (\<exists>existing u. listWorkspaceReposForClose sy root wid w = (Inr existing, u)
          \<and> set (map (arAlias \<circ> Candidate) plan) \<inter> set (map wr_alias existing) = {})"
  using assms preflightItems_ok
  by (auto simp: preflightAddRepoPlan_def prog_Inr split: if_splits) fastforce+

lemma planItem_base:
  assumes "planItem sy wid base br tmpl c w = (Inr p, w')"
  shows "BaseRefInput p = base \<and> Candidate p = c"
  using assms unfolding planItem_def bindW_Inr
  by clarify (auto simp: Let_def prog_Inr split: option.split_asm)

lemma planItems_all:
  assumes "\<And>c u p u'. item c u = (Inr p, u') \<Longrightarrow> Q p"
  shows "planItems item cands seen ks w = (Inr ps, w') \<Longrightarrow> list_all Q ps"
proof (induction ks arbitrary: seen w ps w')
  case (Cons k ks)
  then show ?case
    using assms by (fastforce simp: prog_Inr Let_def split: if_split_asm option.split_asm)
qed (simp add: prog_Inr)

lemma addRepoLocked_base:
  assumes "addRepoLocked sy age wid root pool keys base br tmpl opts u = (Inr x, u')" and "TrimSpace base \<noteq> []"
  shows "prefix ''origin/'' (TrimSpace base)"
proof -
  obtain cands u1 plan0 u2 u3 plan u4 where
    p0: "planItems (planItem sy wid base br tmpl) cands [] keys u1 = (Inr plan0, u2)"
    and p1: "preflightAddRepoPlan sy root wid plan0 u3 = (Inr plan, u4)"
    using assms(1) by (auto simp: addRepoLocked_def bindW_Inr)
  have "list_all (\<lambda>p. BaseRefInput p = base) plan0"
    by (rule planItems_all [OF _ p0]) (use planItem_base in blast)
  moreover have "plan0 \<noteq> []" "list_all2 (checkedItem root wid) plan0 plan" using preflight_ok [OF p1] by auto
  ultimately obtain p q where "checkedItem root wid p q" "BaseRefInput p = base"
    by (cases plan0) (auto simp: list_all2_Cons1)
  then show ?thesis using assms(2) by (auto simp: checkedItem_def)
qed

text \<open>A program whose errors all satisfy a predicate.\<close>

definition errs :: "('e \<Rightarrow> bool) \<Rightarrow> ('e, 'a) prog \<Rightarrow> bool" where
  "errs P m \<longleftrightarrow> (\<forall>w e w'. m w = (Inl e, w') \<longrightarrow> P e)"

lemma errs_ret: "errs P (ret v)"
  by (simp add: errs_def ret_def)

lemma errs_throw: "P e \<Longrightarrow> errs P (throw e)"
  by (simp add: errs_def throw_def)

lemma errs_bind: "errs P m \<Longrightarrow> (\<And>v. errs P (f v)) \<Longrightarrow> errs P (bindW m f)"
  by (fastforce simp: errs_def bindW_def split: prod.splits sum.splits)

lemma errs_map: "(\<And>e. P (g e)) \<Longrightarrow> errs P (mapErr g m)"
  by (auto simp: errs_def mapErr_def split: prod.splits sum.splits)

lemma errs_on: "(\<And>e. P (g e)) \<Longrightarrow> errs P (onErr m h g)"
  by (auto simp: errs_def onErr_def split: prod.splits sum.splits)

lemmas errs_intros = errs_ret errs_throw errs_bind errs_map errs_on

lemma addRepoLocked_errs: "errs (\<lambda>e. fst e \<noteq> ExitOK) (addRepoLocked sy age wid root pool keys base br tmpl opts)"
proof -
  let ?P = "\<lambda>e :: exit_code \<times> string. fst e \<noteq> ExitOK"
  have item: "errs ?P (planItem sy wid base br tmpl c)" for c
    unfolding planItem_def by (rule errs_bind) (auto simp: Let_def intro!: errs_intros split: option.split)
  have "errs ?P (planItems (planItem sy wid base br tmpl) cands seen keys)" for cands seen
    by (induction keys arbitrary: seen) (auto simp: Let_def intro!: errs_intros item split: option.split)
  then show ?thesis unfolding addRepoLocked_def addRepoFinish_def by (intro errs_intros) auto
qed

lemma addRepoJSON_ok:
  assumes "fst (fst (runWSAddRepoJSON sy alive pid stamp age wid root pool keys base br tmpl yes opts w)) = ExitOK"
  shows "\<exists>w1 applied w2. acquireWorkspaceAddRepoLock sy alive pid stamp root wid w = (Inr (), w1)
    \<and> addRepoLocked sy age wid root pool keys base br tmpl opts w1 = (Inr applied, w2)
    \<and> snd (runWSAddRepoJSON sy alive pid stamp age wid root pool keys base br tmpl yes opts w)
        = snd (releaseLock sy root wid w2 :: (unit + unit) \<times> world)"
proof -
  have no: "addRepoLocked sy age wid root pool keys base br tmpl opts u \<noteq> (Inl (ExitOK, code), u')" for u u' code
    using addRepoLocked_errs by (fastforce simp: errs_def)
  show ?thesis using assms no
    by (auto simp: runWSAddRepoJSON_def Let_def split: if_splits sum.splits prod.splits)
qed


subsection \<open>A failed change is undone\<close>

definition gitOK :: "git_result \<Rightarrow> bool" where
  "gitOK r = (case r of GitOK _ \<Rightarrow> True | GitErr _ _ _ \<Rightarrow> False)"

lemma gitOK_simps [simp]: "gitOK (GitOK out)" "\<not> gitOK (GitErr c e out)"
  by (simp_all add: gitOK_def)

lemma RunBare_call:
  assumes "git_missing sy = None" and "TrimSpace bare \<noteq> []" and "RunBare sy bare args w = (r, w')"
  shows "\<exists>g. calls w' = calls w @ [([], [''--git-dir'', bare] @ args, g)] \<and> (gitOK g \<longleftrightarrow> (\<exists>out. r = Inr out))"
  using assms
  by (auto simp: RunBare_def Run_def EnsureGitInPath_def bindW_def runNow_def exec_git_def
      split: prod.splits git_result.splits)

text \<open>The calls that undo an item, and the call that undoes a call that succeeded.\<close>

definition undoArgs :: "addRepoAppliedItem \<Rightarrow> string list list" where
  "undoArgs it = (let pre = [''--git-dir'', arBare (Candidate (Plan it))]
     in (if CreatedWorktree it then [pre @ [''worktree'', ''remove'', ''--force'', WorktreePath (Plan it)]] else [])
        @ (if CreatedLocalBranch it then [pre @ [''branch'', ''-D'', Branch (Plan it)]] else []))"

definition undoOf :: "git_call \<Rightarrow> string list option" where
  "undoOf c = (let args = fst (snd c); pre = take 2 args; cmd = drop 2 args
     in if \<not> gitOK (snd (snd c)) then None
        else if take 2 cmd = [''worktree'', ''add''] then Some (pre @ [''worktree'', ''remove'', ''--force'', cmd ! 2])
        else if take 2 cmd = [''branch'', ''--track''] \<and> length cmd = 4 then Some (pre @ [''branch'', ''-D'', cmd ! 2])
        else if take 1 cmd = [''branch''] then Some (pre @ [''branch'', ''-D'', cmd ! 1])
        else None)"

definition callArgs :: "git_call list \<Rightarrow> string list list" where
  "callArgs cs = map (fst \<circ> snd) cs"

definition hasBare :: "addRepoPlanItem \<Rightarrow> bool" where
  "hasBare p \<longleftrightarrow> TrimSpace (arBare (Candidate p)) \<noteq> []"

lemma undoItem_calls:
  assumes g: "git_missing sy = None" and b: "hasBare (Plan it)" and u: "undoItem sy it w = (r, w')"
  shows "\<exists>cs. calls w' = calls w @ cs \<and> callArgs cs = undoArgs it \<and> r = Inr ()"
proof -
  let ?bare = "arBare (Candidate (Plan it))" and ?path = "WorktreePath (Plan it)"
  have one: "\<exists>c. calls (snd (RunBare sy ?bare args v)) = calls v @ [([], [''--git-dir'', ?bare] @ args, c)]" for args v
    using RunBare_call [OF g b [unfolded hasBare_def]] by (metis surjective_pairing)
  have rm: "calls (snd (RemoveAll ?path v)) = calls v" for v by (simp add: RemoveAll_def Let_def)
  obtain c1 where c1: "calls (snd (RunBare sy ?bare [''worktree'', ''remove'', ''--force'', ?path] w))
      = calls w @ [([], [''--git-dir'', ?bare] @ [''worktree'', ''remove'', ''--force'', ?path], c1)]" using one by blast
  define v where "v = (if CreatedWorktree it then snd (RemoveAll ?path (snd (RunBare sy ?bare [''worktree'', ''remove'', ''--force'', ?path] w))) else w)"
  obtain c2 where c2: "calls (snd (RunBare sy ?bare [''branch'', ''-D'', Branch (Plan it)] v))
      = calls v @ [([], [''--git-dir'', ?bare] @ [''branch'', ''-D'', Branch (Plan it)], c2)]" using one by blast
  have "r = Inr ()" "w' = (if CreatedLocalBranch it then snd (RunBare sy ?bare [''branch'', ''-D'', Branch (Plan it)] v) else v)"
    using u unfolding undoItem_def v_def by (auto simp: Let_def bindW_def ignore_def ret_def split: if_splits)
  then show ?thesis using c1 c2 unfolding v_def
    by (auto simp: undoArgs_def callArgs_def Let_def rm)
qed

lemma undo_list_calls:
  assumes g: "git_missing sy = None"
  shows "list_all (hasBare \<circ> Plan) its \<Longrightarrow> \<exists>cs. calls (snd (forW (undoItem sy :: _ \<Rightarrow> ('e, unit) prog) its w)) = calls w @ cs \<and> callArgs cs = concat (map undoArgs its)"
proof (induction its arbitrary: w)
  case (Cons it its)
  obtain r :: "'e + unit" and u where u: "undoItem sy it w = (r, u)" by fastforce
  obtain cs where cs: "calls u = calls w @ cs" "callArgs cs = undoArgs it" "r = Inr ()"
    using undoItem_calls [OF g _ u] Cons.prems by auto
  obtain ds where "calls (snd (forW (undoItem sy :: _ \<Rightarrow> ('e, unit) prog) its u)) = calls u @ ds" "callArgs ds = concat (map undoArgs its)"
    using Cons by auto
  then show ?case using cs u by (auto simp: bindW_def callArgs_def)
qed (simp add: ret_def callArgs_def)

lemma rollback_calls:
  assumes "git_missing sy = None" and "list_all (hasBare \<circ> Plan) applied"
  shows "\<exists>cs. calls (snd ((rollbackAddRepoApplied sy applied :: ('e, unit) prog) w)) = calls w @ cs
    \<and> callArgs cs = concat (map undoArgs (rev applied))"
  using undo_list_calls [OF assms(1), of "rev applied" w] assms(2) by (auto simp: rollbackAddRepoApplied_def list_all_iff)

lemma map_filter_append: "List.map_filter f (xs @ ys) = List.map_filter f xs @ List.map_filter f ys"
  by (simp add: map_filter_def)

lemma makeBranch_calls:
  assumes "git_missing sy = None" and "hasBare p" and "makeBranch sy p w = (r, w')"
  shows "\<exists>cs. calls w' = calls w @ cs \<and> List.map_filter undoOf cs
    = (case r of Inl _ \<Rightarrow> [] | Inr _ \<Rightarrow> undoArgs \<lparr>Plan = p, CreatedLocalBranch = \<not> LocalBranchExists p, CreatedWorktree = False\<rparr>)"
proof (cases "LocalBranchExists p")
  case True
  then show ?thesis using assms(3) by (auto simp: makeBranch_def ret_def undoArgs_def Let_def intro: exI [of _ "[]"])
next
  case False
  let ?args = "[''--git-dir'', arBare (Candidate p)] @ addBranchArgs p"
  obtain c where "calls w' = calls w @ [([], ?args, c)]" "gitOK c \<longleftrightarrow> (\<exists>out. r = Inr out)"
    using RunBare_call [OF assms(1), of "arBare (Candidate p)" "addBranchArgs p" w r w'] assms(2,3) False
    by (auto simp: makeBranch_def hasBare_def)
  then show ?thesis using False
    by (intro exI [of _ "[([], ?args, c)]"]) (cases r, auto simp: undoOf_def addBranchArgs_def undoArgs_def Let_def map_filter_simps)
qed

lemma addWorktree_calls:
  assumes "git_missing sy = None" and "hasBare p"
    and "RunBare sy (arBare (Candidate p)) [''worktree'', ''add'', WorktreePath p, Branch p] w = (r, w')"
  shows "\<exists>c. calls w' = calls w @ [c] \<and> undoOf c
    = (case r of Inl _ \<Rightarrow> None | Inr _ \<Rightarrow> Some [''--git-dir'', arBare (Candidate p), ''worktree'', ''remove'', ''--force'', WorktreePath p])"
proof -
  obtain g where "calls w' = calls w @ [([], [''--git-dir'', arBare (Candidate p)] @ [''worktree'', ''add'', WorktreePath p, Branch p], g)]"
    "gitOK g \<longleftrightarrow> (\<exists>out. r = Inr out)"
    using RunBare_call [OF assms(1) assms(2) [unfolded hasBare_def] assms(3)] by blast
  then show ?thesis by (intro exI conjI) (assumption, cases r, simp_all add: undoOf_def Let_def)
qed

lemma applyItems_undone:
  assumes g: "git_missing sy = None"
  shows "applyItems sy applied ps w = (Inl e, w') \<Longrightarrow> list_all hasBare ps \<Longrightarrow> list_all (hasBare \<circ> Plan) applied \<Longrightarrow>
    \<exists>fwd undo. calls w' = calls w @ fwd @ undo \<and> callArgs undo = rev (List.map_filter undoOf fwd) @ concat (map undoArgs (rev applied))"
proof (induction ps arbitrary: applied w)
  case (Cons p ps)
  define it where "it b = \<lparr>Plan = p, CreatedLocalBranch = \<not> LocalBranchExists p, CreatedWorktree = b\<rparr>" for b
  have b: "hasBare p" and all: "list_all (hasBare \<circ> Plan) (applied @ [it x])" for x using Cons.prems(2,3) by (simp_all add: it_def comp_def)
  obtain r1 w1 where r1: "makeBranch sy p w = (r1, w1)" by fastforce
  obtain fwd1 where fwd1: "calls w1 = calls w @ fwd1" "List.map_filter undoOf fwd1 = (case r1 of Inl _ \<Rightarrow> [] | Inr _ \<Rightarrow> undoArgs (it False))"
    using makeBranch_calls [OF g b r1] unfolding it_def by blast
  note roll = rollback_calls [OF g, where ?'e = string]
  show ?case
  proof (cases r1)
    case (Inl e1)
    then have "w' = snd ((rollbackAddRepoApplied sy applied :: (string, unit) prog) w1)"
      using Cons.prems(1) r1 by (auto simp: Let_def bindW_def onErr_def)
    then show ?thesis using roll [OF Cons.prems(3), of w1] fwd1 Inl by (auto intro: exI [of _ fwd1])
  next
    case (Inr v1)
    obtain r2 w2 where r2: "RunBare sy (arBare (Candidate p)) [''worktree'', ''add'', WorktreePath p, Branch p] w1 = (r2, w2)" by fastforce
    obtain c where c: "calls w2 = calls w1 @ [c]" "undoOf c = (case r2 of Inl _ \<Rightarrow> None
        | Inr _ \<Rightarrow> Some [''--git-dir'', arBare (Candidate p), ''worktree'', ''remove'', ''--force'', WorktreePath p])"
      using addWorktree_calls [OF g b r2] by blast
    have u: "rev (List.map_filter undoOf (fwd1 @ [c])) = undoArgs (it (\<not> isl r2))"
      using fwd1(2) c(2) Inr by (cases r2) (auto simp: undoArgs_def it_def Let_def map_filter_def)
    show ?thesis
    proof (cases r2)
      case (Inl e2)
      then have "w' = snd ((rollbackAddRepoApplied sy (applied @ [it False]) :: (string, unit) prog) w2)"
        using Cons.prems(1) r1 r2 \<open>r1 = Inr v1\<close> by (auto simp: Let_def bindW_def onErr_def it_def)
      then obtain cs where "calls w' = calls w2 @ cs" "callArgs cs = concat (map undoArgs (rev (applied @ [it False])))"
        using roll [OF all, of False w2] by auto
      then show ?thesis using fwd1(1) c(1) u Inl by - (rule exI [of _ "fwd1 @ [c]"], rule exI [of _ cs], simp)
    next
      case (Inr v2)
      then have "applyItems sy (applied @ [it True]) ps w2 = (Inl e, w')"
        using Cons.prems(1) r1 r2 \<open>r1 = Inr v1\<close> by (auto simp: Let_def bindW_def onErr_def it_def)
      from Cons.IH [OF this _ all] obtain fwd undo where "calls w' = calls w2 @ fwd @ undo"
        "callArgs undo = rev (List.map_filter undoOf fwd) @ concat (map undoArgs (rev (applied @ [it True])))" using Cons.prems(2) by auto
      then show ?thesis using fwd1(1) c(1) u Inr
        by - (rule exI [of _ "(fwd1 @ [c]) @ fwd"], rule exI [of _ undo], simp add: map_filter_append del: append_assoc)
    qed
  qed
qed (simp add: ret_def)

text \<open>
  C16: When adding the worktrees fails, the runs of git are those made so far followed by the runs that undo every one of them that succeeded,
  in the opposite order: a worktree that was added is removed, a branch that was made is deleted, and nothing else is.
\<close>

lemma add_repo_undone:
  assumes "git_missing sy = None" and "list_all hasBare plan" and "applyAddRepoPlanAllOrNothing sy plan w = (Inl e, w')"
  shows "\<exists>fwd undo. calls w' = calls w @ fwd @ undo \<and> callArgs undo = rev (List.map_filter undoOf fwd)"
  using applyItems_undone [OF assms(1), of "[]" plan w e w'] assms(2,3) by (simp add: applyAddRepoPlanAllOrNothing_def)

definition demo_candidate :: "string \<Rightarrow> addRepoPoolCandidate" where
  "demo_candidate name = \<lparr>arUID = ''g.com/o/'' @ name, arKey = ''o/'' @ name, arRemote = ''https://g.com/o/'' @ name, arAlias = name,
     arBare = ''/h/.kra/repo-pool/'' @ name @ ''.git''\<rparr>"

definition demo_item :: "string \<Rightarrow> addRepoPlanItem" where
  "demo_item name = \<lparr>Candidate = demo_candidate name, BaseRefInput = [], DefaultBaseRef = ''origin/main'', BaseRefUsed = ''origin/main'', Branch = ''w1'',
     WorktreePath = ''/r/workspaces/w1/repos/'' @ name, LocalBranchExists = False, RemoteBranchExists = False\<rparr>"

text \<open>Git refuses the worktree of the second repository.\<close>

definition refusing_sys :: sys where
  "refusing_sys = demo_sys\<lparr>git := (\<lambda>dir args w. (if ''add'' \<in> set args \<and> ''/r/workspaces/w1/repos/b'' \<in> set args then GitErr (Some 128) ''no'' [] else GitOK [], files w))\<rparr>"

lemma add_repo_undone_witness:
  "fst (applyAddRepoPlanAllOrNothing refusing_sys [demo_item ''a'', demo_item ''b''] demo_world) \<noteq> Inr []
    \<and> (\<exists>fwd undo. calls (snd (applyAddRepoPlanAllOrNothing refusing_sys [demo_item ''a'', demo_item ''b''] demo_world)) = calls demo_world @ fwd @ undo
        \<and> callArgs undo = rev (List.map_filter undoOf fwd))"
proof -
  have p: "git_missing refusing_sys = None" "list_all hasBare [demo_item ''a'', demo_item ''b'']" by code_simp+
  have "isl (fst (applyAddRepoPlanAllOrNothing refusing_sys [demo_item ''a'', demo_item ''b''] demo_world))" by code_simp
  then obtain e w' where r: "applyAddRepoPlanAllOrNothing refusing_sys [demo_item ''a'', demo_item ''b''] demo_world = (Inl e, w')"
    by (metis isl_def prod.collapse)
  show ?thesis using add_repo_undone [OF p r] r by auto
qed

subsection \<open>How often it fetches\<close>

definition fetchArgs :: "string \<Rightarrow> string list" where
  "fetchArgs bare = [''--git-dir'', bare, ''fetch'', ''origin'', ''--prune'', ''--no-tags'']"

definition worthRetry :: "string \<Rightarrow> git_result \<Rightarrow> bool" where
  "worthRetry bare g = (case g of GitOK _ \<Rightarrow> False | GitErr _ err out \<Rightarrow> isRetryableFetchError (gitErrText (fetchArgs bare) err out))"

lemma RunBare_now:
  assumes "git_missing sy = None" and "TrimSpace bare \<noteq> []"
  shows "RunBare sy bare args = runNow sy [] ([''--git-dir'', bare] @ args)"
  using assms by (auto simp: RunBare_def Run_def EnsureGitInPath_def bindW_def)

text \<open>
  C29: A fetch of a repository runs git once or twice: a second run follows exactly a first one that failed with an error taken to be of the network, and the
  result is that of the last run.
\<close>

lemma fetch_twice_at_most:
  assumes "git_missing sy = None" and "TrimSpace bare \<noteq> []" and "runAddRepoFetchWithPolicy sy bare w = (r, w')"
  shows "(\<exists>g. calls w' = calls w @ [([], fetchArgs bare, g)] \<and> \<not> worthRetry bare g \<and> (r = Inr () \<longleftrightarrow> gitOK g))
    \<or> (\<exists>g1 g2. calls w' = calls w @ [([], fetchArgs bare, g1), ([], fetchArgs bare, g2)] \<and> worthRetry bare g1 \<and> (r = Inr () \<longleftrightarrow> gitOK g2))"
proof -
  have f: "[''--git-dir'', bare] @ [''fetch'', ''origin'', ''--prune'', ''--no-tags''] = fetchArgs bare" by (simp add: fetchArgs_def)
  obtain g1 F1 where g1: "git sy [] (fetchArgs bare) w = (g1, F1)" by fastforce
  let ?w1 = "w\<lparr>files := F1, calls := calls w @ [([], fetchArgs bare, g1)]\<rparr>"
  obtain g2 F2 where g2: "git sy [] (fetchArgs bare) ?w1 = (g2, F2)" by fastforce
  show ?thesis
    using assms(3) g1 g2 unfolding runAddRepoFetchWithPolicy_def RunBare_now [OF assms(1,2)] f
    by (cases g1; cases g2) (auto simp: bindW_def attempt_def ret_def throw_def runNow_def exec_git_def worthRetry_def split: if_splits)
qed

lemma fetch_twice_at_most_witness:
  "\<exists>r w'. runAddRepoFetchWithPolicy demo_sys ''/p/o.git'' demo_world = (r, w')
    \<and> ((\<exists>g. calls w' = calls demo_world @ [([], fetchArgs ''/p/o.git'', g)] \<and> \<not> worthRetry ''/p/o.git'' g \<and> (r = Inr () \<longleftrightarrow> gitOK g))
      \<or> (\<exists>g1 g2. calls w' = calls demo_world @ [([], fetchArgs ''/p/o.git'', g1), ([], fetchArgs ''/p/o.git'', g2)]
           \<and> worthRetry ''/p/o.git'' g1 \<and> (r = Inr () \<longleftrightarrow> gitOK g2)))"
proof -
  obtain r w' where r: "runAddRepoFetchWithPolicy demo_sys ''/p/o.git'' demo_world = (r, w')" by fastforce
  have "git_missing demo_sys = None" "TrimSpace ''/p/o.git'' \<noteq> []" by code_simp+
  from fetch_twice_at_most [OF this r] r show ?thesis by blast
qed

text \<open>
  C27: When the base reference is present and the last fetch is at most five minutes old, nothing is fetched without \<open>--refresh\<close>, whether
  the branch that is asked for is known to the repository or not.
\<close>

lemma fetch_ignores_branch:
  assumes "\<not> Refresh opts" and "ShowRefExistsBare sy (arBare (Candidate p)) (''refs/remotes/'' @ baseRefWanted p) w = (Inr True, w1)"
    and "ShowRefExistsBare sy (arBare (Candidate p)) (''refs/remotes/origin/'' @ Branch p) w1 = (Inr branchKnown, w2)"
    and "baseRefWanted p \<noteq> []" and "Stat w2 (pathJoin [arBare (Candidate p), ''FETCH_HEAD'']) = Inr node"
    and "age w2 (pathJoin [arBare (Candidate p), ''FETCH_HEAD'']) \<le> 5 * 60 * 1000000000"
  shows "fst (evaluateAddRepoFetchDecision sy age p opts w) = Inr False"
  using assms by (auto simp: evaluateAddRepoFetchDecision_def Let_def go_defs addRepoFetchTTL_def)

lemma fetch_ignores_branch_witness:
  "fst (evaluateAddRepoFetchDecision (demo_sys\<lparr>git := \<lambda>dir args w. (if last args = ''refs/remotes/origin/w1'' then GitErr (Some 1) [] [] else GitOK [], files w)\<rparr>)
     (\<lambda>_ _. 60) (demo_item ''a'') \<lparr>Refresh = False, NoFetch = False\<rparr>
     (demo_world\<lparr>files := (files demo_world)([''h'', ''.kra'', ''repo-pool'', ''a.git'', ''FETCH_HEAD''] \<mapsto> FileN [])\<rparr>)) = Inr False"
proof -
  let ?sy = "demo_sys\<lparr>git := \<lambda>dir args w. (if last args = ''refs/remotes/origin/w1'' then GitErr (Some 1) [] [] else GitOK [], files w)\<rparr>"
  let ?w = "demo_world\<lparr>files := (files demo_world)([''h'', ''.kra'', ''repo-pool'', ''a.git'', ''FETCH_HEAD''] \<mapsto> FileN [])\<rparr>"
  let ?p = "demo_item ''a''"
  let ?base = "ShowRefExistsBare ?sy (arBare (Candidate ?p)) (''refs/remotes/'' @ baseRefWanted ?p) ?w"
  let ?br = "ShowRefExistsBare ?sy (arBare (Candidate ?p)) (''refs/remotes/origin/'' @ Branch ?p) (snd ?base)"
  have "fst ?base = Inr True" "fst ?br = Inr False" "baseRefWanted ?p \<noteq> []"
    "Stat (snd ?br) (pathJoin [arBare (Candidate ?p), ''FETCH_HEAD'']) = Inr (FileN [])" by code_simp+
  then show ?thesis
    by (intro fetch_ignores_branch [of _ ?sy ?p ?w "snd ?base" False "snd ?br" "FileN []"]) (simp_all add: prod_eq_iff)
qed

subsection \<open>The metadata afterwards\<close>

definition restoreOf :: "addRepoPlanItem \<Rightarrow> meta_restore" where
  "restoreOf p = (let c = Candidate p
     in \<lparr>RepoUID = arUID c, restoreKey = arKey c, RemoteURL = arRemote c, Alias = arAlias c, restoreBranch = Branch p, BaseRef = BaseRefUsed p\<rparr>)"

lemma build_restoreOf: "buildWorkspaceMetaReposRestore applied = map (restoreOf \<circ> Plan) applied"
  by (simp add: buildWorkspaceMetaReposRestore_def restoreOf_def comp_def Let_def)

lemma applyItems_plan: "applyItems sy applied ps w = (Inr its, w') \<Longrightarrow> map Plan its = map Plan applied @ ps"
proof (induction ps arbitrary: applied w)
  case (Cons p ps)
  then show ?case by (fastforce simp: Let_def prog_Inr)
qed (simp add: ret_def)

lemma spares_undo:
  assumes "\<And>it. it \<in> set its \<Longrightarrow> \<forall>k\<in>K. \<not> prefix (comps (WorktreePath (Plan it))) k"
  shows "always (spares sy K) (rollbackAddRepoApplied sy its)"
  unfolding rollbackAddRepoApplied_def
proof (rule quiet.always_for)
  fix it assume "it \<in> set (rev its)"
  then have "\<forall>k\<in>K. \<not> prefix (comps (WorktreePath (Plan it))) k" using assms by simp
  then show "always (spares sy K) (undoItem sy it)"
    unfolding undoItem_def Let_def by (intro quiet.always_intros quiet.run_bare spares_RemoveAll)
qed

lemma spares_applyItems:
  assumes "\<And>p. p \<in> set (map Plan applied @ ps) \<Longrightarrow> \<forall>k\<in>K. \<not> prefix (comps (WorktreePath p)) k"
  shows "always (spares sy K) (applyItems sy applied ps)"
  using assms
proof (induction ps arbitrary: applied)
  case (Cons p ps)
  have "always (spares sy K) (makeBranch sy p)" unfolding makeBranch_def by (intro quiet.always_intros quiet.run_bare)
  moreover have "always (spares sy K) (rollbackAddRepoApplied sy (applied @ its))"
    if "its \<in> {[], [\<lparr>Plan = p, CreatedLocalBranch = b, CreatedWorktree = False\<rparr>]}" for its b
    by (rule spares_undo) (use Cons.prems that in auto)
  from this [of "[]"] this have u: "always (spares sy K) (rollbackAddRepoApplied sy applied)"
    "\<And>b. always (spares sy K) (rollbackAddRepoApplied sy (applied @ [\<lparr>Plan = p, CreatedLocalBranch = b, CreatedWorktree = False\<rparr>]))"
    by (simp_all, blast)
  ultimately show ?case unfolding applyItems.simps Let_def
    by (intro quiet.always_bind quiet.always_onErr quiet.run_bare Cons.IH u) (use Cons.prems in auto)
qed (simp add: quiet.always_ret)

text \<open>The metadata file of a workspace, and that no worktree of a plan holds it.\<close>

definition metaKey :: "string \<Rightarrow> string \<Rightarrow> key" where
  "metaKey root wid = wsKey root wid @ [''.kra.meta.json'']"

definition plannedItem :: "string \<Rightarrow> string \<Rightarrow> addRepoPlanItem \<Rightarrow> bool" where
  "plannedItem root wid p \<longleftrightarrow> plain (arAlias (Candidate p)) \<and> WorktreePath p = worktreePathOf root wid p \<and> wf_restore (restoreOf p)"

lemma planned_path:
  assumes "IsAbs root" and "plain wid" and "plannedItem root wid p"
  shows "\<not> prefix (comps (WorktreePath p)) (metaKey root wid)"
proof -
  have "plains [''workspaces'', wid, ''repos'', arAlias (Candidate p)]" using assms(2,3) by (simp add: plain_def plannedItem_def)
  then have "comps (WorktreePath p) = wsKey root wid @ [''repos'', arAlias (Candidate p)]"
    using pathJoin_abs [OF assms(1)] assms(3) by (simp add: plannedItem_def worktreePathOf_def)
  then show ?thesis by (auto simp: metaKey_def prefix_def)
qed

lemma strip_keeps: "\<forall>p\<in>set seqs. c \<notin> set p \<Longrightarrow> c \<in> set s \<Longrightarrow> c \<in> set (strip seqs s)"
proof (induction seqs s rule: strip.induct)
  case (1 seqs s)
  show ?case
  proof (cases "leading seqs s")
    case (Some p)
    then have "p \<in> set seqs" "prefix p s" by (auto dest: leading_Some)
    then have "c \<in> set (drop (length p) s)" using "1.prems" by (auto simp: prefix_def)
    then show ?thesis using 1 Some by (simp add: strip.simps [of seqs s])
  qed (use "1.prems" in \<open>simp add: strip_id\<close>)
qed

lemma TrimSpace_abs_ne: "IsAbs p \<Longrightarrow> TrimSpace p \<noteq> []"
proof -
  assume "IsAbs p"
  then have "slash \<in> set p" by (cases p) (auto simp: IsAbs_def)
  moreover have "\<forall>r\<in>set space_runes. slash \<notin> set r" "\<forall>r\<in>set (map rev space_runes). slash \<notin> set r" by code_simp+
  ultimately have "slash \<in> set (TrimSpace p)"
    unfolding TrimSpace_def trimRightSpace_def trimLeftSpace_def using strip_keeps by (metis set_rev)
  then show ?thesis by auto
qed

lemma upsert_merge:
  assumes "upsertWorkspaceMetaReposRestore p repos now u = (r, u')" and "loadWorkspaceMetaFile p u = Inr m0"
  shows "(\<exists>e. mergeRestore (ReposRestore m0) repos = Inl e \<and> r = Inl e \<and> u' = u)
    \<or> (\<exists>merged. mergeRestore (ReposRestore m0) repos = Inr merged
        \<and> writeWorkspaceMetaFile p (touchUpdated now (m0\<lparr>ReposRestore := merged\<rparr>)) u = (r, u'))"
  using assms by (cases "mergeRestore (ReposRestore m0) repos") (simp_all add: upsertWorkspaceMetaReposRestore_def bindW_def look_def)

lemma writeMeta_keeps:
  assumes "writeWorkspaceMetaFile p m u = (Inl e, u')" and "IsAbs p"
  shows "files u' (comps p @ [''.kra.meta.json'']) = files u (comps p @ [''.kra.meta.json''])"
proof -
  obtain x where x: "atomicReplace False ''.kra-meta-'' ''.tmp'' (comps p) (comps p @ [''.kra.meta.json'']) (renderMeta m) u = (x, u')"
    "Inl e = (case x of None \<Rightarrow> Inr () | Some y \<Rightarrow> Inl (MetaWriteErr y))"
    using write_meta_put [OF assms TrimSpace_abs_ne [OF assms(2)]] .
  then show ?thesis using meta_path.put_target [OF x(1)] by (cases x) auto
qed

lemma upsert_meta:
  assumes "upsertWorkspaceMetaReposRestore p repos now u = (r, u')" and "IsAbs p"
    and "files u (comps p @ [''.kra.meta.json'']) = Some (FileN (renderMeta m0))" and "wf_meta m0"
    and "\<not> fails u (SRead (comps p @ [''.kra.meta.json'']))"
  shows "case r of
      Inl _ \<Rightarrow> files u' (comps p @ [''.kra.meta.json'']) = files u (comps p @ [''.kra.meta.json''])
    | Inr _ \<Rightarrow> \<exists>merged. mergeRestore (ReposRestore m0) repos = Inr merged
        \<and> files u' (comps p @ [''.kra.meta.json'']) = Some (FileN (renderMeta (touchUpdated now (m0\<lparr>ReposRestore := merged\<rparr>))))"
proof -
  have "loadWorkspaceMetaFile p u = Inr m0"
    using load_rendered [of u p m0] assms TrimSpace_abs_ne comps_metaPath [OF assms(2)] by simp
  from upsert_merge [OF assms(1) this] show ?thesis
  proof (elim disjE exE conjE)
    fix merged assume m: "mergeRestore (ReposRestore m0) repos = Inr merged"
      and wr: "writeWorkspaceMetaFile p (touchUpdated now (m0\<lparr>ReposRestore := merged\<rparr>)) u = (r, u')"
    show ?thesis
    proof (cases r)
      case (Inl e)
      then show ?thesis using writeMeta_keeps [OF _ assms(2)] wr by auto
    next
      case (Inr x)
      then show ?thesis using writeMeta_target [OF _ assms(2)] wr m by auto
    qed
  qed simp
qed

lemma wf_touchUpdated: "wf_meta m \<Longrightarrow> in_int64 now \<Longrightarrow> list_all wf_restore rs \<Longrightarrow> wf_meta (touchUpdated now (m\<lparr>ReposRestore := rs\<rparr>))"
  by (auto simp: wf_meta_def touchUpdated_def wf_workspace_def)

text \<open>The entry of a plan for an alias.\<close>

definition plannedAlias :: "addRepoPlanItem list \<Rightarrow> string \<Rightarrow> meta_restore option" where
  "plannedAlias plan a = aliasOf (rev (map restoreOf plan)) a"

definition recordsPlan :: "addRepoPlanItem list \<Rightarrow> meta_file \<Rightarrow> node option \<Rightarrow> bool" where
  "recordsPlan plan m0 n \<longleftrightarrow> (\<exists>m. n = Some (FileN (renderMeta m)) \<and> wf_meta m
     \<and> (\<forall>a. aliasOf (ReposRestore m) a = (case plannedAlias plan a of Some e \<Rightarrow> Some e | None \<Rightarrow> aliasOf (rev (ReposRestore m0)) a)))"

lemma upsert_planned:
  assumes "upsertWorkspaceMetaReposRestore (pathJoin [root, ''workspaces'', wid]) (map restoreOf plan) (clock u) u = (r, u')"
    and "IsAbs root" and "plain wid" and "list_all (plannedItem root wid) plan"
    and "files u (metaKey root wid) = Some (FileN (renderMeta m0))" and "wf_meta m0" and "in_int64 (clock u)"
    and "\<not> fails u (SRead (metaKey root wid))"
  shows "case r of Inl _ \<Rightarrow> files u' (metaKey root wid) = files u (metaKey root wid) | Inr _ \<Rightarrow> recordsPlan plan m0 (files u' (metaKey root wid))"
proof -
  note p = ws_paths(1,3) [OF assms(2,3)]
  have um: "case r of Inl _ \<Rightarrow> files u' (metaKey root wid) = files u (metaKey root wid)
    | Inr _ \<Rightarrow> \<exists>merged. mergeRestore (ReposRestore m0) (map restoreOf plan) = Inr merged
        \<and> files u' (metaKey root wid) = Some (FileN (renderMeta (touchUpdated (clock u) (m0\<lparr>ReposRestore := merged\<rparr>))))"
    using upsert_meta [OF assms(1) p(2), unfolded p(1) metaKey_def [symmetric], OF assms(5,6,8)] .
  show ?thesis
  proof (cases r)
    case (Inr x)
    obtain merged where m: "mergeRestore (ReposRestore m0) (map restoreOf plan) = Inr merged"
      "files u' (metaKey root wid) = Some (FileN (renderMeta (touchUpdated (clock u) (m0\<lparr>ReposRestore := merged\<rparr>))))" using um Inr by auto
    have "wf_meta (touchUpdated (clock u) (m0\<lparr>ReposRestore := merged\<rparr>))"
      using mergeRestore_wf [OF m(1)] assms(4,6,7) by (intro wf_touchUpdated) (auto simp: wf_meta_def plannedItem_def list_all_iff)
    moreover have "ReposRestore (touchUpdated (clock u) (m0\<lparr>ReposRestore := merged\<rparr>)) = merged" by (simp add: touchUpdated_def)
    ultimately show ?thesis using Inr m(2) mergeRestore_spec(3) [OF m(1)] by (auto simp: recordsPlan_def plannedAlias_def)
  qed (use um in simp)
qed

lemma finish_metadata:
  assumes "addRepoFinish sy root wid plan w = (r, w')" and "IsAbs root" and "plain wid" and "list_all (plannedItem root wid) plan"
    and "tame sy {metaKey root wid}" and "files w (metaKey root wid) = Some (FileN (renderMeta m0))" and "wf_meta m0" and "in_int64 (clock w)"
    and "\<not> fails w (SRead (metaKey root wid))"
  shows "case r of
      Inl _ \<Rightarrow> files w' (metaKey root wid) = files w (metaKey root wid)
    | Inr applied \<Rightarrow> map Plan applied = plan \<and> recordsPlan plan m0 (files w' (metaKey root wid))"
proof -
  let ?K = "{metaKey root wid}"
  have path: "\<forall>k\<in>?K. \<not> prefix (comps (WorktreePath q)) k" if "q \<in> set plan" for q
    using planned_path [OF assms(2,3)] assms(4) that by (auto simp: list_all_iff)
  obtain ra u where a: "applyAddRepoPlanAllOrNothing sy plan w = (ra, u)" by fastforce
  have sa: "always (spares sy ?K) (applyAddRepoPlanAllOrNothing sy plan)"
    unfolding applyAddRepoPlanAllOrNothing_def by (rule spares_applyItems) (use path in auto)
  have fu: "files u (metaKey root wid) = files w (metaKey root wid)" using sparesD [OF sa a assms(5)] by simp
  have env: "fails u = fails w" "clock u = clock w" using spares_env [OF sa a] by (simp_all add: same_env_def)
  show ?thesis
  proof (cases ra)
    case (Inl e)
    then show ?thesis using assms(1) a fu by (auto simp: addRepoFinish_def bindW_def mapErr_def)
  next
    case (Inr applied)
    let ?roll = "rollbackAddRepoApplied sy applied :: (exit_code \<times> string, unit) prog"
    have plan: "map Plan applied = plan" using applyItems_plan [of sy "[]"] a Inr by (auto simp: applyAddRepoPlanAllOrNothing_def)
    have b: "buildWorkspaceMetaReposRestore applied = map restoreOf plan" unfolding plan [symmetric] by (simp add: build_restoreOf)
    obtain r1 u1 where up: "upsertWorkspaceMetaReposRestore (pathJoin [root, ''workspaces'', wid]) (map restoreOf plan) (clock u) u = (r1, u1)" by fastforce
    have um: "case r1 of Inl _ \<Rightarrow> files u1 (metaKey root wid) = files u (metaKey root wid) | Inr _ \<Rightarrow> recordsPlan plan m0 (files u1 (metaKey root wid))"
      using upsert_planned [OF up assms(2-4)] assms(6-9) fu env by simp
    have w': "(r, w') = (case r1 of Inl _ \<Rightarrow> (Inl (ExitError, ''internal_error''), snd (?roll u1)) | Inr _ \<Rightarrow> (Inr applied, u1))"
      using assms(1) a Inr up b by (auto simp: addRepoFinish_def bindW_def mapErr_def onErr_def ret_def split: sum.splits)
    have "always (spares sy ?K) ?roll" by (rule spares_undo) (use path plan in auto)
    then have "files (snd (?roll u1)) (metaKey root wid) = files u1 (metaKey root wid)"
      using assms(5) sparesD [of sy ?K ?roll u1] by (metis insertI1 prod.collapse)
    then show ?thesis using w' um fu plan by (cases r1) auto
  qed
qed

text \<open>
  C18: When repositories are added, the metadata of the workspace gets the entry of every added repository and keeps the entries of the other
  aliases; when adding fails, the metadata file is the same as before. Git does not write this file (\<open>tame\<close>).
\<close>

theorem add_repo_metadata:
  assumes "addRepoFinish sy root wid plan w = (r, w')" and "IsAbs root" and "plain wid" and "list_all (plannedItem root wid) plan"
    and "tame sy {metaKey root wid}" and "files w (metaKey root wid) = Some (FileN (renderMeta m0))" and "wf_meta m0" and "in_int64 (clock w)"
    and "\<not> fails w (SRead (metaKey root wid))"
  shows "case r of
      Inl _ \<Rightarrow> files w' (metaKey root wid) = files w (metaKey root wid)
    | Inr applied \<Rightarrow> map Plan applied = plan \<and> recordsPlan plan m0 (files w' (metaKey root wid))"
  using finish_metadata [OF assms] .

definition add_world :: world where
  "add_world = close_world\<lparr>files := (files close_world)([''r'', ''workspaces''] \<mapsto> DirN, [''r'', ''workspaces'', ''T-1''] \<mapsto> DirN)\<rparr>"

definition add_sys :: sys where
  "add_sys = demo_sys\<lparr>tree := \<lambda>F k. if k = [''r'', ''workspaces''] then [[''T-1'']] else []\<rparr>"

definition add_item :: addRepoPlanItem where
  "add_item = (demo_item ''a'')\<lparr>WorktreePath := ''/r/workspaces/T-1/repos/a''\<rparr>"

lemma add_tame: "tame add_sys K"
  by (simp add: tame_def add_sys_def demo_sys_def)

lemma add_facts: "IsAbs ''/r''" "plain ''T-1''" "list_all (plannedItem ''/r'' ''T-1'') [add_item]" "wf_meta demo_meta" "in_int64 (clock add_world)"
  "\<not> fails add_world (SRead (metaKey ''/r'' ''T-1''))" "metaKey ''/r'' ''T-1'' = [''r'', ''workspaces'', ''T-1'', ''.kra.meta.json'']"
  by code_simp+

lemma add_file: "files add_world (metaKey ''/r'' ''T-1'') = Some (FileN (renderMeta demo_meta))"
  unfolding add_facts(7) by (simp add: add_world_def close_world_def)

lemma add_applied:
  "\<exists>cs. applyAddRepoPlanAllOrNothing add_sys [add_item] add_world
     = (Inr [\<lparr>Plan = add_item, CreatedLocalBranch = True, CreatedWorktree = True\<rparr>], add_world\<lparr>calls := cs\<rparr>)"
proof -
  have "git_missing add_sys = None" "TrimSpace (arBare (Candidate add_item)) \<noteq> []" "\<not> LocalBranchExists add_item" by code_simp+
  then show ?thesis
    by (auto simp: applyAddRepoPlanAllOrNothing_def makeBranch_def RunBare_now runNow_def exec_git_def bindW_def onErr_def ret_def
        add_sys_def demo_sys_def)
qed

lemma add_writes: "fst (writeWorkspaceMetaFile ''/r/workspaces/T-1'' m (add_world\<lparr>calls := cs\<rparr>)) = Inr ()"
proof -
  let ?d = "[''r'', ''workspaces'', ''T-1'']" and ?w = "add_world\<lparr>calls := cs\<rparr>"
  have "\<not> below_file (files add_world) (?d @ [[]])" "files add_world (tempKey ?d ''.kra-meta-'' ''.tmp'' (rand add_world)) = None"
    "files add_world ?d = Some DirN" "tempKey ?d ''.kra-meta-'' ''.tmp'' (rand add_world) \<noteq> ?d @ [''.kra.meta.json'']" by code_simp+
  moreover have "\<forall>c. \<not> fails add_world c" by (simp add: add_world_def close_world_def ws_world_def demo_world_def)
  ultimately have "fst (atomicReplace False ''.kra-meta-'' ''.tmp'' ?d (?d @ [''.kra.meta.json'']) (renderMeta m) ?w) = None"
    using add_file add_facts(7) by (intro atomicReplace_succeeds) simp_all
  moreover have "comps ''/r/workspaces/T-1'' = ?d" "comps (metaPath ''/r/workspaces/T-1'') = ?d @ [''.kra.meta.json'']" "TrimSpace ''/r/workspaces/T-1'' \<noteq> []"
    by code_simp+
  ultimately show ?thesis by (auto simp: writeWorkspaceMetaFile_def split: prod.splits option.splits)
qed

lemma add_runs: "\<exists>applied w'. addRepoFinish add_sys ''/r'' ''T-1'' [add_item] add_world = (Inr applied, w')"
proof -
  let ?it = "\<lparr>Plan = add_item, CreatedLocalBranch = True, CreatedWorktree = True\<rparr>"
  obtain cs where a: "applyAddRepoPlanAllOrNothing add_sys [add_item] add_world = (Inr [?it], add_world\<lparr>calls := cs\<rparr>)" using add_applied by blast
  let ?u = "add_world\<lparr>calls := cs\<rparr>"
  have b: "buildWorkspaceMetaReposRestore [?it] = [restoreOf add_item]" by (simp add: build_restoreOf)
  have p: "pathJoin [''/r'', ''workspaces'', ''T-1''] = ''/r/workspaces/T-1''" "comps (metaPath ''/r/workspaces/T-1'') = metaKey ''/r'' ''T-1''"
    "TrimSpace ''/r/workspaces/T-1'' \<noteq> []" by code_simp+
  have "loadWorkspaceMetaFile ''/r/workspaces/T-1'' ?u = Inr demo_meta"
    using load_rendered [of ?u "''/r/workspaces/T-1''" demo_meta] p add_facts(4,6) add_file by simp
  moreover have "mergeRestore (ReposRestore demo_meta) [restoreOf add_item] = Inr [restoreOf add_item]" by code_simp
  ultimately have "fst (upsertWorkspaceMetaReposRestore ''/r/workspaces/T-1'' [restoreOf add_item] (clock ?u) ?u) = Inr ()"
    by (simp add: upsertWorkspaceMetaReposRestore_def bindW_def look_def add_writes)
  then show ?thesis using a b p(1)
    by (cases "upsertWorkspaceMetaReposRestore ''/r/workspaces/T-1'' [restoreOf add_item] (clock ?u) ?u")
      (auto simp: addRepoFinish_def bindW_def mapErr_def onErr_def ret_def)
qed

theorem add_repo_metadata_witness:
  "\<exists>applied w'. addRepoFinish add_sys ''/r'' ''T-1'' [add_item] add_world = (Inr applied, w')
    \<and> recordsPlan [add_item] demo_meta (files w' (metaKey ''/r'' ''T-1''))"
proof -
  obtain applied w' where r: "addRepoFinish add_sys ''/r'' ''T-1'' [add_item] add_world = (Inr applied, w')" using add_runs by blast
  from add_repo_metadata [OF r add_facts(1-3) add_tame add_file add_facts(4-6)] r show ?thesis by auto
qed

subsection \<open>Adding and collecting\<close>

lemma spares_finish:
  assumes "IsAbs root" and "plain wid" and "\<And>p. p \<in> set plan \<Longrightarrow> \<forall>k\<in>K. \<not> prefix (comps (WorktreePath p)) k"
    and "metaKey root wid \<notin> K" and "\<And>n. tempKey (wsKey root wid) ''.kra-meta-'' ''.tmp'' n \<notin> K"
  shows "always (spares sy K) (addRepoFinish sy root wid plan)"
proof -
  have wr: "always (spares sy K) (writeWorkspaceMetaFile (pathJoin [root, ''workspaces'', wid]) m)" for m
    using assms(4,5) ws_paths(1,3) [OF assms(1,2)] by (intro spares_writeMeta) (simp_all add: metaKey_def)
  have up: "always (spares sy K) (upsertWorkspaceMetaReposRestore (pathJoin [root, ''workspaces'', wid]) rs now)" for rs now
    unfolding upsertWorkspaceMetaReposRestore_def by (intro quiet.always_intros wr)
  have up': "always (spares sy K) (\<lambda>w. upsertWorkspaceMetaReposRestore (pathJoin [root, ''workspaces'', wid]) rs (clock w) w)" for rs
    using up by (simp add: always_def)
  show ?thesis unfolding always_def
  proof
    fix w
    obtain ra u where a: "applyAddRepoPlanAllOrNothing sy plan w = (ra, u)" by fastforce
    have sa: "spares sy K w u"
      using spares_applyItems [of "[]" plan K sy] assms(3) a by (auto simp: applyAddRepoPlanAllOrNothing_def always_def) (metis snd_conv)
    show "spares sy K w (snd (addRepoFinish sy root wid plan w))"
    proof (cases ra)
      case (Inr applied)
      have "map Plan applied = plan" using applyItems_plan [of sy "[]"] a Inr by (auto simp: applyAddRepoPlanAllOrNothing_def)
      then have "always (spares sy K) (rollbackAddRepoApplied sy applied :: (exit_code \<times> string, unit) prog)"
        by (intro spares_undo) (use assms(3) in auto)
      then have "always (spares sy K) (bindW (onErr (\<lambda>w. upsertWorkspaceMetaReposRestore (pathJoin [root, ''workspaces'', wid])
          (buildWorkspaceMetaReposRestore applied) (clock w) w) (\<lambda>_. rollbackAddRepoApplied sy applied) (\<lambda>_. (ExitError, ''internal_error''))) (\<lambda>_. ret applied))"
        by (intro quiet.always_intros up')
      then show ?thesis using sa quiet.R_trans a Inr unfolding addRepoFinish_def always_def by (fastforce simp: bindW_def mapErr_def)
    qed (use sa a in \<open>simp add: addRepoFinish_def bindW_def mapErr_def\<close>)
  qed
qed

lemma plannedAlias_mem:
  assumes "distinct (map (\<lambda>p. TrimSpace (arAlias (Candidate p))) plan)" and "p \<in> set plan"
  shows "plannedAlias plan (TrimSpace (arAlias (Candidate p))) = Some (restoreOf p)"
proof -
  let ?kv = "map (\<lambda>r. (TrimSpace (Alias r), r)) (rev (map restoreOf plan))"
  have "Alias (restoreOf q) = arAlias (Candidate q)" for q by (simp add: restoreOf_def Let_def)
  then have "distinct (map fst ?kv)" "(TrimSpace (arAlias (Candidate p)), restoreOf p) \<in> set ?kv"
    using assms by (auto simp: rev_map [symmetric] comp_def)
  then show ?thesis unfolding plannedAlias_def aliasOf_map by (intro map_of_is_SomeI) simp_all
qed

lemma recorded_refers:
  assumes "recordsPlan plan m0 (files w (metaKey root wid))" and "distinct (map (\<lambda>p. TrimSpace (arAlias (Candidate p))) plan)" and "p \<in> set plan"
    and "IsAbs root" and "plain wid" and "\<not> fails w (SRead (metaKey root wid))"
    and "ReadDir sy w (pathJoin [root, ''workspaces'']) = Inr entries" and "(wid, True) \<in> set entries"
  shows "refersTo sy w root ''workspaces'' (TrimSpace (arUID (Candidate p)))"
proof -
  obtain m where m: "files w (metaKey root wid) = Some (FileN (renderMeta m))" "wf_meta m"
    and "aliasOf (ReposRestore m) (TrimSpace (arAlias (Candidate p))) = Some (restoreOf p)"
    using assms(1) plannedAlias_mem [OF assms(2,3)] by (auto simp: recordsPlan_def)
  then have "restoreOf p \<in> set (ReposRestore m)" by (auto simp: aliasOf_def find_Some_iff)
  moreover have "RepoUID (restoreOf p) = arUID (Candidate p)" by (simp add: restoreOf_def Let_def)
  moreover have "pathJoin [pathJoin [root, ''workspaces''], wid] = pathJoin [root, ''workspaces'', wid]"
    using assms(5) pathJoin_abs [OF assms(4), of "[''workspaces'']"] pathJoin_abs [OF assms(4), of "[''workspaces'', wid]"] by (simp add: plain_def)
  moreover have "loadWorkspaceMetaFile (pathJoin [root, ''workspaces'', wid]) w = Inr m"
    using m assms(6) ws_paths [OF assms(4,5)] comps_metaPath [of "pathJoin [root, ''workspaces'', wid]"]
    by (intro load_rendered TrimSpace_abs_ne) (simp_all add: metaKey_def)
  ultimately show ?thesis using assms(7,8) unfolding refersTo_def by (metis (full_types))
qed


lemma add_env:
  assumes "addRepoFinish add_sys ''/r'' ''T-1'' [add_item] add_world = (Inr applied, w1)"
  shows "\<not> fails w1 (SRead (metaKey ''/r'' ''T-1''))" and "isOK (Stat w1 ''/r'')" and "ReadDir add_sys w1 (pathJoin [''/r'', ''workspaces'']) = Inr [(''T-1'', True)]"
proof -
  let ?K = "{[''r''], [''r'', ''workspaces''], [''r'', ''workspaces'', ''T-1'']}"
  have "comps (WorktreePath add_item) = [''r'', ''workspaces'', ''T-1'', ''repos'', ''a'']" by code_simp
  then have "always (spares add_sys ?K) (addRepoFinish add_sys ''/r'' ''T-1'' [add_item])"
    by (intro spares_finish add_facts) (auto simp: metaKey_def tempKey_def add_facts(7) [unfolded metaKey_def])
  note sp = sparesD [OF this assms add_tame] spares_env [OF this assms]
  have f: "fails w1 = fails add_world" using sp(2) by (simp add: same_env_def)
  have "fails add_world c = False" for c by (simp add: add_world_def close_world_def ws_world_def demo_world_def)
  moreover have "comps ''/r'' = [''r'']" "pathJoin [''/r'', ''workspaces''] = ''/r/workspaces''" "comps ''/r/workspaces'' = [''r'', ''workspaces'']"
    "files add_world [''r''] = Some DirN" "files add_world [''r'', ''workspaces''] = Some DirN" "files add_world [''r'', ''workspaces'', ''T-1''] = Some DirN"
    by code_simp+
  ultimately show "\<not> fails w1 (SRead (metaKey ''/r'' ''T-1''))" "isOK (Stat w1 ''/r'')"
    "ReadDir add_sys w1 (pathJoin [''/r'', ''workspaces'']) = Inr [(''T-1'', True)]"
    using sp(1) f by (simp_all add: Stat_def ReadDir_def add_sys_def isOK_def)
qed


end
