(* ===== verification/Ws_Remove_Repo.thy ===== *)
theory Ws_Remove_Repo
  imports Ws_Add_Repo Ws_Lifecycle
begin

text \<open>
  Removing repositories from a workspace: \<open>internal/cli/ws_remove_repo.go\<close>. What the user picks in the selector is
  the parameter \<open>pick\<close>, from the identifiers shown to those chosen; the confirmation is the answer \<open>ans\<close>. When the reply
  of the JSON mode is followed by a second one, because the action line cannot be written, the second one is the reply of the handler.
\<close>

record removeRepoCandidate =
  rrUID :: string
  rrKey :: string
  rrAlias :: string
  rrSelector :: string
  rrPath :: string

record removeRepoPlanDetail =
  rdCandidate :: removeRepoCandidate
  rdBranch :: string
  rdState :: RepoState
  rdUpstream :: string
  rdAhead :: int
  rdBehind :: int
  rdStaged :: nat
  rdUnstaged :: nat
  rdUntracked :: nat
  rdFiles :: "string list"

subsection \<open>Candidates\<close>

definition orElse :: "string \<Rightarrow> string \<Rightarrow> string" where
  "orElse a b = (if a = [] then b else a)"

definition removeCandidate :: "string \<Rightarrow> string \<Rightarrow> meta_restore list \<Rightarrow> WorkspaceRepo \<Rightarrow> removeRepoCandidate option" where
  "removeCandidate root workspaceID restores r =
     (let al = TrimSpace (wr_alias r);
          restore = (case find (\<lambda>x. TrimSpace (Alias x) = al) (rev restores) of Some x \<Rightarrow> x | None \<Rightarrow> zero_restore)
      in if al = [] then None
         else Some \<lparr>rrUID = orElse (TrimSpace (wr_uid r)) (TrimSpace (RepoUID restore)),
                    rrKey = orElse (orElse (TrimSpace (wr_key r)) (TrimSpace (restoreKey restore))) al,
                    rrAlias = al, rrSelector = [], rrPath = pathJoin [root, ''workspaces'', workspaceID, ''repos'', al]\<rparr>)"

text \<open>The identifier in the selector carries the alias when two candidates share the key.\<close>

definition withSelector :: "removeRepoCandidate list \<Rightarrow> removeRepoCandidate list" where
  "withSelector out =
     map (\<lambda>c. c\<lparr>rrSelector := (if count_list (map rrKey out) (rrKey c) > 1 then rrKey c @ '' ('' @ rrAlias c @ '')'' else rrKey c)\<rparr>) out"

definition listRemoveRepoCandidates :: "sys \<Rightarrow> string \<Rightarrow> string \<Rightarrow> (state_error, removeRepoCandidate list) prog" where
  "listRemoveRepoCandidates sy root workspaceID =
     bindW (listWorkspaceReposForClose sy root workspaceID) (\<lambda>repos.
     look (\<lambda>w. let restores = (case loadWorkspaceMetaFile (pathJoin [root, ''workspaces'', workspaceID]) w of Inl _ \<Rightarrow> [] | Inr m \<Rightarrow> ReposRestore m)
       in Inr (withSelector (sort_key (\<lambda>c. (rrKey c, rrAlias c)) (List.map_filter (removeCandidate root workspaceID restores) repos)))))"

text \<open>The last candidate with an identifier; identifiers with no candidate are passed over.\<close>

definition promptRemoveRepoSelection :: "(string list \<Rightarrow> unit + string list) \<Rightarrow> removeRepoCandidate list \<Rightarrow> unit + removeRepoCandidate list" where
  "promptRemoveRepoSelection pick candidates =
     bindR (pick (map rrSelector candidates)) (\<lambda>ids. Inr (List.map_filter (\<lambda>i. find (\<lambda>c. rrSelector c = i) (rev candidates)) ids))"

subsection \<open>Risk\<close>

definition removePlanDetail :: "sys \<Rightarrow> removeRepoCandidate \<Rightarrow> ('e, removeRepoPlanDetail) prog" where
  "removePlanDetail sy it w =
     (let d = \<lparr>rdCandidate = it, rdBranch = [], rdState = Unknown, rdUpstream = [], rdAhead = 0, rdBehind = 0, rdStaged = 0, rdUnstaged = 0,
               rdUntracked = 0, rdFiles = []\<rparr>
      in if Stat w (rrPath it) = Inl NotExist then (Inr d, w)
         else bindW (inspectSnapshotP sy (rrPath it)) (\<lambda>s.
           ret (d\<lparr>rdState := ClassifyRepoStatus (Status s), rdUpstream := TrimSpace (Upstream (Status s)), rdAhead := AheadCount (Status s),
                  rdBehind := BehindCount (Status s), rdBranch := TrimSpace (gitRepoSnapshot.Branch s), rdStaged := Staged s, rdUnstaged := Unstaged s,
                  rdUntracked := Untracked s, rdFiles := Files s\<rparr>)) w)"

definition collectRemoveRepoPlanDetails :: "sys \<Rightarrow> removeRepoCandidate list \<Rightarrow> ('e, removeRepoPlanDetail list) prog" where
  "collectRemoveRepoPlanDetails sy selected = mapW (removePlanDetail sy) selected"

definition extractRiskyRepoItems :: "removeRepoPlanDetail list \<Rightarrow> (string \<times> RepoState) list" where
  "extractRiskyRepoItems details = map (\<lambda>d. (rrAlias (rdCandidate d), rdState d)) (filter (\<lambda>d. rdState d \<noteq> Clean_risk) details)"

definition evaluateRemoveRepoRisk :: "sys \<Rightarrow> removeRepoCandidate list \<Rightarrow> ('e, (string \<times> RepoState) list) prog" where
  "evaluateRemoveRepoRisk sy selected = bindW (collectRemoveRepoPlanDetails sy selected) (\<lambda>ds. ret (extractRiskyRepoItems ds))"

subsection \<open>The change\<close>

definition selectedAliases :: "removeRepoCandidate list \<Rightarrow> string list" where
  "selectedAliases selected = rev (fold (\<lambda>it out. let al = TrimSpace (rrAlias it) in if al = [] \<or> al \<in> set out then out else al # out) selected [])"

definition removeOneRepo :: "sys \<Rightarrow> removeRepoCandidate \<Rightarrow> (worktree_error, unit) prog" where
  "removeOneRepo sy it w =
     (case Stat w (rrPath it) of
        Inl _ \<Rightarrow> (Inr (), w)
      | Inr _ \<Rightarrow>
          bindW (case resolveBarePathFromWorktreeGitdir (rrPath it) w of
                   Inl _ \<Rightarrow> ret ()
                 | Inr barePath \<Rightarrow>
                     (case Stat w barePath of
                        Inl _ \<Rightarrow> ret ()
                      | Inr _ \<Rightarrow> bindW (mapErr WtGit (RunBare sy barePath [''worktree'', ''remove'', ''--force'', rrPath it])) (\<lambda>_. ret ())))
            (\<lambda>_. mapErr (\<lambda>_. WtRemove) (RemoveAll (rrPath it))) w)"

definition applyRemoveRepoPlan :: "sys \<Rightarrow> string \<Rightarrow> string \<Rightarrow> removeRepoCandidate list \<Rightarrow> (worktree_error, unit) prog" where
  "applyRemoveRepoPlan sy root workspaceID selected =
     bindW (forW (removeOneRepo sy) selected) (\<lambda>_.
       ignore (removeReposDir sy (pathJoin [root, ''workspaces'', workspaceID, ''repos''])))"

text \<open>The change and the metadata; both modes do this.\<close>

definition removeFinish :: "sys \<Rightarrow> string \<Rightarrow> string \<Rightarrow> removeRepoCandidate list \<Rightarrow> (unit, unit) prog" where
  "removeFinish sy root workspaceID selected =
     bindW (mapErr (\<lambda>_. ()) (applyRemoveRepoPlan sy root workspaceID selected)) (\<lambda>_.
       mapErr (\<lambda>_. ()) (\<lambda>w. removeWorkspaceMetaReposRestoreByAlias (pathJoin [root, ''workspaces'', workspaceID]) (selectedAliases selected) (clock w) w))"

subsection \<open>The command\<close>

record remove_flags =
  rfID :: string
  rfFormat :: string
  rfForce :: bool
  rfYes :: bool
  rfRepos :: "string list"

definition removeDefaults :: remove_flags where
  "removeDefaults = \<lparr>rfID = [], rfFormat = ''human'', rfForce = False, rfYes = False, rfRepos = []\<rparr>"

definition removeValueFlag :: "string \<Rightarrow> (string \<Rightarrow> remove_flags \<Rightarrow> remove_flags) option" where
  "removeValueFlag name =
     (if name = ''--format'' then Some (\<lambda>v f. f\<lparr>rfFormat := v\<rparr>)
      else if name = ''--repo'' then Some (\<lambda>v f. f\<lparr>rfRepos := rfRepos f @ [v]\<rparr>)
      else if name = ''--id'' then Some (\<lambda>v f. f\<lparr>rfID := v\<rparr>) else None)"

fun parseRemoveFlags :: "string list \<Rightarrow> remove_flags \<Rightarrow> exit_code + remove_flags \<times> string list" where
  "parseRemoveFlags [] f = Inr (f, [])"
| "parseRemoveFlags (a # args) f =
     (if \<not> prefix ''-'' a then Inr (f, a # args)
      else if a = ''-h'' \<or> a = ''--help'' then Inl ExitOK
      else if a = ''--yes'' then parseRemoveFlags args (f\<lparr>rfYes := True\<rparr>)
      else if a = ''--force'' then parseRemoveFlags args (f\<lparr>rfForce := True\<rparr>)
      else case removeValueFlag a of
        Some set_to \<Rightarrow> (case args of [] \<Rightarrow> Inl ExitUsage | v # rest \<Rightarrow> parseRemoveFlags rest (set_to (TrimSpace v) f))
      | None \<Rightarrow>
          (case (if CHR ''='' \<in> set a then removeValueFlag (fst (cut CHR ''='' a)) else None) of
             Some set_to \<Rightarrow> parseRemoveFlags args (set_to (TrimSpace (drop (length (fst (cut CHR ''='' a)) + 1) a)) f)
           | None \<Rightarrow> Inl ExitUsage))"

fun selectByKey :: "removeRepoCandidate list \<Rightarrow> string list \<Rightarrow> string list \<Rightarrow> removeRepoCandidate list option" where
  "selectByKey candidates seen [] = Some []"
| "selectByKey candidates seen (raw # ks) =
     (let key = TrimSpace raw
      in if key = [] \<or> key \<in> set seen then selectByKey candidates seen ks
         else case find (\<lambda>c. rrKey c = key) (rev candidates) of
           None \<Rightarrow> None
         | Some c \<Rightarrow> map_option ((#) c) (selectByKey candidates (key # seen) ks))"

definition runWSRemoveRepoJSON :: "sys \<Rightarrow> string \<Rightarrow> string \<Rightarrow> string \<Rightarrow> removeRepoCandidate list \<Rightarrow> string list \<Rightarrow> bool \<Rightarrow> handler" where
  "runWSRemoveRepoJSON sy root workspaceID wd candidates repoKeys force w0 =
     (let fail = (\<lambda>c code. (c, Some (failReply ''remove-repo'' code)));
          workspacePath = pathJoin [root, ''workspaces'', workspaceID];
          shift = isPathInside sy w0 workspacePath wd
      in case (if shift then Chdir workspacePath w0 else (Inr (), w0)) of
           (Inl _, w) \<Rightarrow> (fail ExitError ''internal_error'', w)
         | (Inr _, w) \<Rightarrow>
             (case selectByKey candidates [] repoKeys of
                None \<Rightarrow> (fail ExitUsage ''invalid_argument'', w)
              | Some selected \<Rightarrow>
                  (case evaluateRemoveRepoRisk sy selected w of
                     (Inl (), w1) \<Rightarrow> (fail ExitError ''internal_error'', w1)
                   | (Inr risky, w1) \<Rightarrow>
                       if risky \<noteq> [] \<and> \<not> force then (fail ExitError ''conflict'', w1)
                       else (case removeFinish sy root workspaceID selected w1 of
                           (Inl _, w2) \<Rightarrow> (fail ExitError ''internal_error'', w2)
                         | (Inr _, w2) \<Rightarrow>
                             (case (if shift then emitShellActionCD sy workspacePath w2 else (Inr (), w2)) of
                                (Inl _, w3) \<Rightarrow> (fail ExitError ''internal_error'', w3)
                              | (Inr _, w3) \<Rightarrow> ((ExitOK, Some (okReply ''remove-repo'')), w3))))))"

definition removeConfirmed :: "bool \<Rightarrow> string \<Rightarrow> bool" where
  "removeConfirmed risky line = (if risky then fold_name (TrimSpace line) = fold_name ''yes'' else TrimSpace line = [])"

definition runWSRemoveRepoHuman ::
    "sys \<Rightarrow> (string list \<Rightarrow> unit + string list) \<Rightarrow> answer \<Rightarrow> string \<Rightarrow> string \<Rightarrow> string \<Rightarrow> removeRepoCandidate list \<Rightarrow> handler" where
  "runWSRemoveRepoHuman sy pick ans root workspaceID wd candidates w0 =
     (let workspacePath = pathJoin [root, ''workspaces'', workspaceID];
          shift = isPathInside sy w0 workspacePath wd
      in case (if shift then Chdir workspacePath w0 else (Inr (), w0)) of
           (Inl _, w) \<Rightarrow> ((ExitError, None), w)
         | (Inr _, w) \<Rightarrow>
             (case promptRemoveRepoSelection pick candidates of
                Inl _ \<Rightarrow> ((ExitError, None), w)
              | Inr selected \<Rightarrow>
                  if selected = [] then ((ExitError, None), w)
                  else (case evaluateRemoveRepoRisk sy selected w of
                     (Inl (), w1) \<Rightarrow> ((ExitError, None), w1)
                   | (Inr risky, w1) \<Rightarrow>
                       (case ans of
                          Inl _ \<Rightarrow> ((ExitError, None), w1)
                        | Inr line \<Rightarrow>
                            if \<not> removeConfirmed (risky \<noteq> []) line then ((ExitError, None), w1)
                            else (case removeFinish sy root workspaceID selected w1 of
                                (Inl _, w2) \<Rightarrow> ((ExitError, None), w2)
                              | (Inr _, w2) \<Rightarrow>
                                  (case (if shift then emitShellActionCD sy workspacePath w2 else (Inr (), w2)) of
                                     (Inl _, w3) \<Rightarrow> ((ExitError, None), w3)
                                   | (Inr _, w3) \<Rightarrow> ((ExitOK, None), w3)))))))"

definition runWSRemoveRepo :: "sys \<Rightarrow> (string list \<Rightarrow> unit + string list) \<Rightarrow> answer \<Rightarrow> string list \<Rightarrow> handler" where
  "runWSRemoveRepo sy pick ans args0 w =
     (case parseRemoveFlags args0 removeDefaults of
        Inl c \<Rightarrow> ((c, None), w)
      | Inr (f, args) \<Rightarrow>
      (let json = (rfFormat f = ''json''); bad = (\<lambda>c. (c, if json then Some (failReply ''remove-repo'' ''invalid_argument'') else None))
       in if rfFormat f \<noteq> ''human'' \<and> \<not> json then ((ExitUsage, None), w)
      else if rfFormat f = ''human'' \<and> (rfRepos f \<noteq> [] \<or> rfYes f) then ((ExitUsage, None), w)
      else if length args > 1 then ((ExitUsage, None), w)
      else case getwd w of
        None \<Rightarrow> ((ExitError, None), w)
      | Some wd \<Rightarrow>
      (case resolveRoot w of
         Inl c \<Rightarrow> ((c, None), w)
       | Inr root \<Rightarrow>
      if rfID f \<noteq> [] \<and> args \<noteq> [] then ((ExitUsage, None), w)
      else case resolveWorkspaceIDForAddRepo root wd (if rfID f \<noteq> [] then [rfID f] else args) of
        Inl _ \<Rightarrow> (bad ExitUsage, w)
      | Inr wid \<Rightarrow>
      (case workspaceActiveOnFilesystem root wid w of
         Inl _ \<Rightarrow> ((ExitError, None), w)
       | Inr (existsFS, activeFS) \<Rightarrow>
      if \<not> existsFS \<or> \<not> activeFS then ((ExitError, None), w)
      else if json \<and> (rfRepos f = [] \<or> \<not> rfYes f) then (bad ExitUsage, w)
      else (case listRemoveRepoCandidates sy root wid w of
         (Inl _, w1) \<Rightarrow> ((ExitError, None), w1)
       | (Inr candidates, w1) \<Rightarrow>
           if candidates = [] then (bad (if json then ExitUsage else ExitError), w1)
           else if json then runWSRemoveRepoJSON sy root wid wd candidates (rfRepos f) (rfForce f) w1
           else runWSRemoveRepoHuman sy pick ans root wid wd candidates w1)))))"

end
