(* ===== verification/Ws_Remove_Laws.thy ===== *)
theory Ws_Remove_Laws
  imports Ws_Remove_Repo Ws_Add_Laws
begin

text \<open>
  What \<open>kra ws remove-repo\<close> promises: nothing is removed before every chosen worktree was found clean or the user insisted, only the chosen worktrees and the
  metadata change, and adding followed by removing gives the metadata back.
\<close>

subsection \<open>The risk gate\<close>

text \<open>The inspection, in a world with the files of this one, found every chosen worktree clean.\<close>

definition foundClean :: "sys \<Rightarrow> key set \<Rightarrow> world \<Rightarrow> removeRepoCandidate list \<Rightarrow> bool" where
  "foundClean sy K w sel \<longleftrightarrow> (\<exists>u v ds. (\<forall>k\<in>K. files u k = files w k)
     \<and> collectRemoveRepoPlanDetails sy sel u = (Inr ds :: unit + _, v) \<and> list_all (\<lambda>d. rdState d = Clean_risk) ds)"

lemma risk_empty:
  assumes "evaluateRemoveRepoRisk sy sel u = (Inr [] :: unit + _, v)" and "\<forall>k\<in>K. files u k = files w k"
  shows "foundClean sy K w sel"
proof -
  obtain ds v' where "collectRemoveRepoPlanDetails sy sel u = (Inr ds :: unit + _, v')" and "extractRiskyRepoItems ds = []"
    using assms(1) by (fastforce simp: evaluateRemoveRepoRisk_def prog_Inr)
  then show ?thesis using assms(2) by (fastforce simp: foundClean_def extractRiskyRepoItems_def filter_empty_conv list_all_iff)
qed

lemma spares_risk: "always (spares sy K) (evaluateRemoveRepoRisk sy sel :: (unit, _) prog)"
proof -
  have "always (spares sy K) (removePlanDetail sy c :: (unit, _) prog)" for c
    unfolding always_def
  proof
    fix w
    show "spares sy K w (snd ((removePlanDetail sy c :: (unit, _) prog) w))"
    proof (cases "Stat w (rrPath c) = Inl NotExist")
      case False
      define g where "g s = \<lparr>rdCandidate = c, rdBranch = TrimSpace (gitRepoSnapshot.Branch s), rdState = ClassifyRepoStatus (Status s),
        rdUpstream = TrimSpace (Upstream (Status s)), rdAhead = AheadCount (Status s), rdBehind = BehindCount (Status s), rdStaged = Staged s,
        rdUnstaged = Unstaged s, rdUntracked = Untracked s, rdFiles = Files s\<rparr>" for s :: gitRepoSnapshot
      have "always (spares sy K) (bindW (inspectSnapshotP sy (rrPath c)) (\<lambda>s. ret (g s)) :: (unit, _) prog)"
        by (intro quiet.always_intros quiet.inspect_steps)
      then show ?thesis using False by (simp add: removePlanDetail_def Let_def always_def g_def)
    qed (simp add: removePlanDetail_def Let_def quiet.R_refl)
  qed
  then show ?thesis unfolding evaluateRemoveRepoRisk_def collectRemoveRepoPlanDetails_def
    by (intro quiet.always_intros quiet.map_steps)
qed

lemma spares_candidates: "always (spares sy K) (listRemoveRepoCandidates sy root wid)"
  unfolding listRemoveRepoCandidates_def by (intro quiet.always_intros quiet.list_repos_close)

text \<open>The step both modes share: the directory is changed, then the risk is looked at.\<close>

lemma remove_gate:
  assumes "(if b then Chdir p w else (Inr (), w)) = (x, u)" and "evaluateRemoveRepoRisk sy sel u = (Inr risky :: unit + _, v)" and "tame sy K"
  shows "(\<forall>k\<in>K. files u k = files w k) \<and> (\<forall>k\<in>K. files v k = files w k) \<and> (risky = [] \<longrightarrow> foundClean sy K w sel)"
proof -
  have "(if b then Chdir p else ret ()) w = (x, u)" using assms(1) by (simp add: ret_def split: if_splits)
  from sparesD [OF quiet.always_if [OF spares_Chdir quiet.always_ret] this assms(3)] have "\<forall>k\<in>K. files u k = files w k" by blast
  moreover have "\<forall>k\<in>K. files v k = files u k" using sparesD [OF spares_risk assms(2,3)] by blast
  ultimately show ?thesis using risk_empty assms(2) by auto
qed

lemma mapW_total:
  assumes "\<And>x w. \<exists>y w'. f x w = (Inr y, w')"
  shows "\<exists>ys w'. mapW f xs w = (Inr ys, w')"
proof (induction xs arbitrary: w)
  case (Cons x xs)
  obtain y u where "f x w = (Inr y, u)" using assms by blast
  moreover obtain ys v where "mapW f xs u = (Inr ys, v)" using Cons by blast
  ultimately show ?case by (simp add: bindW_def ret_def)
qed (simp add: ret_def)

lemma risk_total: "\<exists>risky w'. evaluateRemoveRepoRisk sy sel w = (Inr risky :: unit + _, w')"
proof -
  have "\<exists>d w'. removePlanDetail sy c w = (Inr d :: unit + _, w')" for c w
    by (auto simp: removePlanDetail_def inspectSnapshotP_def Let_def bindW_def ret_def split: prod.splits)
  then obtain ds v where "mapW (removePlanDetail sy) sel w = (Inr ds :: unit + _, v)"
    using mapW_total [of "removePlanDetail sy :: _ \<Rightarrow> (unit, _) prog" sel w] by blast
  then show ?thesis by (auto simp: evaluateRemoveRepoRisk_def collectRemoveRepoPlanDetails_def bindW_def ret_def)
qed

lemma remove_json_gate:
  assumes r: "runWSRemoveRepoJSON sy root wid wd cands keys False w = (r, w')" and t: "tame sy K"
  shows "(\<forall>k\<in>K. files w' k = files w k) \<or> (\<exists>sel. selectByKey cands [] keys = Some sel \<and> foundClean sy K w sel)"
proof -
  let ?p = "pathJoin [root, ''workspaces'', wid]"
  obtain x u where u: "(if isPathInside sy w ?p wd then Chdir ?p w else (Inr (), w)) = (x, u)" by fastforce
  show ?thesis
  proof (cases "selectByKey cands [] keys")
    case None
    then have "w' = u" using r u by (cases x) (auto simp: runWSRemoveRepoJSON_def Let_def)
    then show ?thesis using remove_gate [OF u _ t] risk_total by metis
  next
    case (Some sel)
    obtain risky v where v: "evaluateRemoveRepoRisk sy sel u = (Inr risky :: unit + _, v)" using risk_total by blast
    note g = remove_gate [OF u v t]
    have "w' = u \<or> w' = v \<or> risky = []" using r u v Some by (cases x) (auto simp: runWSRemoveRepoJSON_def Let_def split: if_splits)
    then show ?thesis using g Some by auto
  qed
qed

lemma remove_human_gate:
  assumes r: "runWSRemoveRepoHuman sy pick ans root wid wd cands w = (r, w')" and t: "tame sy K" and y: "confirmRiskProceed ans \<noteq> Inr True"
  shows "(\<forall>k\<in>K. files w' k = files w k) \<or> (\<exists>sel. promptRemoveRepoSelection pick cands = Inr sel \<and> foundClean sy K w sel)"
proof -
  let ?p = "pathJoin [root, ''workspaces'', wid]"
  obtain x u where u: "(if isPathInside sy w ?p wd then Chdir ?p w else (Inr (), w)) = (x, u)" by fastforce
  show ?thesis
  proof (cases "promptRemoveRepoSelection pick cands")
    case (Inl e)
    then have "w' = u" using r u by (cases x) (auto simp: runWSRemoveRepoHuman_def Let_def)
    then show ?thesis using remove_gate [OF u _ t] risk_total by metis
  next
    case (Inr sel)
    obtain risky v where v: "evaluateRemoveRepoRisk sy sel u = (Inr risky :: unit + _, v)" using risk_total by blast
    note g = remove_gate [OF u v t]
    have "w' = u \<or> w' = v \<or> risky = []" using r u v Inr y
      by (cases x; cases ans) (auto simp: runWSRemoveRepoHuman_def Let_def removeConfirmed_def confirmRiskProceed_def split: if_splits)
    then show ?thesis using g Inr by auto
  qed
qed

lemma removeValueFlag_force: "removeValueFlag n = Some h \<Longrightarrow> rfForce (h x f) = rfForce f"
  by (auto simp: removeValueFlag_def split: if_splits)

lemma parse_remove_force: "parseRemoveFlags args f = Inr (g, rest) \<Longrightarrow> ''--force'' \<notin> set args \<Longrightarrow> rfForce g = rfForce f"
proof (induction args arbitrary: f rule: length_induct)
  case (1 args)
  then have IH: "length ys < length args \<Longrightarrow> parseRemoveFlags ys h = Inr (g, rest) \<Longrightarrow> set ys \<subseteq> set args \<Longrightarrow> rfForce g = rfForce h" for ys h by blast
  show ?case
  proof (cases args)
    case (Cons a as)
    have IH1: "rfForce g = rfForce h" if "parseRemoveFlags ys h = Inr (g, rest)" "suffix ys as" for ys h
      using IH [OF _ that(1)] Cons suffix_length_le [OF that(2)] set_mono_suffix [OF that(2)] by auto
    show ?thesis
    proof (cases "removeValueFlag a")
      case None
      then show ?thesis using "1.prems" Cons IH1 [OF _ suffix_order.refl]
        by (auto split: if_splits option.splits) (metis removeValueFlag_force)+
    next
      case (Some h)
      have "a \<noteq> ''--yes''" using Some by (auto simp: removeValueFlag_def)
      then show ?thesis using "1.prems" Cons Some IH1 [of "tl as" "h (TrimSpace (hd as)) f"] removeValueFlag_force [OF Some]
        by (cases as) (auto simp: suffix_Cons split: if_splits)
    qed
  qed (use "1.prems" in auto)
qed

text \<open>
  C17: \<open>kra ws remove-repo\<close> without \<open>--force\<close> and without a yes from the user changes no file that git leaves alone, unless the inspection, of the
  files as they were, found every worktree clean that the arguments or the user chose.
\<close>

theorem remove_risk_gate:
  assumes "runWSRemoveRepo sy pick ans args w = (r, w')" and "''--force'' \<notin> set args" and "confirmRiskProceed ans \<noteq> Inr True" and "tame sy K"
  shows "(\<forall>k\<in>K. files w' k = files w k)
    \<or> (\<exists>f rest wd root wid cands u sel. parseRemoveFlags args removeDefaults = Inr (f, rest) \<and> getwd w = Some wd \<and> resolveRoot w = Inr root
         \<and> resolveWorkspaceIDForAddRepo root wd (if rfID f \<noteq> [] then [rfID f] else rest) = Inr wid
         \<and> listRemoveRepoCandidates sy root wid w = (Inr cands, u)
         \<and> (if rfFormat f = ''json'' then selectByKey cands [] (rfRepos f) = Some sel else promptRemoveRepoSelection pick cands = Inr sel)
         \<and> foundClean sy K w sel)"
proof (cases "w' = w")
  case False
  obtain f rest where f: "parseRemoveFlags args removeDefaults = Inr (f, rest)"
    using assms(1) False by (fastforce simp: runWSRemoveRepo_def split: sum.splits)
  then have nf: "\<not> rfForce f" using parse_remove_force assms(2) by (fastforce simp: removeDefaults_def)
  obtain root wid wd y u where at: "getwd w = Some wd" "resolveRoot w = Inr root"
      "resolveWorkspaceIDForAddRepo root wd (if rfID f \<noteq> [] then [rfID f] else rest) = Inr wid"
    and l: "listRemoveRepoCandidates sy root wid w = (y, u)"
    and fin: "w' = u \<or> (\<exists>cands. y = Inr cands \<and> (if rfFormat f = ''json'' then runWSRemoveRepoJSON sy root wid wd cands (rfRepos f) False u = (r, w')
        else runWSRemoveRepoHuman sy pick ans root wid wd cands u = (r, w')))"
    using assms(1) False f nf unfolding runWSRemoveRepo_def Let_def
    by (auto split: if_splits option.splits sum.splits prod.splits)
  have fu: "\<forall>k\<in>K. files u k = files w k" using sparesD [OF spares_candidates l assms(4)] by blast
  then have cl: "foundClean sy K u sel = foundClean sy K w sel" for sel by (simp add: foundClean_def)
  show ?thesis
  proof (rule ccontr)
    assume c: "\<not> ?thesis"
    with fin fu obtain cands where y: "y = Inr cands" and h: "if rfFormat f = ''json'' then runWSRemoveRepoJSON sy root wid wd cands (rfRepos f) False u = (r, w')
        else runWSRemoveRepoHuman sy pick ans root wid wd cands u = (r, w')" by auto
    have "\<exists>sel. (if rfFormat f = ''json'' then selectByKey cands [] (rfRepos f) = Some sel else promptRemoveRepoSelection pick cands = Inr sel)
        \<and> foundClean sy K w sel"
      using remove_json_gate [OF _ assms(4), of root wid wd cands "rfRepos f" u r w']
        remove_human_gate [OF _ assms(4,3), of pick root wid wd cands u r w'] h c fu cl by (auto split: if_splits)
    with c f at l y show False by blast
  qed
qed simp

theorem remove_risk_gate_witness:
  "\<forall>k. files (snd (runWSRemoveRepo demo_sys (\<lambda>ids. Inl ()) (Inr ''no'') [''T-1''] close_world)) k = files close_world k"
proof -
  have "''--force'' \<notin> set [''T-1'']" by simp
  moreover have "confirmRiskProceed (Inr ''no'') \<noteq> Inr True" by code_simp
  moreover have "case parseRemoveFlags [''T-1''] removeDefaults of Inr (f, _) \<Rightarrow> rfFormat f \<noteq> ''json'' | _ \<Rightarrow> True" by code_simp
  moreover have "promptRemoveRepoSelection (\<lambda>ids. Inl ()) cands \<noteq> Inr sel" for cands sel by (simp add: promptRemoveRepoSelection_def)
  ultimately show ?thesis
    using remove_risk_gate [of demo_sys "\<lambda>ids. Inl ()" "Inr ''no''" "[''T-1'']" close_world _ _ UNIV, OF surjective_pairing _ _ demo_tame] by auto
qed

subsection \<open>What is removed\<close>

context step_relation
begin

lemma removeOne_steps:
  assumes "\<And>b. always R (RunBare sy b [''worktree'', ''remove'', ''--force'', rrPath c])" and "always R (RemoveAll (rrPath c))"
  shows "always R (removeOneRepo sy c)"
proof -
  have "always R (bindW (case r of Inl _ \<Rightarrow> ret () | Inr b \<Rightarrow> (case s b of Inl _ \<Rightarrow> ret ()
      | Inr _ \<Rightarrow> bindW (mapErr WtGit (RunBare sy b [''worktree'', ''remove'', ''--force'', rrPath c])) (\<lambda>_. ret ())))
      (\<lambda>_. mapErr (\<lambda>_. WtRemove) (RemoveAll (rrPath c))))" for r :: "worktree_error + string" and s :: "string \<Rightarrow> read_error + node"
    by (intro always_bind always_mapErr assms(2)) (auto split: sum.splits intro!: always_intros assms(1))
  then show ?thesis unfolding always_def removeOneRepo_def by (auto simp: R_refl split: sum.splits)
qed

end

text \<open>When git removes a worktree it deletes files and leaves the others as they are.\<close>

definition removingGit :: "sys \<Rightarrow> bool" where
  "removingGit sy \<longleftrightarrow> (\<forall>dir args w k. ''remove'' \<in> set args \<longrightarrow> snd (git sy dir args w) k = None \<or> snd (git sy dir args w) k = files w k)"

definition shrinks :: "sys \<Rightarrow> world \<Rightarrow> world \<Rightarrow> bool" where
  "shrinks sy w w' \<longleftrightarrow> same_env w w' \<and> (removingGit sy \<longrightarrow> (\<forall>k. files w' k = None \<or> files w' k = files w k))"

interpretation removal: step_relation "shrinks sy" for sy
  by unfold_locales (auto simp: shrinks_def same_env_def, metis)

lemma shrinks_RemoveAll: "always (shrinks sy) (RemoveAll p)"
  by (auto simp: always_def shrinks_def same_env_def RemoveAll_def Let_def remove_tree_def)

lemma shrinks_remove: "always (shrinks sy) (RunBare sy bare [''worktree'', ''remove'', ''--force'', p])"
proof -
  have "shrinks sy w (snd (exec_git sy dir args w))" if "''remove'' \<in> set args" for w dir args
    using that by (auto simp: shrinks_def same_env_def exec_git_def removingGit_def split: prod.splits) (metis snd_conv)+
  from this [of "[''--git-dir'', bare, ''worktree'', ''remove'', ''--force'', p]" _ "[]"]
  show ?thesis
    by (auto simp: always_def RunBare_def Run_def EnsureGitInPath_def bindW_def throw_def runNow_def removal.R_refl
        split: option.splits prod.splits git_result.splits) (metis snd_conv)+
qed

lemma shrinks_removeOne: "always (shrinks sy) (removeOneRepo sy c)"
  by (intro removal.removeOne_steps shrinks_remove shrinks_RemoveAll)

lemma shrinks_below: "removingGit sy \<Longrightarrow> shrinks sy w w' \<Longrightarrow> below_file (files w') k \<Longrightarrow> below_file (files w) k"
  by (auto simp: shrinks_def below_file_def list_ex_iff split: option.splits node.splits) (metis option.distinct(1) option.inject)

text \<open>The path of a candidate can be looked at.\<close>

definition visible :: "world \<Rightarrow> removeRepoCandidate \<Rightarrow> bool" where
  "visible w c \<longleftrightarrow> \<not> fails w (SStat (comps (rrPath c))) \<and> \<not> below_file (files w) (comps (rrPath c))"

lemma removeOne_gone:
  assumes "removeOneRepo sy c w = (Inr (), w')" and "visible w c"
  shows "files w' (comps (rrPath c)) = None"
proof (cases "Stat w (rrPath c)")
  case (Inl e)
  then show ?thesis using assms by (auto simp: removeOneRepo_def visible_def Stat_def Let_def split: if_splits option.splits)
next
  case (Inr n)
  then obtain u where "RemoveAll (rrPath c) u = (Inr (), w')"
    using assms(1) by (auto simp: removeOneRepo_def prog_Inr split: sum.splits)
  then show ?thesis by (auto simp: RemoveAll_def Let_def remove_tree_def split: if_splits)
qed

lemma removeAll_gone:
  assumes "removingGit sy"
  shows "forW (removeOneRepo sy) sel w = (Inr (), w') \<Longrightarrow> list_all (visible w) sel \<Longrightarrow> \<forall>c\<in>set sel. files w' (comps (rrPath c)) = None"
proof (induction sel arbitrary: w)
  case (Cons c sel)
  then obtain u where u: "removeOneRepo sy c w = (Inr (), u)" and r: "forW (removeOneRepo sy) sel u = (Inr (), w')" by (auto simp: prog_Inr)
  have s: "shrinks sy w u" using shrinks_removeOne u by (metis always_def snd_conv)
  have s': "shrinks sy u w'"
    using removal.always_for [of sel sy "removeOneRepo sy"] shrinks_removeOne r by (metis always_def snd_conv)
  have "list_all (visible u) sel"
    using Cons.prems(2) s shrinks_below [OF assms s] by (auto simp: list_all_iff visible_def shrinks_def same_env_def)
  from Cons.IH [OF r this] removeOne_gone [OF u] s' assms Cons.prems(2) show ?case by (auto simp: shrinks_def)
qed simp

lemma aliasOf_Some: "aliasOf rs a = Some e \<Longrightarrow> e \<in> set rs \<and> TrimSpace (Alias e) = a"
  by (auto simp: aliasOf_def find_Some_iff)

lemma aliasOf_filter: "aliasOf (filter (\<lambda>r. TrimSpace (Alias r) \<notin> S) rs) a = (if a \<in> S then None else aliasOf rs a)"
  by (induction rs) (auto simp: aliasOf_def)

definition boundRepo :: "string \<Rightarrow> string \<Rightarrow> removeRepoCandidate \<Rightarrow> bool" where
  "boundRepo root wid c \<longleftrightarrow> plain (rrAlias c) \<and> TrimSpace (rrAlias c) = rrAlias c \<and> rrPath c = pathJoin [root, ''workspaces'', wid, ''repos'', rrAlias c]"

lemma bound_path:
  assumes "IsAbs root" and "plain wid" and "boundRepo root wid c"
  shows "comps (rrPath c) = wsKey root wid @ [''repos'', rrAlias c]"
proof -
  have "plains [''workspaces'', wid, ''repos'', rrAlias c]" using assms(2,3) by (simp add: plain_def boundRepo_def)
  then show ?thesis using pathJoin_abs [OF assms(1)] assms(3) by (simp add: boundRepo_def)
qed

lemma selectedAliases_set: "list_all (boundRepo root wid) sel \<Longrightarrow> set (selectedAliases sel) = rrAlias ` set sel"
proof -
  have "list_all (boundRepo root wid) sel \<Longrightarrow>
      set (fold (\<lambda>it out. let al = TrimSpace (rrAlias it) in if al = [] \<or> al \<in> set out then out else al # out) sel out) = set out \<union> rrAlias ` set sel" for out
    by (induction sel arbitrary: out) (auto simp: boundRepo_def plain_def Let_def)
  then show "list_all (boundRepo root wid) sel \<Longrightarrow> set (selectedAliases sel) = rrAlias ` set sel" by (simp add: selectedAliases_def)
qed

lemma apply_remove_steps:
  assumes "applyRemoveRepoPlan sy root wid sel w = (Inr (), w')" and "IsAbs root" and "plain wid" and "list_all (boundRepo root wid) sel"
  shows "removingGit sy \<Longrightarrow> list_all (visible w) sel \<Longrightarrow> c \<in> set sel \<Longrightarrow> files w' (comps (rrPath c)) = None"
    and "tame sy {metaKey root wid} \<Longrightarrow> files w' (metaKey root wid) = files w (metaKey root wid)" and "same_env w w'"
proof -
  let ?d = "pathJoin [root, ''workspaces'', wid, ''repos'']" and ?K = "{metaKey root wid}"
  have d: "comps ?d = wsKey root wid @ [''repos'']" unfolding ws_paths(6) [OF assms(2,3)] using assms(3) by (simp add: plain_def)
  obtain u where u: "forW (removeOneRepo sy) sel w = (Inr (), u)" and e: "ignore (removeReposDir sy ?d) u = (Inr () :: worktree_error + unit, w')"
    using assms(1) by (auto simp: applyRemoveRepoPlan_def prog_Inr)
  have p: "\<forall>k\<in>?K. \<not> prefix (comps (rrPath c)) k" if "c \<in> set sel" for c
    using bound_path [OF assms(2,3)] assms(4) that by (auto simp: list_all_iff metaKey_def prefix_def)
  have one: "always (spares sy ?K) (removeOneRepo sy c)" if "c \<in> set sel" for c
    by (intro quiet.removeOne_steps quiet.run_bare spares_RemoveAll p [OF that])
  have "always (spares sy ?K) (applyRemoveRepoPlan sy root wid sel)" unfolding applyRemoveRepoPlan_def
    by (intro quiet.always_bind quiet.always_for one quiet.always_ignore spares_removeReposDir) (simp_all add: d metaKey_def)
  from sparesD [OF this assms(1)] spares_env [OF this assms(1)]
  show "tame sy ?K \<Longrightarrow> files w' (metaKey root wid) = files w (metaKey root wid)" "same_env w w'" by auto
  have "files w' k = None \<or> files w' k = files u k" for k
    using e by (auto simp: ignore_def removeReposDir_def RemoveP_def Let_def split: sum.splits read_error.splits if_splits option.splits)
  then show "removingGit sy \<Longrightarrow> list_all (visible w) sel \<Longrightarrow> c \<in> set sel \<Longrightarrow> files w' (comps (rrPath c)) = None"
    using removeAll_gone [OF _ u] by metis
qed

lemma remove_meta:
  assumes "removeWorkspaceMetaReposRestoreByAlias p aliases now u = (Inr (), u')" and "IsAbs p"
    and "files u (comps p @ [''.kra.meta.json'']) = Some (FileN (renderMeta m0))" and "wf_meta m0" and "in_int64 now"
    and "\<not> fails u (SRead (comps p @ [''.kra.meta.json'']))"
  shows "\<exists>m. files u' (comps p @ [''.kra.meta.json'']) = Some (FileN (renderMeta m)) \<and> wf_meta m
    \<and> (\<forall>a. a \<noteq> [] \<longrightarrow> aliasOf (ReposRestore m) a = (if a \<in> set (map TrimSpace aliases) then None else aliasOf (ReposRestore m0) a))"
proof -
  let ?del = "filter (\<lambda>a. a \<noteq> []) (map TrimSpace aliases)"
  let ?rs = "filter (\<lambda>r. TrimSpace (Alias r) \<notin> set ?del) (ReposRestore m0)"
  have l: "loadWorkspaceMetaFile p u = Inr m0"
    using load_rendered [of u p m0] assms TrimSpace_abs_ne comps_metaPath [OF assms(2)] by simp
  show ?thesis
  proof (cases "?del = []")
    case True
    then have "u' = u" using assms(1) l by (simp add: removeWorkspaceMetaReposRestoreByAlias_def bindW_def look_def ret_def)
    moreover have "a \<notin> set (map TrimSpace aliases)" if "a \<noteq> []" for a using True that by (auto simp: filter_empty_conv)
    ultimately show ?thesis using assms(3,4) by auto
  next
    case False
    then have "writeWorkspaceMetaFile p (touchUpdated now (m0\<lparr>ReposRestore := ?rs\<rparr>)) u = (Inr (), u')"
      using assms(1) l by (simp add: removeWorkspaceMetaReposRestoreByAlias_def bindW_def look_def Let_def)
    from writeMeta_target [OF this assms(2)] have f: "files u' (comps p @ [''.kra.meta.json'']) = Some (FileN (renderMeta (touchUpdated now (m0\<lparr>ReposRestore := ?rs\<rparr>))))" .
    have "wf_meta (touchUpdated now (m0\<lparr>ReposRestore := ?rs\<rparr>))"
      using assms(4,5) by (intro wf_touchUpdated) (auto simp: wf_meta_def list_all_iff)
    moreover have "ReposRestore (touchUpdated now (m0\<lparr>ReposRestore := ?rs\<rparr>)) = ?rs" by (simp add: touchUpdated_def)
    ultimately show ?thesis using f aliasOf_filter [of "set ?del" "ReposRestore m0"] by auto
  qed
qed

lemma finish_removes:
  assumes "removeFinish sy root wid sel w = (Inr (), w')" and "IsAbs root" and "plain wid" and "list_all (boundRepo root wid) sel"
    and "tame sy {metaKey root wid}" and "files w (metaKey root wid) = Some (FileN (renderMeta m0))" and "wf_meta m0" and "in_int64 (clock w)"
    and "\<not> fails w (SRead (metaKey root wid))"
  shows "\<exists>m. files w' (metaKey root wid) = Some (FileN (renderMeta m)) \<and> wf_meta m
    \<and> (\<forall>a. a \<noteq> [] \<longrightarrow> aliasOf (ReposRestore m) a = (if a \<in> rrAlias ` set sel then None else aliasOf (ReposRestore m0) a))"
    and "removingGit sy \<Longrightarrow> list_all (visible w) sel \<Longrightarrow> c \<in> set sel \<Longrightarrow> files w' (comps (rrPath c)) = None"
proof -
  let ?p = "pathJoin [root, ''workspaces'', wid]"
  note p = ws_paths(1,3) [OF assms(2,3)]
  obtain u where u: "applyRemoveRepoPlan sy root wid sel w = (Inr (), u)"
    and r: "removeWorkspaceMetaReposRestoreByAlias ?p (selectedAliases sel) (clock u) u = (Inr (), w')"
    using assms(1) by (auto simp: removeFinish_def prog_Inr)
  note st = apply_remove_steps [OF u assms(2-4)]
  have al: "set (map TrimSpace (selectedAliases sel)) = rrAlias ` set sel"
  proof -
    have "TrimSpace ` rrAlias ` set sel = rrAlias ` set sel"
      unfolding image_image using assms(4) by (intro image_cong) (auto simp: boundRepo_def list_all_iff)
    then show ?thesis using selectedAliases_set [OF assms(4)] by simp
  qed
  have mk: "comps ?p @ [''.kra.meta.json''] = metaKey root wid" using p(1) by (simp add: metaKey_def)
  show "\<exists>m. files w' (metaKey root wid) = Some (FileN (renderMeta m)) \<and> wf_meta m
    \<and> (\<forall>a. a \<noteq> [] \<longrightarrow> aliasOf (ReposRestore m) a = (if a \<in> rrAlias ` set sel then None else aliasOf (ReposRestore m0) a))"
    using remove_meta [OF r p(2), of m0] st(2,3) assms(5-9) unfolding mk al same_env_def by auto
  have "files w' k = files u k" if "prefix (wsKey root wid @ [''repos'']) k" for k
  proof -
    have "always (spares sy' {k}) (writeWorkspaceMetaFile ?p m)" for m sy'
      using that p by (intro spares_writeMeta) (auto simp: tempKey_def prefix_def)
    then have "always (spares demo_sys {k}) (removeWorkspaceMetaReposRestoreByAlias ?p (selectedAliases sel) now)" for now
      unfolding removeWorkspaceMetaReposRestoreByAlias_def Let_def by (intro quiet.always_intros)
    from sparesD [OF this r demo_tame] show ?thesis by simp
  qed
  then show "removingGit sy \<Longrightarrow> list_all (visible w) sel \<Longrightarrow> c \<in> set sel \<Longrightarrow> files w' (comps (rrPath c)) = None"
    using st(1) bound_path [OF assms(2,3)] assms(4) by (simp add: list_all_iff)
qed

text \<open>
  C21: After a successful removal none of the chosen worktrees is there, the metadata has no entry for their aliases, and the entries of
  the other aliases are the same. When git removes a worktree it only deletes files, and it does not write the metadata (\<open>tame\<close>).
\<close>

theorem remove_repo_complete:
  assumes "removeFinish sy root wid sel w = (Inr (), w')" and "IsAbs root" and "plain wid" and "list_all (boundRepo root wid) sel"
    and "tame sy {metaKey root wid}" and "files w (metaKey root wid) = Some (FileN (renderMeta m0))" and "wf_meta m0" and "in_int64 (clock w)"
    and "\<not> fails w (SRead (metaKey root wid))" and "removingGit sy" and "list_all (visible w) sel"
  shows "(\<forall>c\<in>set sel. files w' (comps (rrPath c)) = None)
    \<and> (\<exists>m. files w' (metaKey root wid) = Some (FileN (renderMeta m)) \<and> wf_meta m
        \<and> (\<forall>a. a \<noteq> [] \<longrightarrow> aliasOf (ReposRestore m) a = (if a \<in> rrAlias ` set sel then None else aliasOf (ReposRestore m0) a)))"
  using finish_removes [OF assms(1-9)] assms(10,11) by blast

text \<open>
  C22: Adding repositories whose aliases the metadata does not have, and removing them again, gives every alias the entry it had.
\<close>

theorem add_remove_roundtrip:
  assumes "addRepoFinish sy root wid plan w = (Inr applied, w1)" and "removeFinish sy root wid sel w1 = (Inr (), w2)"
    and "rrAlias ` set sel = (arAlias \<circ> Candidate) ` set plan" and "IsAbs root" and "plain wid" and "list_all (plannedItem root wid) plan"
    and "list_all (boundRepo root wid) sel" and "tame sy {metaKey root wid}" and "files w (metaKey root wid) = Some (FileN (renderMeta m0))"
    and "wf_meta m0" and "in_int64 (clock w)" and "\<not> fails w (SRead (metaKey root wid))"
    and "\<forall>p\<in>set plan. aliasOf (rev (ReposRestore m0)) (arAlias (Candidate p)) = None"
  shows "\<exists>m. files w2 (metaKey root wid) = Some (FileN (renderMeta m)) \<and> (\<forall>a. a \<noteq> [] \<longrightarrow> aliasOf (ReposRestore m) a = aliasOf (rev (ReposRestore m0)) a)"
proof -
  have "always (spares sy {}) (addRepoFinish sy root wid plan)" by (intro spares_finish assms(4,5)) auto
  from spares_env [OF this assms(1)] have env: "fails w1 = fails w" "clock w1 = clock w" by (simp_all add: same_env_def)
  obtain m1 where m1: "files w1 (metaKey root wid) = Some (FileN (renderMeta m1))" "wf_meta m1"
    "\<And>a. aliasOf (ReposRestore m1) a = (case plannedAlias plan a of Some e \<Rightarrow> Some e | None \<Rightarrow> aliasOf (rev (ReposRestore m0)) a)"
    using finish_metadata [OF assms(1,4-6,8-12)] by (auto simp: recordsPlan_def)
  obtain m where m: "files w2 (metaKey root wid) = Some (FileN (renderMeta m))"
    "\<And>a. a \<noteq> [] \<Longrightarrow> aliasOf (ReposRestore m) a = (if a \<in> rrAlias ` set sel then None else aliasOf (ReposRestore m1) a)"
    using finish_removes(1) [OF assms(2,4,5,7,8) m1(1,2)] env assms(11,12) by auto
  have trim: "TrimSpace b = b" if "b \<in> rrAlias ` set sel" for b using assms(7) that by (auto simp: list_all_iff boundRepo_def)
  have "a \<in> rrAlias ` set sel" if pa: "plannedAlias plan a = Some e" for a e
  proof -
    obtain p where "p \<in> set plan" "a = TrimSpace (arAlias (Candidate p))"
      using aliasOf_Some [OF pa [unfolded plannedAlias_def]] by (auto simp: restoreOf_def Let_def)
    then show ?thesis using trim [of "arAlias (Candidate p)"] assms(3) by auto
  qed
  moreover have "aliasOf (rev (ReposRestore m0)) b = None" if "b \<in> rrAlias ` set sel" for b using assms(3,13) that by auto
  ultimately have "aliasOf (ReposRestore m) a = aliasOf (rev (ReposRestore m0)) a" if "a \<noteq> []" for a
    using m(2) [OF that] m1(3) [of a] by (auto split: option.splits)
  then show ?thesis using m(1) by blast
qed

text \<open>
  C28: A removal of several repositories that fails at one of them is not undone: the worktrees before it are gone, and the metadata still has the
  entries of all of them.
\<close>

theorem remove_partial:
  assumes "removeOneRepo sy c1 w = (Inr (), w1)" and "removeOneRepo sy c2 w1 = (Inl e, w2)" and "visible w c1" and "removingGit sy"
    and "IsAbs root" and "plain wid" and "boundRepo root wid c1" and "boundRepo root wid c2" and "tame sy {metaKey root wid}"
  shows "removeFinish sy root wid [c1, c2] w = (Inl (), w2) \<and> files w2 (comps (rrPath c1)) = None \<and> files w2 (metaKey root wid) = files w (metaKey root wid)"
proof -
  have sp: "always (spares sy {metaKey root wid}) (removeOneRepo sy c)" if "c \<in> {c1, c2}" for c
    by (intro quiet.removeOne_steps quiet.run_bare spares_RemoveAll)
      (use bound_path [OF assms(5,6)] assms(7,8) that in \<open>auto simp: metaKey_def prefix_def\<close>)
  have "files w1 (metaKey root wid) = files w (metaKey root wid)" "files w2 (metaKey root wid) = files w1 (metaKey root wid)"
    using sparesD [OF sp [of c1] assms(1,9)] sparesD [OF sp [of c2] assms(2,9)] by simp_all
  moreover have "files w1 (comps (rrPath c1)) = None" by (rule removeOne_gone [OF assms(1,3)])
  moreover have "shrinks sy w1 w2" using shrinks_removeOne [of sy c2] assms(2) by (metis always_def snd_conv)
  ultimately show ?thesis using assms(1,2,4)
    by (auto simp: removeFinish_def applyRemoveRepoPlan_def bindW_def mapErr_def shrinks_def)
qed

definition two_repos :: "string \<Rightarrow> removeRepoCandidate" where
  "two_repos name = \<lparr>rrUID = [], rrKey = name, rrAlias = name, rrSelector = name, rrPath = ''/r/workspaces/T-1/repos/'' @ name\<rparr>"

definition two_world :: world where
  "two_world = demo_world\<lparr>files := (files demo_world)([''r'', ''workspaces'', ''T-1'', ''repos'', ''a''] \<mapsto> DirN,
     [''r'', ''workspaces'', ''T-1'', ''repos'', ''b''] \<mapsto> DirN, [''r'', ''workspaces'', ''T-1'', ''repos'', ''b'', ''.git''] \<mapsto> FileN ''gitdir: /p/b.git/worktrees/b'',
     [''p'', ''b.git''] \<mapsto> DirN)\<rparr>"

definition unwilling_sys :: sys where
  "unwilling_sys = demo_sys\<lparr>git := \<lambda>dir args w. (GitErr (Some 1) ''no'' [], files w)\<rparr>"

theorem remove_partial_witness:
  "\<exists>w2. removeFinish unwilling_sys ''/r'' ''T-1'' [two_repos ''a'', two_repos ''b''] two_world = (Inl (), w2)
    \<and> files w2 [''r'', ''workspaces'', ''T-1'', ''repos'', ''a''] = None"
proof -
  let ?r1 = "removeOneRepo unwilling_sys (two_repos ''a'') two_world"
  let ?r2 = "removeOneRepo unwilling_sys (two_repos ''b'') (snd ?r1)"
  have "fst ?r1 = Inr ()" "isl (fst ?r2)" and v: "visible two_world (two_repos ''a'')" "IsAbs ''/r''" "plain ''T-1''" "boundRepo ''/r'' ''T-1'' (two_repos ''a'')"
    "boundRepo ''/r'' ''T-1'' (two_repos ''b'')" and p: "comps (rrPath (two_repos ''a'')) = [''r'', ''workspaces'', ''T-1'', ''repos'', ''a'']" by code_simp+
  then obtain e where "?r1 = (Inr (), snd ?r1)" "?r2 = (Inl e, snd ?r2)" by (metis isl_def prod.collapse)
  moreover have "removingGit unwilling_sys" "tame unwilling_sys {metaKey ''/r'' ''T-1''}" by (simp_all add: removingGit_def tame_def unwilling_sys_def demo_sys_def)
  ultimately show ?thesis using remove_partial [of unwilling_sys "two_repos ''a''" two_world "snd ?r1" "two_repos ''b''" e "snd ?r2" "''/r''" "''T-1''"] v unfolding p by blast
qed

text \<open>A workspace with the worktree of one repository.\<close>

definition bound_repo :: removeRepoCandidate where
  "bound_repo = \<lparr>rrUID = ''g.com/o/a'', rrKey = ''o/a'', rrAlias = ''a'', rrSelector = ''o/a'', rrPath = ''/r/workspaces/T-1/repos/a''\<rparr>"

definition bound_world :: world where
  "bound_world = add_world\<lparr>files := (files add_world)([''r'', ''workspaces'', ''T-1'', ''repos'', ''a''] \<mapsto> DirN,
     [''r'', ''workspaces'', ''T-1'', ''repos'', ''a'', ''x''] \<mapsto> FileN ''y'')\<rparr>"

lemma bound_facts: "list_all (boundRepo ''/r'' ''T-1'') [bound_repo]" "rrPath bound_repo = ''/r/workspaces/T-1/repos/a''"
  "comps ''/r/workspaces/T-1/repos/a'' = [''r'', ''workspaces'', ''T-1'', ''repos'', ''a'']" "pathJoin [''/r'', ''workspaces'', ''T-1''] = ''/r/workspaces/T-1''"
  "comps ''/r/workspaces/T-1'' = [''r'', ''workspaces'', ''T-1'']" "IsAbs ''/r/workspaces/T-1''"
  "comps (pathJoin [''/r'', ''workspaces'', ''T-1'', ''repos'']) = [''r'', ''workspaces'', ''T-1'', ''repos'']"
  "selectedAliases [bound_repo] = [''a'']" "map TrimSpace [''a''] = [''a'']"
  by code_simp+

lemma bound_file: "files bound_world (metaKey ''/r'' ''T-1'') = Some (FileN (renderMeta demo_meta))"
  using add_file unfolding add_facts(7) by (simp add: bound_world_def)

definition unbound_world :: world where
  "unbound_world = bound_world\<lparr>files := remove_tree (files bound_world) [''r'', ''workspaces'', ''T-1'', ''repos'', ''a'']\<rparr>"

lemma unbound_at: "\<not> prefix [''r'', ''workspaces'', ''T-1'', ''repos'', ''a''] k \<Longrightarrow> files unbound_world k = files add_world k"
  by (auto simp: unbound_world_def bound_world_def remove_tree_def)

lemma add_dirs: "files add_world [''r'', ''workspaces'', ''T-1''] = Some DirN" "files add_world [''r'', ''workspaces''] = Some DirN"
  "files add_world [''r''] = Some DirN" "files add_world [] = Some DirN"
  "files add_world (tempKey [''r'', ''workspaces'', ''T-1''] ''.kra-meta-'' ''.tmp'' (rand add_world)) = None"
  "files add_world [''r'', ''workspaces'', ''T-1'', ''repos''] = None" "files add_world [''r'', ''workspaces'', ''T-1'', ''repos'', ''a''] = None"
  by (simp_all add: add_world_def close_world_def ws_world_def demo_world_def tempKey_def)

lemma bound_at: "files bound_world k = (if k = [''r'', ''workspaces'', ''T-1'', ''repos'', ''a''] then Some DirN
    else if k = [''r'', ''workspaces'', ''T-1'', ''repos'', ''a'', ''x''] then Some (FileN ''y'') else files add_world k)"
  by (simp add: bound_world_def)

lemma bound_env: "list_all (visible bound_world) [bound_repo]" "in_int64 (clock bound_world)" "\<not> fails bound_world c" "\<not> fails unbound_world c"
proof -
  show nf: "\<not> fails bound_world c" "\<not> fails unbound_world c" for c
    by (simp_all add: unbound_world_def bound_world_def add_world_def close_world_def ws_world_def demo_world_def)
  show "in_int64 (clock bound_world)" using add_facts(5) by (simp add: bound_world_def)
  have "\<not> below_file (files bound_world) [''r'', ''workspaces'', ''T-1'', ''repos'', ''a'']" using add_dirs by (simp add: below_file_def bound_at)
  then show "list_all (visible bound_world) [bound_repo]" using nf by (simp add: visible_def bound_facts)
qed

lemma bound_apply: "applyRemoveRepoPlan add_sys ''/r'' ''T-1'' [bound_repo] bound_world = (Inr (), unbound_world)"
proof -
  let ?p = "''/r/workspaces/T-1/repos/a''" and ?d = "pathJoin [''/r'', ''workspaces'', ''T-1'', ''repos'']"
  note nf = bound_env(3,4)
  have "comps (pathJoin [?p, ''.git'']) = [''r'', ''workspaces'', ''T-1'', ''repos'', ''a'', ''.git'']" by code_simp
  moreover have "files add_world [''r'', ''workspaces'', ''T-1'', ''repos'', ''a'', ''.git''] = None"
    by (simp add: add_world_def close_world_def ws_world_def demo_world_def)
  ultimately have "resolveBarePathFromWorktreeGitdir ?p bound_world = Inl (WtGitFile NotExist)" "Stat bound_world ?p = Inr DirN"
    using nf add_dirs by (simp_all add: resolveBarePathFromWorktreeGitdir_def ReadFile_def Stat_def bound_facts below_file_def bound_at)
  moreover have "RemoveAll ?p bound_world = (Inr (), unbound_world)" using nf by (simp add: RemoveAll_def bound_facts(3) unbound_world_def)
  ultimately have one: "removeOneRepo add_sys bound_repo bound_world = (Inr (), unbound_world)"
    unfolding removeOneRepo_def bound_facts(2) by (simp add: bindW_def ret_def mapErr_def)
  have "ReadDir add_sys unbound_world ?d = Inl NotExist"
    using nf unbound_at add_dirs unfolding ReadDir_def bound_facts(7) by (simp add: below_file_def)
  then have "removeReposDir add_sys ?d unbound_world = (Inr (), unbound_world)" by (simp add: removeReposDir_def)
  then show ?thesis unfolding applyRemoveRepoPlan_def by (simp add: one bindW_def ret_def ignore_def)
qed

lemma write_demo_ok:
  assumes "\<forall>c. \<not> fails u c" and "files u [''r'', ''workspaces'', ''T-1''] = Some DirN" and "files u [''r'', ''workspaces''] = Some DirN"
    and "files u [''r''] = Some DirN" and "files u [] = Some DirN" and "files u [''r'', ''workspaces'', ''T-1'', ''.kra.meta.json''] = Some (FileN b)"
    and "files u (tempKey [''r'', ''workspaces'', ''T-1''] ''.kra-meta-'' ''.tmp'' (rand u)) = None"
  shows "fst (writeWorkspaceMetaFile ''/r/workspaces/T-1'' m u) = Inr ()"
proof -
  let ?d = "[''r'', ''workspaces'', ''T-1'']"
  have bf: "\<not> below_file (files u) (?d @ [[]])" using assms(2-5) by (auto simp: below_file_def split: option.splits node.splits)
  have tk: "tempKey ?d ''.kra-meta-'' ''.tmp'' (rand u) \<noteq> ?d @ [''.kra.meta.json'']" by (simp add: tempKey_def)
  have nd: "files u (?d @ [''.kra.meta.json'']) \<noteq> Some DirN" using assms(6) by simp
  have mk: "False \<or> files u ?d = Some DirN" using assms(2) by simp
  have "fst (atomicReplace False ''.kra-meta-'' ''.tmp'' ?d (?d @ [''.kra.meta.json'']) (renderMeta m) u) = None"
    by (rule atomicReplace_succeeds [OF assms(1) refl bf nd assms(7) mk tk])
  then obtain u' where "atomicReplace False ''.kra-meta-'' ''.tmp'' ?d (?d @ [''.kra.meta.json'']) (renderMeta m) u = (None, u')" by (metis prod.collapse)
  then show ?thesis unfolding writeWorkspaceMetaFile_def bound_facts(5) demo_path(3) if_not_P [OF demo_path(2)] by simp
qed

lemma unbound_fails: "\<forall>c. \<not> fails unbound_world c"
  by (simp add: unbound_world_def bound_world_def add_world_def close_world_def ws_world_def demo_world_def)

lemma unbound_files: "files unbound_world [''r'', ''workspaces'', ''T-1''] = Some DirN" "files unbound_world [''r'', ''workspaces''] = Some DirN"
  "files unbound_world [''r''] = Some DirN" "files unbound_world [] = Some DirN"
  "files unbound_world (tempKey [''r'', ''workspaces'', ''T-1''] ''.kra-meta-'' ''.tmp'' (rand unbound_world)) = None"
proof -
  have "rand unbound_world = rand add_world" by (simp add: unbound_world_def bound_world_def)
  then show "files unbound_world [''r'', ''workspaces'', ''T-1''] = Some DirN" "files unbound_world [''r'', ''workspaces''] = Some DirN"
    "files unbound_world [''r''] = Some DirN" "files unbound_world [] = Some DirN"
    "files unbound_world (tempKey [''r'', ''workspaces'', ''T-1''] ''.kra-meta-'' ''.tmp'' (rand unbound_world)) = None"
    using unbound_at add_dirs by (simp_all add: tempKey_def)
qed

lemma unbound_metaFile: "files unbound_world [''r'', ''workspaces'', ''T-1'', ''.kra.meta.json''] = Some (FileN (renderMeta demo_meta))"
  using bound_file unfolding add_facts(7) by (simp add: unbound_world_def remove_tree_def)

lemma unbound_load: "loadWorkspaceMetaFile ''/r/workspaces/T-1'' unbound_world = Inr demo_meta"
proof (rule load_rendered [OF _ _ add_facts(4) TrimSpace_abs_ne [OF bound_facts(6)]])
  show "files unbound_world (comps (metaPath ''/r/workspaces/T-1'')) = Some (FileN (renderMeta demo_meta))"
    "\<not> fails unbound_world (SRead (comps (metaPath ''/r/workspaces/T-1'')))" unfolding demo_path(3) using unbound_metaFile unbound_fails by simp_all
qed

lemma unbound_meta: "fst (removeWorkspaceMetaReposRestoreByAlias ''/r/workspaces/T-1'' [''a''] (clock unbound_world) unbound_world) = Inr ()"
proof -
  have t: "TrimSpace ''a'' = ''a''" by code_simp
  have w: "fst (writeWorkspaceMetaFile ''/r/workspaces/T-1'' x unbound_world) = Inr ()" for x
    by (rule write_demo_ok [OF unbound_fails unbound_files(1-4) unbound_metaFile unbound_files(5)])
  show ?thesis unfolding removeWorkspaceMetaReposRestoreByAlias_def bindW_def look_def unbound_load by (simp add: t w)
qed

lemma bound_removed: "\<exists>w'. removeFinish add_sys ''/r'' ''T-1'' [bound_repo] bound_world = (Inr (), w')"
  using bound_apply unbound_meta
  by (cases "removeWorkspaceMetaReposRestoreByAlias ''/r/workspaces/T-1'' [''a''] (clock unbound_world) unbound_world")
    (auto simp: removeFinish_def bindW_def mapErr_def bound_facts(4,8))

theorem remove_repo_complete_witness:
  "\<exists>w'. removeFinish add_sys ''/r'' ''T-1'' [bound_repo] bound_world = (Inr (), w') \<and> files w' [''r'', ''workspaces'', ''T-1'', ''repos'', ''a''] = None"
proof -
  obtain w' where r: "removeFinish add_sys ''/r'' ''T-1'' [bound_repo] bound_world = (Inr (), w')" using bound_removed by blast
  have "removingGit add_sys" by (simp add: removingGit_def add_sys_def demo_sys_def)
  from remove_repo_complete [OF r add_facts(1,2) bound_facts(1) add_tame bound_file add_facts(4) bound_env(2,3) this bound_env(1)] r
  show ?thesis by (simp add: bound_facts)
qed

lemma added_write:
  assumes "addRepoFinish add_sys ''/r'' ''T-1'' [add_item] add_world = (Inr applied, w1)"
  obtains e cs x where "atomicReplace False ''.kra-meta-'' ''.tmp'' [''r'', ''workspaces'', ''T-1'']
    ([''r'', ''workspaces'', ''T-1''] @ [''.kra.meta.json'']) (renderMeta x) (add_world\<lparr>calls := cs\<rparr>) = (e, w1)"
proof -
  let ?it = "\<lparr>Plan = add_item, CreatedLocalBranch = True, CreatedWorktree = True\<rparr>"
  obtain cs where a: "applyAddRepoPlanAllOrNothing add_sys [add_item] add_world = (Inr [?it], add_world\<lparr>calls := cs\<rparr>)" using add_applied by blast
  let ?u = "add_world\<lparr>calls := cs\<rparr>"
  have up: "upsertWorkspaceMetaReposRestore ''/r/workspaces/T-1'' (buildWorkspaceMetaReposRestore [?it]) (clock ?u) ?u = (Inr (), w1)"
    using assms a by (auto simp: addRepoFinish_def prog_Inr bound_facts(4))
  have "loadWorkspaceMetaFile ''/r/workspaces/T-1'' ?u = Inr demo_meta"
    using load_rendered [of ?u "''/r/workspaces/T-1''" demo_meta] demo_path add_facts(4,6,7) add_file by simp
  from upsert_merge [OF up this] obtain x where "writeWorkspaceMetaFile ''/r/workspaces/T-1'' x ?u = (Inr (), w1)" by auto
  then show ?thesis using that write_meta_put [OF _ bound_facts(6) demo_path(2)] unfolding bound_facts(5) by blast
qed

lemma added_removed:
  assumes "addRepoFinish add_sys ''/r'' ''T-1'' [add_item] add_world = (Inr applied, w1)"
    and "files w1 (metaKey ''/r'' ''T-1'') = Some (FileN (renderMeta m1))" and "wf_meta m1"
  shows "\<exists>w2. removeFinish add_sys ''/r'' ''T-1'' [bound_repo] w1 = (Inr (), w2)"
proof -
  let ?d = "[''r'', ''workspaces'', ''T-1'']"
  obtain e cs x where e: "atomicReplace False ''.kra-meta-'' ''.tmp'' ?d (?d @ [''.kra.meta.json'']) (renderMeta x) (add_world\<lparr>calls := cs\<rparr>) = (e, w1)"
    using added_write [OF assms(1)] .
  have env: "rand w1 = rand add_world" "fails w1 = fails add_world" using atomicReplace_same_env [OF e] by (simp_all add: same_env_def)
  have nf: "\<forall>c. \<not> fails w1 c" unfolding env by (simp add: add_world_def close_world_def ws_world_def demo_world_def)
  have same: "files w1 k = files add_world k" if "k \<in> {[], [''r''], [''r'', ''workspaces''], ?d, ?d @ [''repos''], ?d @ [''repos'', ''a'']}" for k
    using atomicReplace_other [OF e, of k] that by (auto simp: tempKey_def)
  have "files add_world (?d @ [''repos'']) = None" "files add_world (?d @ [''repos'', ''a'']) = None" by code_simp+
  then have k: "files w1 ?d = Some DirN" "files w1 [''r'', ''workspaces''] = Some DirN" "files w1 [''r''] = Some DirN" "files w1 [] = Some DirN"
    "files w1 (?d @ [''repos'']) = None" "files w1 (?d @ [''repos'', ''a'']) = None" using same add_dirs by simp_all
  have t: "files w1 (tempKey ?d ''.kra-meta-'' ''.tmp'' (rand w1)) = None"
    using atomicReplace_no_temp [OF e] add_dirs(5) nf env by (simp add: tempKey_def)
  have "Stat w1 ''/r/workspaces/T-1/repos/a'' = Inl NotExist" "ReadDir add_sys w1 (pathJoin [''/r'', ''workspaces'', ''T-1'', ''repos'']) = Inl NotExist"
    using k nf by (auto simp: Stat_def ReadDir_def bound_facts(3,7) below_file_def)
  then have ap: "applyRemoveRepoPlan add_sys ''/r'' ''T-1'' [bound_repo] w1 = (Inr (), w1)"
    by (simp add: applyRemoveRepoPlan_def removeOneRepo_def bindW_def ret_def ignore_def removeReposDir_def bound_facts(2))
  have ml: "loadWorkspaceMetaFile ''/r/workspaces/T-1'' w1 = Inr m1"
    using load_rendered [of w1 "''/r/workspaces/T-1''" m1] demo_path(2,3) assms(2,3) nf add_facts(7) by simp
  have wr: "fst (writeWorkspaceMetaFile ''/r/workspaces/T-1'' x w1) = Inr ()" for x
    by (rule write_demo_ok [OF nf k(1-4) assms(2) [unfolded add_facts(7)] t])
  have "TrimSpace ''a'' = ''a''" by code_simp
  then have "fst (removeWorkspaceMetaReposRestoreByAlias ''/r/workspaces/T-1'' [''a''] (clock w1) w1) = Inr ()"
    unfolding removeWorkspaceMetaReposRestoreByAlias_def bindW_def look_def ml by (simp add: wr)
  then show ?thesis using ap
    by (cases "removeWorkspaceMetaReposRestoreByAlias ''/r/workspaces/T-1'' [''a''] (clock w1) w1") (auto simp: removeFinish_def bindW_def mapErr_def bound_facts(4,8))
qed

theorem add_remove_roundtrip_witness:
  "\<exists>applied w1 w2 m. addRepoFinish add_sys ''/r'' ''T-1'' [add_item] add_world = (Inr applied, w1)
    \<and> removeFinish add_sys ''/r'' ''T-1'' [bound_repo] w1 = (Inr (), w2)
    \<and> files w2 (metaKey ''/r'' ''T-1'') = Some (FileN (renderMeta m)) \<and> (\<forall>a. a \<noteq> [] \<longrightarrow> aliasOf (ReposRestore m) a = aliasOf (rev (ReposRestore demo_meta)) a)"
proof -
  obtain applied w1 where r: "addRepoFinish add_sys ''/r'' ''T-1'' [add_item] add_world = (Inr applied, w1)" using add_runs by blast
  obtain m1 where m1: "files w1 (metaKey ''/r'' ''T-1'') = Some (FileN (renderMeta m1))" "wf_meta m1"
    using finish_metadata [OF r add_facts(1-3) add_tame add_file add_facts(4-6)] by (auto simp: recordsPlan_def)
  obtain w2 where r2: "removeFinish add_sys ''/r'' ''T-1'' [bound_repo] w1 = (Inr (), w2)" using added_removed [OF r m1] by blast
  have "rrAlias ` set [bound_repo] = (arAlias \<circ> Candidate) ` set [add_item]" by code_simp
  moreover have "\<forall>p\<in>set [add_item]. aliasOf (rev (ReposRestore demo_meta)) (arAlias (Candidate p)) = None" by code_simp
  ultimately show ?thesis
    using add_remove_roundtrip [OF r r2 _ add_facts(1-3) bound_facts(1) add_tame add_file add_facts(4-6)] r r2 by blast
qed

end
