(* ===== verification/Spec2Isabelle.thy ===== *)
theory Spec2Isabelle
  imports Registry_Laws Kra_Paths Repo_Spec Workspace_Risk Ws_Commit Work_State Workspace_Meta Cmux_Map Cmux_Ctl
    Ws_Archive_Laws Ws_Create_Laws Repo_Gc Repo_Lock Ws_Add_Laws Ws_Remove_Laws
begin

text \<open>
  \<^bold>\<open>kra\<close> is a command line tool that keeps task workspaces below a root directory: a workspace is a directory
  \<open>workspaces/<id>\<close> with notes, a metadata file \<open>.kra.meta.json\<close> and git worktrees in \<open>repos/<alias>\<close>, whose bare
  repositories are kept in a pool below the home directory. A workspace is created, closed (moved to
  \<open>archive/<id>\<close> without its worktrees), reopened and purged; the root is itself a git repository and each of
  these commands commits what it did. A registry of roots and a pointer to the current one are kept below
  the home directory, and workspaces can be opened in the terminal multiplexer cmux.

  \<^bold>\<open>The language and its library.\<close> \<open>Kra_Prelude\<close> holds the result type (\<open>Inl\<close> an error) with its bind, folds
  and the collections of lemmas. \<open>Go_Strings\<close>, \<open>Go_Paths\<close>, \<open>Go_Url\<close> and \<open>Go_Json\<close> with \<open>Go_Json_Struct\<close> model what the
  sources use of \<open>strings\<close>, \<open>path/filepath\<close>, \<open>net/url\<close> and \<open>encoding/json\<close>: strings are lists of bytes, a path is
  a string whose components are its key, JSON is rendered with \<open>MarshalIndent\<close> and parsed by a parser with
  fuel (the length of the text plus one, and the laws show that it is enough for every text that was
  rendered). \<open>Go_FS\<close> is the world: the files as a map from keys to nodes, the environment, the clock, the
  record of git and cmux runs, and a predicate \<open>fails\<close> that says which system call fails, so that every theorem
  holds for every combination of failing calls. \<open>atomicReplace\<close> is the routine that writes a temporary file
  and renames it; as an inductive machine it can be stopped after each call. The locale \<open>atomic_file\<close> is the contract of
  such a file and is interpreted for the registry, the context pointer and the metadata. \<open>Go_Tree\<close> adds
  directories and a state monad with errors, \<open>prog\<close>, in which the stateful operations are written, and the
  record \<open>sys\<close> of what the program calls and does not contain: git, cmux, the order of a directory walk,
  symbolic links, SHA-256. Its locale \<open>step_relation\<close> lifts a relation of worlds from steps to programs.

  \<^bold>\<open>The components.\<close>
  \<^item> \<open>State_Registry\<close> and \<open>Registry_Laws\<close>: \<open>internal/stateregistry/registry.go\<close>. The registry file as a list of
    entries; the operations refine updates of a map from roots to entries, any sequence of them under any
    faults keeps a decodable, sorted file with unique roots and names, and a crash leaves the old or the new file.
  \<^item> \<open>Kra_Paths\<close>: \<open>internal/paths/paths.go\<close>. The search for the root (a loop that is shown to end) and the current context.
  \<^item> \<open>Repo_Spec\<close>: \<open>internal/core/repospec\<close>, \<open>repostore\<close>, \<open>gitparse\<close>, \<open>gitref\<close>. Normal forms of repository specifications.
  \<^item> \<open>Workspace_Risk\<close>: \<open>internal/core/workspacerisk\<close> and \<open>internal/cli/git_status_snapshot.go\<close>. What git status says, the risk of a
    repository and of a workspace.
  \<^item> \<open>Git_Util\<close> and \<open>Ws_Commit\<close>: \<open>internal/gitutil/gitutil.go\<close>, \<open>git_allowlist.go\<close> and the commit routines of \<open>ws_close.go\<close>,
    \<open>ws_reopen.go\<close>, \<open>ws_purge.go\<close> and \<open>ws_create.go\<close>. Every commit follows a check that only paths of the operation are staged.
  \<^item> \<open>Workspace_Meta\<close>: \<open>ws_meta_json.go\<close> and \<open>ws_lock.go\<close>. The metadata file and the purge guard.
  \<^item> \<open>Work_State\<close>: \<open>workspace_workstate.go\<close>. Baselines, the cache and the derivation of \<open>todo\<close> and \<open>in-progress\<close>.
  \<^item> \<open>Cmux_Map\<close> and \<open>Cmux_Ctl\<close>: \<open>internal/cmuxmap\<close> and \<open>internal/infra/cmuxctl/client.go\<close>. The mapping from workspaces to
    cmux workspaces, and the client of the cmux program.
  \<^item> \<open>Ws_Flow\<close>: \<open>ws_flow.go\<close>, the questions of \<open>ws_close.go\<close>, \<open>detectWorkspaceFromCWD\<close>, \<open>shell_action.go\<close>. What the handlers share.
  \<^item> \<open>Ws_Close\<close> and \<open>Ws_Archive\<close>: the handlers and operations of \<open>ws_close.go\<close>, \<open>ws_reopen.go\<close> and \<open>ws_purge.go\<close>.
  \<^item> \<open>Ws_Frame\<close>, \<open>Ws_Lifecycle\<close> and \<open>Ws_Archive_Laws\<close>: which files an operation leaves alone (the locale \<open>git_steps\<close>), and
    what closing, reopening and purging do. Their hypothesis on git and cmux, \<open>tame\<close>, says that they do not
    touch the named files of the workspace; git works in \<open>.git\<close>, in \<open>repos\<close> and in the pool.
  \<^item> \<open>Ws_Template\<close>: \<open>template_common.go\<close>, \<open>template_create.go\<close>, \<open>template_remove.go\<close>, \<open>template_validate.go\<close> and
    \<open>internal/app/templatecmd\<close>. Templates of workspaces; what a copy of one does.
  \<^item> \<open>Kra_Config\<close>: \<open>internal/config/config.go\<close> and \<open>loadMergedConfig\<close>. The YAML decoder is a parameter.
  \<^item> \<open>Ws_Create\<close> and \<open>Ws_Create_Laws\<close>: \<open>ws_create.go\<close>, \<open>ws_workspace_create_common.go\<close> and \<open>internal/app/wscreate\<close>. A new workspace
    is an exact copy of its template with its metadata, or nothing is left of it.
  \<^item> \<open>Repo_Gc\<close>: \<open>repo_gc.go\<close> and \<open>internal/app/repocmd\<close>. The candidates of the pool with their reference counts over the registered
    roots, the choice and the deletion; the selector of the terminal is a parameter. Only repositories that nothing refers to are deleted. The
    interactive choice goes by a key that two hosts can share.
  \<^item> \<open>Repo_Lock\<close>: the lock of \<open>ws_add_repo.go\<close>, as the routine of one process and as the machine \<open>lock_step\<close> of any number of
    processes, one system call a step. A written lock of a live process excludes the others, every run ends, and between
    the creation of the file and its first line two processes can hold the lock.
  \<^item> \<open>Kra_Select\<close>: \<open>filter_match.go\<close> and the selection by numbers of \<open>ws_add_repo.go\<close>. The filter is the subsequence test.
  \<^item> \<open>Ws_Add_Repo\<close> and \<open>Ws_Add_Laws\<close>: \<open>ws_add_repo.go\<close>, in JSON mode and with questions. The lines of the user, the table of live
    processes, the age of \<open>FETCH_HEAD\<close> and the points at which the prefetches run are parameters, so that the theorems
    hold for every one of them. A failure undoes what git did and leaves the metadata; a success records the entries, and the
    garbage collection then spares the repositories.
  \<^item> \<open>Ws_Remove_Repo\<close> and \<open>Ws_Remove_Laws\<close>: \<open>ws_remove_repo.go\<close> in both modes. Nothing is removed that was not found clean unless the
    user says so; a removal takes away the worktrees and their entries, and undoes an addition. A failure between
    two repositories leaves the first one removed.

  A handler returns its exit code and, in JSON mode, the action, the success, the error code and the
  executability of its reply. An error of an operation is a value of a datatype with one constructor per return
  statement; the wrapped text of an operating system or JSON error is not kept.

  \<^bold>\<open>Not modelled.\<close> What is printed for people, usage texts, shell completion and the debug log; the interactive
  selector and launcher; permissions and symbolic links other than \<open>EvalSymlinks\<close>; the decoding of
  YAML; the listing of cmux notifications, which reads numbers as floating point. The commands that add to the pool and
  remove from it, contexts and initialisation, Jira, the report commands and the use cases of
  cmux are left to later work; the operations they rest on (registry, paths, specifications, git, metadata,
  the cmux client and mapping) are here.
\<close>

end
